(* ===== verification/Prelude.thy ===== *)
theory Prelude
  imports Main "HOL-Library.Word" "HOL-Library.AList"
begin

text \<open>
  Shared vocabulary of the development: machine integer types, the error values of
  \<^verbatim>\<open>std::io\<close>, the \<open>?\<close> operator on results, effectful computations over an
  explicit state, and the lemma collections the component theories extend.

  A Rust \<^verbatim>\<open>String\<close>/\<^verbatim>\<open>&str\<close> is a sequence of UTF-8 bytes and a \<^verbatim>\<open>Vec<u8>\<close> a
  sequence of arbitrary bytes; an Isabelle \<open>char\<close> is exactly one byte, so both are
  \<open>string\<close> here (well-formedness of UTF-8 is a predicate, see theory Rust_Str).
  A \<^verbatim>\<open>Result<T, E>\<close> is a sum \<open>'e + 'a\<close> with \<open>Inl\<close> for \<^verbatim>\<open>Err\<close>.
\<close>

unbundle bit_operations_syntax

section \<open>Types\<close>

type_synonym u8 = "8 word"
type_synonym u16 = "16 word"
type_synonym u32 = "32 word"
type_synonym u64 = "64 word"
type_synonym bytes = string

named_theorems act_simps \<open>unfolding of effectful computations\<close>
named_theorems str_simps \<open>equations of the string functions\<close>
named_theorems wf_intros \<open>invariant preservation\<close>

text \<open>The error kinds of \<^verbatim>\<open>std::io::ErrorKind\<close> the program creates or tests.\<close>

datatype io_kind =
    UnexpectedEof | InvalidData | InvalidInput | PermissionDenied | TimedOut
  | BrokenPipe | ConnectionReset | ConnectionAborted | ConnectionRefused
  | AddrInUse | NotFound | Unsupported | OtherKind

datatype io_error = IoErr (err_kind: io_kind) (err_msg: string)

text \<open>The four kinds every component treats as an ordinary disconnect
  (\<^verbatim>\<open>is_benign\<close> of session.rs, hub.rs and daemon.rs, \<^verbatim>\<open>is_benign_io\<close> of lib.rs).\<close>

definition is_benign :: "io_error \<Rightarrow> bool" where
  "is_benign e \<longleftrightarrow> err_kind e \<in> {BrokenPipe, ConnectionReset, ConnectionAborted, UnexpectedEof}"

section \<open>Results\<close>

definition bind_r :: "'e + 'a \<Rightarrow> ('a \<Rightarrow> 'e + 'b) \<Rightarrow> 'e + 'b" where
  "bind_r m f = (case m of Inl e \<Rightarrow> Inl e | Inr x \<Rightarrow> f x)"

definition map_err :: "('e \<Rightarrow> 'f) \<Rightarrow> 'e + 'a \<Rightarrow> 'f + 'a" where
  "map_err g m = (case m of Inl e \<Rightarrow> Inl (g e) | Inr x \<Rightarrow> Inr x)"

definition ok_or :: "'a option \<Rightarrow> 'e \<Rightarrow> 'e + 'a" where
  "ok_or m e = (case m of None \<Rightarrow> Inl e | Some x \<Rightarrow> Inr x)"

definition ok :: "'e + 'a \<Rightarrow> 'a option" where
  "ok m = (case m of Inl _ \<Rightarrow> None | Inr x \<Rightarrow> Some x)"

definition unwrap_or :: "'a \<Rightarrow> 'a option \<Rightarrow> 'a" where
  "unwrap_or d m = (case m of None \<Rightarrow> d | Some x \<Rightarrow> x)"

abbreviation is_ok :: "'e + 'a \<Rightarrow> bool" where
  "is_ok m \<equiv> \<not> isl m"

section \<open>Effectful computations\<close>

text \<open>A fallible computation that reads and updates a state of type \<open>'s\<close>; the state
  reached is kept on the error path too, as the effects before an early return are.\<close>

type_synonym ('s, 'a) act = "'s \<Rightarrow> (io_error + 'a) \<times> 's"

definition ret :: "'a \<Rightarrow> ('s, 'a) act" where
  "ret x s = (Inr x, s)"

definition throw :: "io_error \<Rightarrow> ('s, 'a) act" where
  "throw e s = (Inl e, s)"

definition bind_a :: "('s, 'a) act \<Rightarrow> ('a \<Rightarrow> ('s, 'b) act) \<Rightarrow> ('s, 'b) act" where
  "bind_a m f s = (case m s of (Inl e, s') \<Rightarrow> (Inl e, s') | (Inr x, s') \<Rightarrow> f x s')"

text \<open>\<open>then_a\<close> sequences two computations, \<open>try_a\<close> gives the caller the result as a
  value (a \<^verbatim>\<open>match\<close> on the \<^verbatim>\<open>Result\<close>).\<close>

definition then_a :: "('s, 'a) act \<Rightarrow> ('s, 'b) act \<Rightarrow> ('s, 'b) act" where
  "then_a m n = bind_a m (\<lambda>_. n)"

definition try_a :: "('s, 'a) act \<Rightarrow> (io_error + 'a \<Rightarrow> ('s, 'b) act) \<Rightarrow> ('s, 'b) act" where
  "try_a m f s = (case m s of (r, s') \<Rightarrow> f r s')"

definition lift_r :: "io_error + 'a \<Rightarrow> ('s, 'a) act" where
  "lift_r r s = (r, s)"

section \<open>Hash maps that are iterated\<close>

text \<open>A \<^verbatim>\<open>HashMap\<close> whose entries are enumerated is an association list with distinct keys;
  nothing proved depends on the order of the list. A \<^verbatim>\<open>HashMap\<close> that is only looked up is
  a map \<open>'k \<rightharpoonup> 'v\<close>.\<close>

type_synonym ('k, 'v) hmap = "('k \<times> 'v) list"

definition hm_insert :: "'k \<Rightarrow> 'v \<Rightarrow> ('k, 'v) hmap \<Rightarrow> ('k, 'v) hmap" where
  "hm_insert k v m = AList.update k v m"

definition hm_remove :: "'k \<Rightarrow> ('k, 'v) hmap \<Rightarrow> ('k, 'v) hmap" where
  "hm_remove k m = AList.delete k m"

definition hm_wf :: "('k, 'v) hmap \<Rightarrow> bool" where
  "hm_wf m \<longleftrightarrow> distinct (map fst m)"

section \<open>Lemmas\<close>

lemma hm_insert_get [simp]: "map_of (hm_insert k v m) = (map_of m)(k \<mapsto> v)"
  by (simp add: hm_insert_def update_conv')

lemma hm_remove_get [simp]: "map_of (hm_remove k m) = (map_of m)(k := None)"
  by (simp add: hm_remove_def delete_conv')

lemma hm_wf_Nil [wf_intros, simp]: "hm_wf []"
  by (simp add: hm_wf_def)

lemma hm_wf_insert [wf_intros]: "hm_wf m \<Longrightarrow> hm_wf (hm_insert k v m)"
  by (simp add: hm_wf_def hm_insert_def distinct_update)

lemma hm_wf_remove [wf_intros]: "hm_wf m \<Longrightarrow> hm_wf (hm_remove k m)"
  by (simp add: hm_wf_def hm_remove_def distinct_delete)

lemma bind_r_simps [simp]:
  "bind_r (Inl e) f = Inl e"
  "bind_r (Inr x) f = f x"
  by (simp_all add: bind_r_def)

lemma bind_r_Inr_iff: "bind_r m f = Inr y \<longleftrightarrow> (\<exists>x. m = Inr x \<and> f x = Inr y)"
  by (cases m) auto

lemma bind_r_Inl_iff: "bind_r m f = Inl e \<longleftrightarrow> m = Inl e \<or> (\<exists>x. m = Inr x \<and> f x = Inl e)"
  by (cases m) auto

lemma map_err_simps [simp]:
  "map_err g (Inl e) = Inl (g e)"
  "map_err g (Inr x) = Inr x"
  by (simp_all add: map_err_def)

lemma map_err_Inr_iff [simp]: "map_err g m = Inr x \<longleftrightarrow> m = Inr x"
  by (cases m) auto

lemma ok_or_simps [simp]:
  "ok_or None e = Inl e"
  "ok_or (Some x) e = Inr x"
  by (simp_all add: ok_or_def)

lemma ok_simps [simp]: "ok (Inl e) = None" "ok (Inr x) = Some x"
  by (simp_all add: ok_def)

lemma ok_Some_iff: "ok m = Some x \<longleftrightarrow> m = Inr x"
  by (cases m) auto

lemma unwrap_or_simps [simp]: "unwrap_or d None = d" "unwrap_or d (Some x) = x"
  by (simp_all add: unwrap_or_def)

lemma act_unfold [act_simps, simp]:
  "ret x s = (Inr x, s)"
  "throw e s = (Inl e, s)"
  "lift_r r s = (r, s)"
  by (simp_all add: ret_def throw_def lift_r_def)

lemma bind_a_Pair [act_simps]:
  "m s = (Inr x, s') \<Longrightarrow> bind_a m f s = f x s'"
  "m s = (Inl e, s') \<Longrightarrow> bind_a m f s = (Inl e, s')"
  by (simp_all add: bind_a_def)

lemma then_a_Pair [act_simps]:
  "m s = (Inr x, s') \<Longrightarrow> then_a m n s = n s'"
  "m s = (Inl e, s') \<Longrightarrow> then_a m n s = (Inl e, s')"
  by (simp_all add: then_a_def bind_a_def)

lemma try_a_Pair [act_simps]: "m s = (r, s') \<Longrightarrow> try_a m f s = f r s'"
  by (simp add: try_a_def)

lemma bind_a_cong_result:
  "bind_a m f s = (Inr y, s'') \<longleftrightarrow> (\<exists>x s'. m s = (Inr x, s') \<and> f x s' = (Inr y, s''))"
  by (auto simp: bind_a_def split: prod.splits sum.splits)

lemma then_a_result:
  "then_a m n s = (Inr y, s'') \<longleftrightarrow> (\<exists>x s'. m s = (Inr x, s') \<and> n s' = (Inr y, s''))"
  by (simp add: then_a_def bind_a_cong_result)

lemma bind_a_assoc: "bind_a (bind_a m f) g = bind_a m (\<lambda>x. bind_a (f x) g)"
  by (rule ext) (auto simp: bind_a_def split: prod.splits sum.splits)

lemma bind_a_ret [simp]: "bind_a (ret x) f = f x" "bind_a m ret = m"
  by (rule ext, auto simp: bind_a_def split: prod.splits sum.splits)+

text \<open>Generic list facts used by several components.\<close>

lemma distinct_map_conv_inj: "distinct (map f xs) \<longleftrightarrow> distinct xs \<and> inj_on f (set xs)"
  by (rule distinct_map)

lemma distinct_map_sort_key: "distinct (map f xs) \<Longrightarrow> distinct (map f (sort_key g xs))"
  by (simp add: distinct_map)

lemma find_Some_in_set: "find P xs = Some x \<Longrightarrow> x \<in> set xs \<and> P x"
  by (induction xs) (auto split: if_splits)

lemma find_unique:
  assumes "distinct (map f xs)" and "x \<in> set xs"
  shows "find (\<lambda>y. f y = f x) xs = Some x"
  using assms by (induction xs) (auto simp: image_iff)

lemma filter_single_iff:
  "filter P xs = [x] \<Longrightarrow> x \<in> set xs \<and> P x \<and> (\<forall>y \<in> set xs. P y \<longrightarrow> y = x)"
proof -
  assume a: "filter P xs = [x]"
  have "set (filter P xs) = {x}" by (simp add: a)
  then show ?thesis by auto
qed

end
