(* ===== verification/Rust_Str.thy ===== *)
theory Rust_Str
  imports Prelude
begin

text \<open>
  The functions of \<^verbatim>\<open>str\<close> and \<^verbatim>\<open>String\<close> the program calls, on UTF-8 byte strings:
  prefixes, splitting, \<^verbatim>\<open>lines\<close>, Unicode \<^verbatim>\<open>trim\<close> and \<^verbatim>\<open>split_whitespace\<close>, UTF-8
  validation (\<^verbatim>\<open>String::from_utf8\<close>) and \<^verbatim>\<open>from_utf8_lossy\<close>.

  All of them work byte by byte. That is exact on valid UTF-8: every multi-byte
  whitespace character starts with a lead byte, which never occurs inside another
  character.
\<close>

section \<open>Prefixes and splitting\<close>

fun strip_prefix :: "string \<Rightarrow> string \<Rightarrow> string option" where
  "strip_prefix [] s = Some s"
| "strip_prefix (p # ps) [] = None"
| "strip_prefix (p # ps) (c # cs) = (if p = c then strip_prefix ps cs else None)"

definition starts_with :: "string \<Rightarrow> string \<Rightarrow> bool" where
  "starts_with p s \<longleftrightarrow> strip_prefix p s \<noteq> None"

definition ends_with :: "string \<Rightarrow> string \<Rightarrow> bool" where
  "ends_with p s \<longleftrightarrow> strip_prefix (rev p) (rev s) \<noteq> None"

definition strip_suffix :: "string \<Rightarrow> string \<Rightarrow> string option" where
  "strip_suffix p s = map_option rev (strip_prefix (rev p) (rev s))"

text \<open>\<^verbatim>\<open>split_once(c)\<close>: at the first occurrence of an (ASCII) character.\<close>

fun split_once :: "char \<Rightarrow> string \<Rightarrow> (string \<times> string) option" where
  "split_once c [] = None"
| "split_once c (x # xs) =
     (if x = c then Some ([], xs)
      else map_option (\<lambda>(a, b). (x # a, b)) (split_once c xs))"

text \<open>\<^verbatim>\<open>split(c)\<close>: always at least one piece.\<close>

fun split_on :: "char \<Rightarrow> string \<Rightarrow> string list" where
  "split_on c [] = [[]]"
| "split_on c (x # xs) =
     (if x = c then [] # split_on c xs
      else (case split_on c xs of [] \<Rightarrow> [[x]] | p # ps \<Rightarrow> (x # p) # ps))"

text \<open>\<^verbatim>\<open>replace(from, to)\<close> on single characters.\<close>

definition replace_char :: "char \<Rightarrow> char \<Rightarrow> string \<Rightarrow> string" where
  "replace_char a b = map (\<lambda>c. if c = a then b else c)"

fun join :: "string \<Rightarrow> string list \<Rightarrow> string" where
  "join sep [] = []"
| "join sep [x] = x"
| "join sep (x # y # ys) = x @ sep @ join sep (y # ys)"

section \<open>Lines\<close>

text \<open>\<^verbatim>\<open>str::lines\<close>: pieces ended by a line feed, one carriage return before it
  removed; a last piece without a line feed is a line when it is not empty (and keeps
  its carriage return).\<close>

abbreviation LF :: char where "LF \<equiv> CHR 0x0A"
abbreviation CR :: char where "CR \<equiv> CHR 0x0D"
abbreviation TAB :: char where "TAB \<equiv> CHR 0x09"

definition chop_cr :: "string \<Rightarrow> string" where
  "chop_cr l = (if l \<noteq> [] \<and> last l = CR then butlast l else l)"

fun lines_acc :: "string \<Rightarrow> string \<Rightarrow> string list" where
  "lines_acc acc [] = (if acc = [] then [] else [rev acc])"
| "lines_acc acc (c # cs) =
     (if c = LF then chop_cr (rev acc) # lines_acc [] cs else lines_acc (c # acc) cs)"

definition str_lines :: "string \<Rightarrow> string list" where
  "str_lines s = lines_acc [] s"

section \<open>Whitespace\<close>

text \<open>The encodings of the characters with the Unicode property \<^verbatim>\<open>White_Space\<close>:
  U+0009 to U+000D, U+0020, U+0085, U+00A0, U+1680, U+2000 to U+200A, U+2028, U+2029,
  U+202F, U+205F and U+3000. The result is the length of the whitespace character the
  string starts with, 0 when it starts with another character.\<close>

definition ws1 :: "char \<Rightarrow> bool" where
  "ws1 c \<longleftrightarrow> c \<in> {CHR 0x09, CHR 0x0A, CHR 0x0B, CHR 0x0C, CHR 0x0D, CHR 0x20}"

definition ws2 :: "char \<Rightarrow> char \<Rightarrow> bool" where
  "ws2 a b \<longleftrightarrow> a = CHR 0xC2 \<and> b \<in> {CHR 0x85, CHR 0xA0}"

definition ws3 :: "char \<Rightarrow> char \<Rightarrow> char \<Rightarrow> bool" where
  "ws3 a b c \<longleftrightarrow>
     a = CHR 0xE1 \<and> b = CHR 0x9A \<and> c = CHR 0x80
   \<or> a = CHR 0xE2 \<and> b = CHR 0x80 \<and>
       (of_char c \<in> {0x80..0x8A :: nat} \<or> c \<in> {CHR 0xA8, CHR 0xA9, CHR 0xAF})
   \<or> a = CHR 0xE2 \<and> b = CHR 0x81 \<and> c = CHR 0x9F
   \<or> a = CHR 0xE3 \<and> b = CHR 0x80 \<and> c = CHR 0x80"

fun ws_len :: "string \<Rightarrow> nat" where
  "ws_len [] = 0"
| "ws_len [a] = (if ws1 a then 1 else 0)"
| "ws_len [a, b] = (if ws1 a then 1 else if ws2 a b then 2 else 0)"
| "ws_len (a # b # c # cs) =
     (if ws1 a then 1 else if ws2 a b then 2 else if ws3 a b c then 3 else 0)"

text \<open>The same at the end of a string, given reversed.\<close>

fun ws_len_rev :: "string \<Rightarrow> nat" where
  "ws_len_rev [] = 0"
| "ws_len_rev [a] = (if ws1 a then 1 else 0)"
| "ws_len_rev [a, b] = (if ws1 a then 1 else if ws2 b a then 2 else 0)"
| "ws_len_rev (a # b # c # cs) =
     (if ws1 a then 1 else if ws2 b a then 2 else if ws3 c b a then 3 else 0)"

lemma ws_len_le: "ws_len s \<le> length s"
  by (induction s rule: ws_len.induct) auto

lemma ws_len_rev_le: "ws_len_rev s \<le> length s"
  by (induction s rule: ws_len_rev.induct) auto

lemma ws_len_pos_ne: "ws_len s \<noteq> 0 \<Longrightarrow> s \<noteq> []"
  by (cases s) auto

function trim_start :: "string \<Rightarrow> string" where
  "trim_start s = (if ws_len s = 0 then s else trim_start (drop (ws_len s) s))"
  by pat_completeness auto
termination
  by (relation "measure length") (use ws_len_le ws_len_pos_ne in force)+

function trim_end_rev :: "string \<Rightarrow> string" where
  "trim_end_rev s = (if ws_len_rev s = 0 then s else trim_end_rev (drop (ws_len_rev s) s))"
  by pat_completeness auto
termination
proof (relation "measure length", goal_cases)
  case (2 s)
  then have "s \<noteq> []" by (cases s) auto
  with 2 show ?case by simp
qed simp

definition trim_end :: "string \<Rightarrow> string" where
  "trim_end s = rev (trim_end_rev (rev s))"

definition trim :: "string \<Rightarrow> string" where
  "trim s = trim_end (trim_start s)"

function split_ws :: "string \<Rightarrow> string \<Rightarrow> string list" where
  "split_ws acc s =
     (case s of
        [] \<Rightarrow> (if acc = [] then [] else [rev acc])
      | c # cs \<Rightarrow>
          (if ws_len s = 0 then split_ws (c # acc) cs
           else (if acc = [] then [] else [rev acc]) @ split_ws [] (drop (ws_len s) s)))"
  by pat_completeness auto
termination
  by (relation "measure (\<lambda>(acc, s). length s)") auto

definition split_whitespace :: "string \<Rightarrow> string list" where
  "split_whitespace s = split_ws [] s"

declare trim_start.simps [simp del] trim_end_rev.simps [simp del] split_ws.simps [simp del]

section \<open>UTF-8\<close>

abbreviation byte_val :: "char \<Rightarrow> nat" where
  "byte_val c \<equiv> of_char c"

definition byte_at :: "string \<Rightarrow> nat \<Rightarrow> nat" where
  "byte_at s i = (if i < length s then byte_val (s ! i) else 0)"

definition in_rng :: "nat \<Rightarrow> nat \<Rightarrow> nat \<Rightarrow> bool" where
  "in_rng lo hi b \<longleftrightarrow> lo \<le> b \<and> b \<le> hi"

text \<open>The first character of a nonempty byte string: whether it is well formed, and how
  many bytes the decoder consumes (for an ill-formed one, the longest prefix that could
  have started a character, which is what one replacement character stands for).\<close>

definition utf8_first :: "string \<Rightarrow> bool \<times> nat" where
  "utf8_first s =
     (let b0 = byte_at s 0; b1 = byte_at s 1; b2 = byte_at s 2; b3 = byte_at s 3 in
      if b0 < 0x80 then (True, 1)
      else if in_rng 0xC2 0xDF b0 then
        (if in_rng 0x80 0xBF b1 then (True, 2) else (False, 1))
      else if in_rng 0xE0 0xEF b0 then
        (if \<not> in_rng (if b0 = 0xE0 then 0xA0 else 0x80) (if b0 = 0xED then 0x9F else 0xBF) b1
         then (False, 1)
         else if \<not> in_rng 0x80 0xBF b2 then (False, 2) else (True, 3))
      else if in_rng 0xF0 0xF4 b0 then
        (if \<not> in_rng (if b0 = 0xF0 then 0x90 else 0x80) (if b0 = 0xF4 then 0x8F else 0xBF) b1
         then (False, 1)
         else if \<not> in_rng 0x80 0xBF b2 then (False, 2)
         else if \<not> in_rng 0x80 0xBF b3 then (False, 3) else (True, 4))
      else (False, 1))"

definition replacement_char :: string where
  "replacement_char = [CHR 0xEF, CHR 0xBF, CHR 0xBD]"

lemma utf8_first_pos: "0 < snd (utf8_first s)"
  by (simp add: utf8_first_def Let_def)

function utf8_valid :: "string \<Rightarrow> bool" where
  "utf8_valid s =
     (if s = [] then True
      else fst (utf8_first s) \<and> utf8_valid (drop (snd (utf8_first s)) s))"
  by pat_completeness auto
termination
  by (relation "measure length") (use utf8_first_pos in auto)

function utf8_lossy :: "string \<Rightarrow> string" where
  "utf8_lossy s =
     (if s = [] then []
      else (if fst (utf8_first s) then take (snd (utf8_first s)) s else replacement_char)
           @ utf8_lossy (drop (snd (utf8_first s)) s))"
  by pat_completeness auto
termination
  by (relation "measure length") (use utf8_first_pos in auto)

declare utf8_valid.simps [simp del] utf8_lossy.simps [simp del]

text \<open>\<^verbatim>\<open>String::from_utf8\<close>.\<close>

definition from_utf8 :: "bytes \<Rightarrow> string option" where
  "from_utf8 b = (if utf8_valid b then Some b else None)"

section \<open>Lemmas: prefixes and splitting\<close>

lemma strip_prefix_Some_iff [simp]: "strip_prefix p s = Some r \<longleftrightarrow> s = p @ r"
  by (induction p s rule: strip_prefix.induct) auto

lemma strip_prefix_append [simp]: "strip_prefix p (p @ r) = Some r"
  by simp

lemma strip_prefix_None_iff: "strip_prefix p s = None \<longleftrightarrow> (\<forall>r. s \<noteq> p @ r)"
  by (metis not_Some_eq strip_prefix_Some_iff)

lemma starts_with_iff: "starts_with p s \<longleftrightarrow> (\<exists>r. s = p @ r)"
  by (auto simp: starts_with_def)

lemma starts_with_append [simp]: "starts_with p (p @ r)"
  by (simp add: starts_with_def)

lemma ends_with_iff: "ends_with p s \<longleftrightarrow> (\<exists>r. s = r @ p)"
proof -
  have "ends_with p s \<longleftrightarrow> (\<exists>r. rev s = rev p @ r)"
    by (auto simp: ends_with_def)
  also have "\<dots> \<longleftrightarrow> (\<exists>r. s = r @ p)"
    by (metis rev_append rev_rev_ident)
  finally show ?thesis .
qed

lemma split_once_Some_iff:
  "split_once c s = Some (a, b) \<longleftrightarrow> s = a @ c # b \<and> c \<notin> set a"
proof (induction s arbitrary: a)
  case Nil
  then show ?case by simp
next
  case (Cons x xs)
  then show ?case by (cases a) auto
qed

lemma split_once_None_iff: "split_once c s = None \<longleftrightarrow> c \<notin> set s"
  by (induction s) auto

lemma split_on_ne [simp]: "split_on c s \<noteq> []"
  by (induction s) (auto split: list.split)

lemma split_on_no_sep: "c \<notin> set s \<Longrightarrow> split_on c s = [s]"
  by (induction s) auto

lemma split_on_append: "c \<notin> set a \<Longrightarrow> split_on c (a @ c # b) = a # split_on c b"
  by (induction a) auto

lemma split_on_pieces: "p \<in> set (split_on c s) \<Longrightarrow> c \<notin> set p"
proof (induction s arbitrary: p)
  case Nil
  then show ?case by simp
next
  case (Cons x xs)
  then show ?case by (cases "split_on c xs") (auto split: if_splits)
qed

lemma join_Cons: "join sep (x # xs) = x @ (if xs = [] then [] else sep @ join sep xs)"
  by (cases xs) simp_all

section \<open>Lemmas: lines\<close>

lemma lines_acc_no_lf: "LF \<notin> set l \<Longrightarrow> lines_acc acc (l @ LF # r) = chop_cr (rev acc @ l) # lines_acc [] r"
  by (induction l arbitrary: acc) auto

lemma str_lines_Nil [simp]: "str_lines [] = []"
  by (simp add: str_lines_def)

lemma str_lines_line:
  "LF \<notin> set l \<Longrightarrow> str_lines (l @ LF # r) = chop_cr l # str_lines r"
  by (simp add: str_lines_def lines_acc_no_lf)

lemma chop_cr_id [simp]: "l = [] \<or> last l \<noteq> CR \<Longrightarrow> chop_cr l = l"
  by (auto simp: chop_cr_def)

lemma lines_acc_no_LF: "LF \<notin> set acc \<Longrightarrow> l \<in> set (lines_acc acc s) \<Longrightarrow> LF \<notin> set l"
proof (induction acc s rule: lines_acc.induct)
  case (1 acc)
  then show ?case by (auto split: if_splits)
next
  case (2 acc c cs)
  then show ?case
    by (auto simp: chop_cr_def split: if_splits dest: in_set_butlastD list.set_sel(2))
qed

lemma str_lines_no_LF: "l \<in> set (str_lines s) \<Longrightarrow> LF \<notin> set l"
  unfolding str_lines_def by (rule lines_acc_no_LF) simp_all

text \<open>Text built from lines that hold neither separator reads back as those lines.\<close>

definition unlines :: "string list \<Rightarrow> string" where
  "unlines ls = concat (map (\<lambda>l. l @ [LF]) ls)"

lemma str_lines_unlines:
  assumes "\<forall>l \<in> set ls. LF \<notin> set l \<and> (l = [] \<or> last l \<noteq> CR)"
  shows "str_lines (unlines ls) = ls"
  using assms
proof (induction ls)
  case Nil
  then show ?case by (simp add: unlines_def)
next
  case (Cons l ls)
  have "str_lines (unlines (l # ls)) = str_lines (l @ LF # unlines ls)"
    by (simp add: unlines_def)
  also have "\<dots> = l # str_lines (unlines ls)"
    using Cons.prems by (simp add: str_lines_line)
  finally show ?case using Cons by simp
qed

section \<open>Lemmas: whitespace\<close>

text \<open>A byte that no whitespace character starts with or ends with.\<close>

definition no_ws :: "string \<Rightarrow> bool" where
  "no_ws s \<longleftrightarrow> (\<forall>c \<in> set s. \<not> ws1 c \<and> byte_val c < 0x80)"

lemma ws_len_no_ws: "no_ws s \<Longrightarrow> ws_len (s @ t) = (if s = [] then ws_len t else 0)"
proof (cases s)
  case (Cons a as)
  assume n: "no_ws s"
  with Cons have a: "\<not> ws1 a" "byte_val a < 0x80" by (auto simp: no_ws_def)
  then have "a \<noteq> CHR 0xC2" "a \<noteq> CHR 0xE1" "a \<noteq> CHR 0xE2" "a \<noteq> CHR 0xE3" by auto
  with a have "\<not> ws2 a b" "\<not> ws3 a b c" for b c
    by (auto simp: ws2_def ws3_def)
  then have "ws_len (a # xs) = 0" for xs
    using a(1) by (cases "a # xs" rule: ws_len.cases) auto
  with Cons show ?thesis by simp
qed simp

lemma split_ws_token:
  assumes "no_ws s" and "ws_len t \<noteq> 0 \<or> t = []"
  shows "split_ws acc (s @ t) = split_ws (rev s @ acc) t"
  using assms
proof (induction s arbitrary: acc)
  case (Cons c cs)
  have "ws_len ((c # cs) @ t) = 0"
    using Cons.prems(1) by (subst ws_len_no_ws) auto
  then have "split_ws acc ((c # cs) @ t) = split_ws (c # acc) (cs @ t)"
    by (subst split_ws.simps) simp
  also have "\<dots> = split_ws (rev cs @ c # acc) t"
    using Cons by (auto simp: no_ws_def)
  finally show ?case by simp
qed simp

lemma split_ws_Nil [simp]: "split_ws acc [] = (if acc = [] then [] else [rev acc])"
  by (simp add: split_ws.simps)

lemma split_ws_sep: "ws1 c \<Longrightarrow>
  split_ws acc (c # t) = (if acc = [] then [] else [rev acc]) @ split_ws [] t"
proof -
  assume "ws1 c"
  then have "ws_len (c # t) = 1" by (cases "c # t" rule: ws_len.cases) auto
  then show ?thesis by (subst split_ws.simps) simp
qed

lemma ws_len_ws1 [simp]: "ws1 c \<Longrightarrow> ws_len (c # t) = 1"
  by (cases "c # t" rule: ws_len.cases) auto

lemma ws1_simps [simp]: "ws1 TAB" "ws1 LF" "ws1 CR" "ws1 (CHR '' '')"
  by (simp_all add: ws1_def)

lemma split_whitespace_Nil [simp]: "split_whitespace [] = []"
  by (simp add: split_whitespace_def)

lemma split_whitespace_token: "no_ws s \<Longrightarrow> s \<noteq> [] \<Longrightarrow> split_whitespace s = [s]"
  using split_ws_token [of s "[]" "[]"] by (simp add: split_whitespace_def)

lemma split_whitespace_cons:
  assumes "no_ws s" "s \<noteq> []" "ws1 c"
  shows "split_whitespace (s @ c # t) = s # split_whitespace t"
  using assms split_ws_token [of s "c # t" "[]"]
  by (simp add: split_whitespace_def split_ws_sep)

lemma trim_start_id: "ws_len s = 0 \<Longrightarrow> trim_start s = s"
  by (subst trim_start.simps) simp

lemma trim_end_id: "ws_len_rev (rev s) = 0 \<Longrightarrow> trim_end s = s"
  by (simp add: trim_end_def) (subst trim_end_rev.simps, simp)

lemma ws_len_rev_no_ws: "no_ws s \<Longrightarrow> s \<noteq> [] \<Longrightarrow> ws_len_rev (rev s @ t) = 0"
proof -
  assume n: "no_ws s" and ne: "s \<noteq> []"
  define a where "a = last s"
  define xs where "xs = rev (butlast s) @ t"
  have eq: "rev s @ t = a # xs"
    using ne append_butlast_last_id [OF ne] unfolding a_def xs_def
    by (metis append_Cons append_Nil rev_append rev_singleton_conv)
  have "a \<in> set s" using ne by (simp add: a_def)
  with n have a: "\<not> ws1 a" "byte_val a < 0x80" by (auto simp: no_ws_def)
  then have "a \<noteq> CHR 0x85" "a \<noteq> CHR 0xA0" "a \<noteq> CHR 0x80" "a \<noteq> CHR 0xA8" "a \<noteq> CHR 0xA9"
    "a \<noteq> CHR 0xAF" "a \<noteq> CHR 0x9F" by auto
  with a have "\<not> ws2 b a" "\<not> ws3 c b a" for b c
    by (auto simp: ws2_def ws3_def)
  with a(1) have "ws_len_rev (a # xs) = 0"
    by (cases "a # xs" rule: ws_len_rev.cases) auto
  with eq show ?thesis by simp
qed

lemma trim_no_ws_ends:
  assumes "no_ws a" "a \<noteq> []" "no_ws b" "b \<noteq> []"
  shows "trim (a @ m @ b) = a @ m @ b"
proof -
  have "trim_start (a @ m @ b) = a @ m @ b"
    using assms by (intro trim_start_id) (simp add: ws_len_no_ws)
  moreover have "trim_end (a @ m @ b) = a @ m @ b"
    using ws_len_rev_no_ws [OF assms(3,4), of "rev m @ rev a"]
    by (intro trim_end_id) simp
  ultimately show ?thesis by (simp add: trim_def)
qed

lemma trim_no_ws: "no_ws a \<Longrightarrow> trim a = a"
proof (cases "a = []")
  case False
  assume "no_ws a"
  with False have "trim_start a = a" "trim_end a = a"
    using ws_len_no_ws [of a "[]"] ws_len_rev_no_ws [of a "[]"]
    by (auto intro: trim_start_id trim_end_id)
  then show ?thesis by (simp add: trim_def)
qed (simp add: trim_def trim_start_id trim_end_id)

section \<open>Lemmas: UTF-8\<close>

lemma utf8_valid_Nil [simp]: "utf8_valid []"
  by (subst utf8_valid.simps) simp

lemma utf8_lossy_Nil [simp]: "utf8_lossy [] = []"
  by (subst utf8_lossy.simps) simp

lemma utf8_first_ascii: "byte_val c < 0x80 \<Longrightarrow> utf8_first (c # s) = (True, 1)"
  by (simp add: utf8_first_def byte_at_def Let_def)

lemma utf8_valid_ascii_Cons: "byte_val c < 0x80 \<Longrightarrow> utf8_valid (c # s) = utf8_valid s"
  by (subst utf8_valid.simps) (simp add: utf8_first_ascii)

definition ascii :: "string \<Rightarrow> bool" where
  "ascii s \<longleftrightarrow> (\<forall>c \<in> set s. byte_val c < 0x80)"

lemma utf8_valid_ascii_append: "ascii p \<Longrightarrow> utf8_valid (p @ s) = utf8_valid s"
  by (induction p) (auto simp: ascii_def utf8_valid_ascii_Cons)

lemma utf8_valid_ascii: "ascii s \<Longrightarrow> utf8_valid s"
  using utf8_valid_ascii_append [of s "[]"] by simp

lemma utf8_lossy_valid: "utf8_valid s \<Longrightarrow> utf8_lossy s = s"
proof (induction s rule: utf8_lossy.induct)
  case (1 s)
  show ?case
  proof (cases "s = []")
    case False
    from 1(2) False have h: "fst (utf8_first s)" "utf8_valid (drop (snd (utf8_first s)) s)"
      by (subst (asm) utf8_valid.simps, simp)+
    with 1(1) False have "utf8_lossy (drop (snd (utf8_first s)) s) = drop (snd (utf8_first s)) s"
      by simp
    with False h(1) show ?thesis by (subst utf8_lossy.simps) simp
  qed simp
qed

lemma from_utf8_Some_iff: "from_utf8 b = Some s \<longleftrightarrow> utf8_valid b \<and> s = b"
  by (auto simp: from_utf8_def)

end
