(* ===== verification/Rust_Num.thy ===== *)
theory Rust_Num
  imports Rust_Str
begin

text \<open>
  Printing and parsing of unsigned integers: \<^verbatim>\<open>format!("{}")\<close>, \<^verbatim>\<open>{:x}\<close>, \<^verbatim>\<open>{:04x}\<close>,
  \<^verbatim>\<open>uN::from_str_radix\<close> and \<^verbatim>\<open>str::parse::<uN>\<close>. The type's maximum is a parameter, so
  that overflow of the accumulator is a branch of the parser as in the library.
\<close>

datatype int_error = Empty | InvalidDigit | PosOverflow

definition int_error_msg :: "int_error \<Rightarrow> string" where
  "int_error_msg e = (case e of
     Empty \<Rightarrow> ''cannot parse integer from empty string''
   | InvalidDigit \<Rightarrow> ''invalid digit found in string''
   | PosOverflow \<Rightarrow> ''number too large to fit in target type'')"

abbreviation U8_MAX :: nat where "U8_MAX \<equiv> 255"
abbreviation U16_MAX :: nat where "U16_MAX \<equiv> 65535"
abbreviation U32_MAX :: nat where "U32_MAX \<equiv> 4294967295"
abbreviation USIZE_MAX :: nat where "USIZE_MAX \<equiv> 18446744073709551615"

definition digit_char :: "nat \<Rightarrow> char" where
  "digit_char d = char_of (if d < 10 then 48 + d else 87 + d)"

text \<open>\<^verbatim>\<open>char::to_digit(radix)\<close>: decimal digits and letters of either case.\<close>

definition to_digit :: "nat \<Rightarrow> char \<Rightarrow> nat option" where
  "to_digit radix c =
     (let b = byte_val c;
          d = (if in_rng 48 57 b then Some (b - 48)
               else if in_rng 97 122 b then Some (b - 87)
               else if in_rng 65 90 b then Some (b - 55) else None)
      in case d of None \<Rightarrow> None | Some v \<Rightarrow> if v < radix then Some v else None)"

fun to_radix :: "nat \<Rightarrow> nat \<Rightarrow> string" where
  "to_radix b n =
     (if n < b \<or> b < 2 then [digit_char n] else to_radix b (n div b) @ [digit_char (n mod b)])"

declare to_radix.simps [simp del]

abbreviation dec :: "nat \<Rightarrow> string" where "dec n \<equiv> to_radix 10 n"
abbreviation hex :: "nat \<Rightarrow> string" where "hex n \<equiv> to_radix 16 n"

text \<open>\<^verbatim>\<open>{:0Nx}\<close>: padded on the left with zeros to at least \<open>w\<close> characters.\<close>

definition pad0 :: "nat \<Rightarrow> string \<Rightarrow> string" where
  "pad0 w s = replicate (w - length s) (CHR ''0'') @ s"

fun digits_val :: "nat \<Rightarrow> nat \<Rightarrow> nat \<Rightarrow> string \<Rightarrow> int_error + nat" where
  "digits_val radix mx acc [] = Inr acc"
| "digits_val radix mx acc (c # cs) =
     (case to_digit radix c of
        None \<Rightarrow> Inl InvalidDigit
      | Some d \<Rightarrow>
          (if acc * radix > mx \<or> acc * radix + d > mx then Inl PosOverflow
           else digits_val radix mx (acc * radix + d) cs))"

definition from_str_radix :: "nat \<Rightarrow> nat \<Rightarrow> string \<Rightarrow> int_error + nat" where
  "from_str_radix radix mx s =
     (case s of
        [] \<Rightarrow> Inl Empty
      | c # cs \<Rightarrow>
          (if cs = [] \<and> (c = CHR ''+'' \<or> c = CHR ''-'') then Inl InvalidDigit
           else if c = CHR ''+'' then digits_val radix mx 0 cs
           else digits_val radix mx 0 (c # cs)))"

abbreviation parse_dec :: "nat \<Rightarrow> string \<Rightarrow> int_error + nat" where
  "parse_dec mx s \<equiv> from_str_radix 10 mx s"

section \<open>Lemmas\<close>

lemma code_digit_char: "d < 16 \<Longrightarrow> byte_val (digit_char d) = (if d < 10 then 48 + d else 87 + d)"
  by (simp add: digit_char_def)

lemma to_digit_digit_char: "d < radix \<Longrightarrow> radix \<le> 16 \<Longrightarrow> to_digit radix (digit_char d) = Some d"
  by (simp add: to_digit_def code_digit_char in_rng_def)

lemma to_digit_less: "to_digit radix c = Some d \<Longrightarrow> d < radix"
  by (auto simp: to_digit_def Let_def split: if_splits)

lemma to_radix_ne [simp]: "to_radix b n \<noteq> []"
  by (subst to_radix.simps) simp

lemma to_radix_digit: "n < b \<Longrightarrow> to_radix b n = [digit_char n]"
  by (subst to_radix.simps) simp

lemma to_radix_step: "2 \<le> b \<Longrightarrow> b \<le> n \<Longrightarrow> to_radix b n = to_radix b (n div b) @ [digit_char (n mod b)]"
  by (subst to_radix.simps) simp

lemma to_radix_chars:
  "2 \<le> b \<Longrightarrow> c \<in> set (to_radix b n) \<Longrightarrow> \<exists>d < b. c = digit_char d"
proof (induction b n rule: to_radix.induct)
  case (1 b n)
  show ?case
  proof (cases "n < b")
    case True
    with 1(3) show ?thesis by (auto simp: to_radix_digit)
  next
    case False
    with 1(2) have "set (to_radix b n) = insert (digit_char (n mod b)) (set (to_radix b (n div b)))"
      by (simp add: to_radix_step)
    with 1 False show ?thesis by (auto intro: exI [of _ "n mod b"])
  qed
qed

lemma digit_char_no_ws: "d < 16 \<Longrightarrow> \<not> ws1 (digit_char d) \<and> byte_val (digit_char d) < 0x80"
proof -
  assume d: "d < 16"
  then have c: "byte_val (digit_char d) = (if d < 10 then 48 + d else 87 + d)" by (rule code_digit_char)
  have "ws1 x \<Longrightarrow> byte_val x \<le> 32" for x by (auto simp: ws1_def)
  from this [of "digit_char d"] c d show ?thesis by (cases "d < 10") auto
qed

lemma to_radix_no_ws: "2 \<le> b \<Longrightarrow> b \<le> 16 \<Longrightarrow> no_ws (to_radix b n)"
  unfolding no_ws_def using to_radix_chars digit_char_no_ws by fastforce

lemma to_radix_notin:
  assumes "2 \<le> b" "b \<le> 16" "to_digit b c = None"
  shows "c \<notin> set (to_radix b n)"
proof
  assume "c \<in> set (to_radix b n)"
  then obtain d where "d < b" "c = digit_char d" using to_radix_chars assms(1) by blast
  with to_digit_digit_char assms(2,3) show False by auto
qed

lemma digits_val_append:
  "digits_val radix mx acc (xs @ ys) =
     bind_r (digits_val radix mx acc xs) (\<lambda>a. digits_val radix mx a ys)"
  by (induction xs arbitrary: acc) (auto split: option.splits)

lemma digits_val_to_radix:
  assumes "2 \<le> b" "b \<le> 16" "n \<le> mx"
  shows "digits_val b mx 0 (to_radix b n) = Inr n"
  using assms
proof (induction b n rule: to_radix.induct)
  case (1 b n)
  show ?case
  proof (cases "n < b")
    case True
    with 1 show ?thesis by (simp add: to_radix_digit to_digit_digit_char)
  next
    case False
    have le: "n div b \<le> mx" using 1(4) div_le_dividend le_trans by blast
    have eq: "n div b * b + n mod b = n" by simp
    then have m: "n div b * b \<le> mx" using 1(4) by linarith
    from False 1 le have "digits_val b mx 0 (to_radix b (n div b)) = Inr (n div b)" by simp
    with False 1 show ?thesis
      by (simp add: to_radix_step digits_val_append to_digit_digit_char not_less m)
  qed
qed

lemma digits_val_zeros:
  "2 \<le> b \<Longrightarrow> digits_val b mx 0 (replicate k (CHR ''0'') @ s) = digits_val b mx 0 s"
  by (induction k) (simp_all add: to_digit_def in_rng_def)

lemma from_str_radix_digits:
  assumes "s \<noteq> []" "CHR ''+'' \<notin> set s" "CHR ''-'' \<notin> set s"
  shows "from_str_radix b mx s = digits_val b mx 0 s"
  using assms by (cases s) (auto simp: from_str_radix_def)

lemma sign_not_digit: "radix \<le> 16 \<Longrightarrow> to_digit radix (CHR ''+'') = None \<and> to_digit radix (CHR ''-'') = None"
  by (simp add: to_digit_def in_rng_def)

text \<open>Parsing a printed number gives the number back, for every type wide enough.\<close>

lemma from_str_radix_to_radix:
  assumes "2 \<le> b" "b \<le> 16" "n \<le> mx"
  shows "from_str_radix b mx (to_radix b n) = Inr n"
  using assms sign_not_digit to_radix_notin
  by (subst from_str_radix_digits) (auto simp: digits_val_to_radix)

lemma from_str_radix_pad0:
  assumes "2 \<le> b" "b \<le> 16" "n \<le> mx"
  shows "from_str_radix b mx (pad0 w (to_radix b n)) = Inr n"
proof -
  have "CHR ''+'' \<notin> set (pad0 w (to_radix b n))" "CHR ''-'' \<notin> set (pad0 w (to_radix b n))"
    using assms sign_not_digit to_radix_notin by (auto simp: pad0_def)
  then show ?thesis
    using assms by (subst from_str_radix_digits) (auto simp: pad0_def digits_val_zeros digits_val_to_radix)
qed

lemma digits_val_le: "digits_val b mx acc s = Inr n \<Longrightarrow> acc \<le> mx \<Longrightarrow> n \<le> mx"
  by (induction s arbitrary: acc) (auto split: option.splits if_splits)

lemma from_str_radix_le: "from_str_radix b mx s = Inr n \<Longrightarrow> n \<le> mx"
  by (auto simp: from_str_radix_def split: list.splits if_splits
      simp del: digits_val.simps dest: digits_val_le)

lemma length_to_radix_le:
  assumes "2 \<le> b" "n < b ^ k" "0 < k"
  shows "length (to_radix b n) \<le> k"
  using assms
proof (induction k arbitrary: n)
  case (Suc k)
  show ?case
  proof (cases "n < b")
    case True
    then show ?thesis by (simp add: to_radix_digit)
  next
    case False
    have "n div b < b ^ k" using Suc.prems by (simp add: less_mult_imp_div_less mult.commute)
    moreover have "0 < k" using False Suc.prems by (cases k) auto
    ultimately have "length (to_radix b (n div b)) \<le> k" using Suc by blast
    with False Suc.prems(1) show ?thesis by (simp add: to_radix_step)
  qed
qed simp

lemma length_to_radix_gt:
  assumes "2 \<le> b" "b ^ k \<le> n"
  shows "k < length (to_radix b n)"
  using assms
proof (induction k arbitrary: n)
  case (Suc k)
  have "b * b ^ k \<le> n" using Suc.prems by simp
  then have "b ^ k \<le> n div b" using Suc.prems(1) by (simp add: less_eq_div_iff_mult_less_eq mult.commute)
  then have "k < length (to_radix b (n div b))" using Suc by blast
  moreover have "b \<le> n"
  proof -
    have "b \<le> b * b ^ k" using Suc.prems(1) by simp
    with \<open>b * b ^ k \<le> n\<close> show ?thesis by linarith
  qed
  ultimately show ?case using Suc.prems(1) by (simp add: to_radix_step)
qed simp

lemma length_pad0: "length (pad0 w s) = max w (length s)"
  by (simp add: pad0_def)

lemma to_radix_inj: "2 \<le> b \<Longrightarrow> b \<le> 16 \<Longrightarrow> to_radix b m = to_radix b n \<longleftrightarrow> m = n"
  by (metis from_str_radix_to_radix le_cases sum.inject(2))

end
