(* ===== verification/Compat.thy ===== *)
theory Compat
  imports Rust_Num
begin

text \<open>
  Version compatibility of src/compat.rs: parsing and ordering of semantic versions and the
  verdict on the version a proxy reports. The order is the derived lexicographic one, given
  here as an instance of \<open>linorder\<close>.
\<close>

section \<open>Definitions\<close>

datatype SemVer = SemVer (major: u32) (minor: u32) (patch: u32)

instantiation SemVer :: linorder
begin

definition less_eq_SemVer :: "SemVer \<Rightarrow> SemVer \<Rightarrow> bool" where
  "a \<le> b \<longleftrightarrow> major a < major b \<or> major a = major b \<and>
     (minor a < minor b \<or> minor a = minor b \<and> patch a \<le> patch b)"

definition less_SemVer :: "SemVer \<Rightarrow> SemVer \<Rightarrow> bool" where
  "a < b \<longleftrightarrow> a \<le> b \<and> a \<noteq> (b :: SemVer)"

instance
proof
  fix a b c :: SemVer
  show "(a < b) = (a \<le> b \<and> \<not> b \<le> a)"
    by (cases a; cases b) (auto simp: less_SemVer_def less_eq_SemVer_def)
  show "a \<le> a" by (simp add: less_eq_SemVer_def)
  show "a \<le> b \<Longrightarrow> b \<le> c \<Longrightarrow> a \<le> c" by (auto simp: less_eq_SemVer_def)
  show "a \<le> b \<Longrightarrow> b \<le> a \<Longrightarrow> a = b"
    by (cases a; cases b) (auto simp: less_eq_SemVer_def)
  show "a \<le> b \<or> b \<le> a" by (auto simp: less_eq_SemVer_def)
qed

end

abbreviation MIN_PROXY_VERSION :: string where "MIN_PROXY_VERSION \<equiv> ''0.4.4''"
abbreviation PROXY_VERSION_SERVICE :: string where "PROXY_VERSION_SERVICE \<equiv> ''proxy:version''"

definition parse_u32 :: "string \<Rightarrow> u32 option" where
  "parse_u32 s = map_option word_of_nat (ok (parse_dec U32_MAX s))"

definition SemVer_parse :: "string \<Rightarrow> SemVer option" where
  "SemVer_parse s0 =
     (let s1 = trim s0;
          s2 = unwrap_or s1 (strip_prefix ''v'' s1);
          core1 = (case split_once (CHR ''-'') s2 of Some (a, _) \<Rightarrow> a | None \<Rightarrow> s2);
          core = (case split_once (CHR ''+'') core1 of Some (a, _) \<Rightarrow> a | None \<Rightarrow> core1)
      in case split_on (CHR ''.'') core of
           a # b # rest \<Rightarrow>
             (case (parse_u32 a, parse_u32 b,
                    parse_u32 (case rest of [] \<Rightarrow> ''0'' | c # _ \<Rightarrow> c)) of
                (Some ma, Some mi, Some pa) \<Rightarrow>
                  (if length rest > 1 then None else Some (SemVer ma mi pa))
              | _ \<Rightarrow> None)
         | _ \<Rightarrow> None)"

definition SemVer_display :: "SemVer \<Rightarrow> string" where
  "SemVer_display v = dec (unat (major v)) @ ''.'' @ dec (unat (minor v)) @ ''.'' @ dec (unat (patch v))"

datatype ProxyCompat = POk string | TooOld string | Unknown string

definition ProxyCompat_is_ok :: "ProxyCompat \<Rightarrow> bool" where
  "ProxyCompat_is_ok p = (case p of POk _ \<Rightarrow> True | _ \<Rightarrow> False)"

definition user_message :: "ProxyCompat \<Rightarrow> string \<Rightarrow> string \<Rightarrow> string" where
  "user_message p backend addr = (case p of
     POk version \<Rightarrow>
       ''backend '' @ [CHR 0x27] @ backend @ [CHR 0x27] @ '' ('' @ addr @ '') adb-proxy '' @ version @ '' OK''
   | TooOld version \<Rightarrow>
       ''backend '' @ [CHR 0x27] @ backend @ [CHR 0x27] @ '' ('' @ addr @ '') runs adb-proxy '' @ version
       @ '', but this hub requires adb-proxy >= '' @ MIN_PROXY_VERSION
       @ ''. Please upgrade adb-proxy on that host (and keep the same pair code).''
   | Unknown reason \<Rightarrow>
       ''backend '' @ [CHR 0x27] @ backend @ [CHR 0x27] @ '' ('' @ addr @ '') did not report a version (''
       @ reason @ ''). This hub requires adb-proxy >= '' @ MIN_PROXY_VERSION
       @ ''. Please upgrade adb-proxy on that host (older builds have no proxy:version).'')"

definition evaluate_proxy_version :: "string \<Rightarrow> ProxyCompat" where
  "evaluate_proxy_version reported =
     (case SemVer_parse reported of
        None \<Rightarrow> Unknown (''invalid version string '' @ [CHR 0x27] @ reported @ [CHR 0x27])
      | Some got \<Rightarrow>
          (case SemVer_parse MIN_PROXY_VERSION of
             None \<Rightarrow> POk (trim reported)
           | Some mn \<Rightarrow> if got \<ge> mn then POk (trim reported) else TooOld (trim reported)))"

section \<open>Lemmas\<close>

lemma parse_u32_dec: "parse_u32 (dec (unat w)) = Some w"
proof -
  have "unat w < 2 ^ 32" using unsigned_less [of w] by simp
  then have "unat w \<le> U32_MAX" by simp
  then show ?thesis by (simp add: parse_u32_def from_str_radix_to_radix)
qed

lemma digit_char_eval: "digit_char 0 = CHR ''0''" "digit_char 4 = CHR ''4''"
  by code_simp+

lemma dec_notin: "c \<in> {CHR ''.'', CHR ''-'', CHR ''+'', CHR ''v'', CHR '':'', CHR '' ''} \<Longrightarrow> c \<notin> set (dec n)"
  by (rule to_radix_notin) (auto simp: to_digit_def in_rng_def)

lemma dec_no_ws: "no_ws (dec n)"
  by (rule to_radix_no_ws) simp_all

lemma no_ws_append [simp]: "no_ws (a @ b) \<longleftrightarrow> no_ws a \<and> no_ws b"
  by (auto simp: no_ws_def)

lemma no_ws_dot: "no_ws (CHR ''.'' # s) \<longleftrightarrow> no_ws s"
  by (simp add: no_ws_def ws1_def)

lemma no_ws_Nil [simp]: "no_ws []"
  by (simp add: no_ws_def)

lemma strip_v_dec: "strip_prefix ''v'' (dec n @ s) = None"
proof (cases "dec n")
  case (Cons a as)
  then have "a \<noteq> CHR ''v''" using dec_notin [of "CHR ''v''" n] by auto
  then show ?thesis using Cons by simp
qed simp

lemma split_display:
  "split_on (CHR ''.'') (SemVer_display v) = [dec (unat (major v)), dec (unat (minor v)), dec (unat (patch v))]"
  by (simp add: SemVer_display_def split_on_append split_on_no_sep dec_notin)

lemma SemVer_parse_display: "SemVer_parse (SemVer_display v) = Some v"
proof -
  have ws: "no_ws (SemVer_display v)" by (simp add: SemVer_display_def dec_no_ws no_ws_dot)
  have v: "strip_prefix ''v'' (SemVer_display v) = None"
    by (simp add: SemVer_display_def strip_v_dec)
  have s: "split_once (CHR ''-'') (SemVer_display v) = None" "split_once (CHR ''+'') (SemVer_display v) = None"
    by (auto simp: split_once_None_iff SemVer_display_def dec_notin)
  show ?thesis
    using v s by (simp add: SemVer_parse_def Let_def trim_no_ws [OF ws] split_display parse_u32_dec)
qed

lemma SemVer_parse_min: "SemVer_parse MIN_PROXY_VERSION = Some (SemVer 0 4 4)"
proof -
  have "MIN_PROXY_VERSION = SemVer_display (SemVer 0 4 4)"
    by (simp add: SemVer_display_def to_radix_digit digit_char_eval)
  then show ?thesis by (simp only: SemVer_parse_display)
qed

section \<open>Properties\<close>

text \<open>A printed version parses back to itself.\<close>

theorem SemVer_roundtrip: "SemVer_parse (SemVer_display v) = Some v"
  by (rule SemVer_parse_display)

text \<open>The version gate. A reported string passes exactly when it parses and its
  version is at least 0.4.4 in numeric lexicographic order; the string itself decides
  nothing else.\<close>

theorem evaluate_ok_iff:
  "ProxyCompat_is_ok (evaluate_proxy_version reported) \<longleftrightarrow>
     (\<exists>ma mi pa. SemVer_parse reported = Some (SemVer ma mi pa) \<and>
        (0 < unat ma \<or> 4 < unat mi \<or> unat mi = 4 \<and> 4 \<le> unat pa))"
proof (cases "SemVer_parse reported")
  case None
  then show ?thesis by (simp add: evaluate_proxy_version_def ProxyCompat_is_ok_def)
next
  case (Some v)
  obtain ma mi pa where v: "v = SemVer ma mi pa" by (cases v)
  have "ProxyCompat_is_ok (evaluate_proxy_version reported) \<longleftrightarrow> SemVer 0 4 4 \<le> v"
    by (simp add: evaluate_proxy_version_def ProxyCompat_is_ok_def Some SemVer_parse_min)
  also have "\<dots> \<longleftrightarrow> 0 < unat ma \<or> 4 < unat mi \<or> unat mi = 4 \<and> 4 \<le> unat pa"
    by (auto simp: v less_eq_SemVer_def word_less_nat_alt word_le_nat_alt word_unat_eq_iff)
  finally show ?thesis by (simp add: Some v)
qed

end
