(* ===== verification/Rust_Io.thy ===== *)
theory Rust_Io
  imports Rust_Num
begin

text \<open>
  Connected byte streams. A \<^verbatim>\<open>TcpStream\<close>/\<^verbatim>\<open>UnixStream\<close> is a record of what its peer
  will still deliver, what happens to a read after that (an orderly close, or an error),
  what has been written to it, and how many more bytes it accepts before a write fails.
  Since all of these are arbitrary, a statement over every \<open>conn\<close> covers every peer and
  every point at which the connection can break.

  The locale \<open>framed\<close> is the interface between the framing layers (smart-socket packets,
  IPC frames) and the code that exchanges sequences of messages over them.
\<close>

record conn =
  rx :: bytes
  rx_end :: "io_error option"
  tx :: bytes
  tx_room :: "nat option"
  tx_err :: io_error

definition open_conn :: "bytes \<Rightarrow> conn" where
  "open_conn b = \<lparr>rx = b, rx_end = None, tx = [], tx_room = None,
                  tx_err = IoErr BrokenPipe ''Broken pipe''\<rparr>"

text \<open>\<^verbatim>\<open>read_exact\<close>: all \<open>n\<close> bytes or an error; the end of the stream is
  \<^verbatim>\<open>UnexpectedEof\<close>.\<close>

definition read_exact :: "nat \<Rightarrow> (conn, bytes) act" where
  "read_exact n c =
     (if n \<le> length (rx c) then (Inr (take n (rx c)), c\<lparr>rx := drop n (rx c)\<rparr>)
      else (Inl (unwrap_or (IoErr UnexpectedEof ''early eof'') (rx_end c)), c\<lparr>rx := []\<rparr>))"

definition write_all :: "bytes \<Rightarrow> (conn, unit) act" where
  "write_all b c =
     (case tx_room c of
        None \<Rightarrow> (Inr (), c\<lparr>tx := tx c @ b\<rparr>)
      | Some r \<Rightarrow>
          (if length b \<le> r then (Inr (), c\<lparr>tx := tx c @ b, tx_room := Some (r - length b)\<rparr>)
           else (Inl (tx_err c), c\<lparr>tx := tx c @ take r b, tx_room := Some 0\<rparr>)))"

text \<open>Sockets are unbuffered: \<^verbatim>\<open>flush\<close> does nothing.\<close>

definition flush :: "(conn, unit) act" where
  "flush c = (Inr (), c)"

text \<open>Reading a number of frames in sequence.\<close>

fun read_frames :: "(conn, 'm) act \<Rightarrow> nat \<Rightarrow> (conn, 'm list) act" where
  "read_frames get 0 = ret []"
| "read_frames get (Suc n) = bind_a get (\<lambda>m. bind_a (read_frames get n) (\<lambda>ms. ret (m # ms)))"

section \<open>Lemmas\<close>

lemma read_exact_enough:
  "n \<le> length (rx c) \<Longrightarrow> read_exact n c = (Inr (take n (rx c)), c\<lparr>rx := drop n (rx c)\<rparr>)"
  by (simp add: read_exact_def)

lemma read_exact_append [act_simps]:
  "rx c = b @ r \<Longrightarrow> length b = n \<Longrightarrow> read_exact n c = (Inr b, c\<lparr>rx := r\<rparr>)"
  by (simp add: read_exact_def)

lemma read_exact_Inr_iff:
  "read_exact n c = (Inr b, c') \<longleftrightarrow> (\<exists>r. rx c = b @ r \<and> length b = n \<and> c' = c\<lparr>rx := r\<rparr>)"
  by (auto simp: read_exact_def intro: exI [of _ "drop n (rx c)"])

lemma read_exact_eof:
  "length (rx c) < n \<Longrightarrow> rx_end c = None \<Longrightarrow>
     read_exact n c = (Inl (IoErr UnexpectedEof ''early eof''), c\<lparr>rx := []\<rparr>)"
  by (simp add: read_exact_def)

lemma write_all_unlimited [act_simps]:
  "tx_room c = None \<Longrightarrow> write_all b c = (Inr (), c\<lparr>tx := tx c @ b\<rparr>)"
  by (simp add: write_all_def)

lemma write_all_Inr: "write_all b c = (Inr u, c') \<Longrightarrow> tx c' = tx c @ b \<and> rx c' = rx c"
  by (auto simp: write_all_def split: option.splits if_splits)

text \<open>Whatever happens, a write only ever appends a prefix of its argument.\<close>

lemma write_all_prefix: "\<exists>k. tx (snd (write_all b c)) = tx c @ take k b"
  by (auto simp: write_all_def intro: exI [of _ "length b"] split: option.split)

lemma write_all_rx [simp]: "rx (snd (write_all b c)) = rx c"
  by (auto simp: write_all_def split: option.split)

lemma read_exact_tx [simp]: "tx (snd (read_exact n c)) = tx c"
  by (simp add: read_exact_def)

lemma flush_unfold [act_simps, simp]: "flush c = (Inr (), c)"
  by (simp add: flush_def)

lemma conn_rx_update_same [simp]: "c\<lparr>rx := rx c\<rparr> = c"
  by simp

lemma open_conn_sel [simp]:
  "rx (open_conn b) = b" "tx (open_conn b) = []" "tx_room (open_conn b) = None"
  "rx_end (open_conn b) = None"
  by (simp_all add: open_conn_def)

section \<open>Framing as an interface\<close>

locale framed =
  fixes enc :: "'m \<Rightarrow> bytes"
    and get :: "(conn, 'm) act"
    and fits :: "'m \<Rightarrow> bool"
  assumes get_enc: "fits m \<Longrightarrow> rx c = enc m @ r \<Longrightarrow> get c = (Inr m, c\<lparr>rx := r\<rparr>)"
begin

text \<open>A sequence of frames written back to back is read back in order.\<close>

lemma read_all:
  "list_all fits ms \<Longrightarrow> rx c = concat (map enc ms) @ r \<Longrightarrow>
     read_frames get (length ms) c = (Inr ms, c\<lparr>rx := r\<rparr>)"
proof (induction ms arbitrary: c)
  case Nil
  then show ?case by (cases c) simp
next
  case (Cons m ms)
  let ?c = "c\<lparr>rx := concat (map enc ms) @ r\<rparr>"
  have "get c = (Inr m, ?c)"
    using Cons.prems by (intro get_enc) auto
  moreover have "read_frames get (length ms) ?c = (Inr ms, ?c\<lparr>rx := r\<rparr>)"
    using Cons.prems by (intro Cons.IH) auto
  ultimately show ?case by (simp add: bind_a_def)
qed

text \<open>No frame is a prefix of another: the reader cannot mistake where one ends.\<close>

lemma frame_unique:
  assumes "fits m" "fits n" "enc m @ r = enc n @ r'"
  shows "m = n \<and> r = r'"
proof -
  have "get (open_conn (enc m @ r)) = (Inr m, (open_conn (enc m @ r))\<lparr>rx := r\<rparr>)"
    using assms(1) by (rule get_enc) simp
  moreover have "get (open_conn (enc m @ r)) = (Inr n, (open_conn (enc m @ r))\<lparr>rx := r'\<rparr>)"
    using assms(2,3) by (intro get_enc) simp_all
  ultimately have "m = n" and
    "(open_conn (enc m @ r))\<lparr>rx := r\<rparr> = (open_conn (enc m @ r))\<lparr>rx := r'\<rparr>" by simp_all
  then show ?thesis by (metis conn.select_convs(1) conn.update_convs(1) conn.surjective)
qed

end

end
