(* ===== verification/Protocol.thy ===== *)
theory Protocol
  imports Rust_Io
begin

text \<open>
  The ADB smart-socket framing of src/protocol.rs: a packet is four hexadecimal digits
  giving the payload length, then the payload; replies start with \<^verbatim>\<open>OKAY\<close> or
  \<^verbatim>\<open>FAIL\<close>. The lemmas show the round trip for every payload of at most 65535 bytes, the
  exact limit (one byte more and the header has five digits, so the stream is no longer
  readable), and how every reply is read back.
\<close>

section \<open>Definitions\<close>

definition parse_hex4 :: "bytes \<Rightarrow> string + nat" where
  "parse_hex4 buf =
     (case from_utf8 buf of
        None \<Rightarrow> Inl ''hex4 is not utf8''
      | Some s \<Rightarrow> map_err (\<lambda>_. ''invalid hex4 length: '' @ s) (from_str_radix 16 USIZE_MAX s))"

definition encode_hex4 :: "nat \<Rightarrow> string" where
  "encode_hex4 len = pad0 4 (hex len)"

definition read_packet :: "(conn, bytes) act" where
  "read_packet =
     bind_a (read_exact 4) (\<lambda>len_buf.
     bind_a (lift_r (map_err (IoErr InvalidData) (parse_hex4 len_buf))) (\<lambda>len.
     if len > 0 then read_exact len else ret []))"

definition write_packet :: "bytes \<Rightarrow> (conn, unit) act" where
  "write_packet payload =
     then_a (write_all (pad0 4 (hex (length payload))))
     (then_a (write_all payload) flush)"

definition write_service :: "string \<Rightarrow> (conn, unit) act" where
  "write_service service = write_packet service"

definition read_status :: "(conn, bytes) act" where
  "read_status = read_exact 4"

definition write_okay :: "(conn, unit) act" where
  "write_okay = then_a (write_all ''OKAY'') flush"

definition write_fail :: "string \<Rightarrow> (conn, unit) act" where
  "write_fail reason = then_a (write_all ''FAIL'') (write_packet reason)"

definition write_okay_payload :: "bytes \<Rightarrow> (conn, unit) act" where
  "write_okay_payload payload = then_a write_okay (write_packet payload)"

text \<open>\<^verbatim>\<open>{:?}\<close> of a string, exact on ASCII.\<close>

definition debug_char :: "char \<Rightarrow> string" where
  "debug_char c =
     (if c = TAB then [CHR 0x5C, CHR ''t''] else if c = LF then [CHR 0x5C, CHR ''n'']
      else if c = CR then [CHR 0x5C, CHR ''r''] else if c = CHR 0x00 then [CHR 0x5C, CHR ''0'']
      else if c = CHR 0x22 then [CHR 0x5C, CHR 0x22] else if c = CHR 0x5C then [CHR 0x5C, CHR 0x5C]
      else if byte_val c < 0x20 \<or> byte_val c = 0x7F
        then [CHR 0x5C] @ ''u{'' @ hex (byte_val c) @ ''}''
      else [c])"

definition debug_str :: "string \<Rightarrow> string" where
  "debug_str s = [CHR 0x22] @ concat (map debug_char s) @ [CHR 0x22]"

definition read_okay_payload :: "(conn, bytes) act" where
  "read_okay_payload =
     bind_a read_status (\<lambda>status.
     if status = ''OKAY'' then read_packet
     else if status = ''FAIL'' then
       bind_a read_packet (\<lambda>reason. throw (IoErr OtherKind (utf8_lossy reason)))
     else throw (IoErr InvalidData
            (''unexpected status: '' @ debug_str (unwrap_or ''?'' (from_utf8 status)))))"

text \<open>The bytes of a packet, of a service request and of the replies, as abstract values
  the lemmas speak about.\<close>

definition packet :: "bytes \<Rightarrow> bytes" where
  "packet p = encode_hex4 (length p) @ p"

definition fail_reply :: "string \<Rightarrow> bytes" where
  "fail_reply reason = ''FAIL'' @ packet reason"

definition okay_reply :: "bytes \<Rightarrow> bytes" where
  "okay_reply p = ''OKAY'' @ packet p"

definition fits16 :: "bytes \<Rightarrow> bool" where
  "fits16 p \<longleftrightarrow> length p \<le> 65535"

section \<open>The length header\<close>

lemma ascii_digits: "2 \<le> b \<Longrightarrow> b \<le> 16 \<Longrightarrow> ascii (pad0 w (to_radix b n))"
  using to_radix_no_ws [of b n] by (auto simp: ascii_def pad0_def no_ws_def)

lemma parse_encode_hex4: "n \<le> USIZE_MAX \<Longrightarrow> parse_hex4 (encode_hex4 n) = Inr n"
  using ascii_digits [of 16 4 n]
  by (simp add: parse_hex4_def encode_hex4_def from_utf8_def utf8_valid_ascii from_str_radix_pad0)

lemma length_encode_hex4: "length (encode_hex4 n) = 4 \<longleftrightarrow> n \<le> 65535"
proof
  assume "n \<le> 65535"
  then have "length (hex n) \<le> 4" by (intro length_to_radix_le) simp_all
  then show "length (encode_hex4 n) = 4" by (simp add: encode_hex4_def length_pad0)
next
  assume l: "length (encode_hex4 n) = 4"
  show "n \<le> 65535"
  proof (rule ccontr)
    assume "\<not> n \<le> 65535"
    then have "4 < length (hex n)" by (intro length_to_radix_gt) simp_all
    with l show False by (simp add: encode_hex4_def length_pad0)
  qed
qed

section \<open>Packets\<close>

lemma write_packet_unlimited [act_simps]:
  "tx_room c = None \<Longrightarrow> write_packet p c = (Inr (), c\<lparr>tx := tx c @ packet p\<rparr>)"
  by (simp add: write_packet_def packet_def encode_hex4_def then_a_Pair write_all_unlimited)

lemma write_okay_unlimited [act_simps]:
  "tx_room c = None \<Longrightarrow> write_okay c = (Inr (), c\<lparr>tx := tx c @ ''OKAY''\<rparr>)"
  by (simp add: write_okay_def then_a_Pair write_all_unlimited)

lemma write_fail_unlimited [act_simps]:
  "tx_room c = None \<Longrightarrow> write_fail r c = (Inr (), c\<lparr>tx := tx c @ fail_reply r\<rparr>)"
  by (simp add: write_fail_def fail_reply_def then_a_Pair write_all_unlimited write_packet_unlimited)

lemma write_okay_payload_unlimited [act_simps]:
  "tx_room c = None \<Longrightarrow> write_okay_payload p c = (Inr (), c\<lparr>tx := tx c @ okay_reply p\<rparr>)"
  by (simp add: write_okay_payload_def okay_reply_def then_a_Pair write_okay_unlimited
      write_packet_unlimited)

lemma read_packet_packet [act_simps]:
  assumes "fits16 p" and "rx c = packet p @ r"
  shows "read_packet c = (Inr p, c\<lparr>rx := r\<rparr>)"
proof -
  have l: "length (encode_hex4 (length p)) = 4" and pn: "parse_hex4 (encode_hex4 (length p)) = Inr (length p)"
    using assms(1) by (simp_all add: fits16_def length_encode_hex4 parse_encode_hex4)
  have "read_exact 4 c = (Inr (encode_hex4 (length p)), c\<lparr>rx := p @ r\<rparr>)"
    using assms(2) l by (intro read_exact_append) (simp_all add: packet_def)
  then show ?thesis
    by (cases c) (simp add: read_packet_def bind_a_def pn read_exact_def)
qed

interpretation pkt: framed packet read_packet fits16
  by unfold_locales (rule read_packet_packet)

text \<open>What any successfully read packet must have looked like on the wire.\<close>

lemma read_packet_Inr_iff:
  "read_packet c = (Inr p, c') \<longleftrightarrow>
     (\<exists>hdr r. rx c = hdr @ p @ r \<and> length hdr = 4 \<and> parse_hex4 hdr = Inr (length p) \<and> c' = c\<lparr>rx := r\<rparr>)"
  (is "?L \<longleftrightarrow> ?R")
proof
  assume ?L
  then obtain hdr s len where 1: "read_exact 4 c = (Inr hdr, s)" and 2: "parse_hex4 hdr = Inr len"
    and 3: "(if len > 0 then read_exact len else ret []) s = (Inr p, c')"
    by (auto simp: read_packet_def bind_a_cong_result)
  from 1 obtain r1 where r1: "rx c = hdr @ r1" "length hdr = 4" "s = c\<lparr>rx := r1\<rparr>"
    by (auto simp: read_exact_Inr_iff)
  show ?R
  proof (cases "len > 0")
    case True
    with 3 r1 2 show ?thesis by (auto simp: read_exact_Inr_iff)
  next
    case False
    with 3 r1 2 have "p = []" "c' = c\<lparr>rx := r1\<rparr>" by auto
    with False r1 2 show ?thesis by auto
  qed
next
  assume ?R
  then obtain hdr r where h: "rx c = hdr @ p @ r" "length hdr = 4" "parse_hex4 hdr = Inr (length p)"
    "c' = c\<lparr>rx := r\<rparr>" by blast
  then have "read_exact 4 c = (Inr hdr, c\<lparr>rx := p @ r\<rparr>)" by (intro read_exact_append) simp_all
  with h show ?L by (cases c) (simp add: read_packet_def bind_a_def read_exact_def)
qed

lemma read_packet_tx [simp]: "tx (snd (read_packet c)) = tx c"
  by (auto simp: read_packet_def bind_a_def read_exact_def split: prod.splits sum.splits if_splits)

lemma read_packet_tx_room [simp]: "tx_room (snd (read_packet c)) = tx_room c"
  by (auto simp: read_packet_def bind_a_def read_exact_def split: prod.splits sum.splits if_splits)

section \<open>Replies\<close>

lemma read_status_okay [act_simps]: "rx c = ''OKAY'' @ r \<Longrightarrow> read_status c = (Inr ''OKAY'', c\<lparr>rx := r\<rparr>)"
  by (simp add: read_status_def read_exact_append)

lemma read_status_fail [act_simps]: "rx c = ''FAIL'' @ r \<Longrightarrow> read_status c = (Inr ''FAIL'', c\<lparr>rx := r\<rparr>)"
  by (simp add: read_status_def read_exact_append)

lemma read_okay_payload_okay [act_simps]:
  assumes "fits16 p" "rx c = okay_reply p @ r"
  shows "read_okay_payload c = (Inr p, c\<lparr>rx := r\<rparr>)"
proof -
  have "read_status c = (Inr ''OKAY'', c\<lparr>rx := packet p @ r\<rparr>)"
    using assms(2) by (intro read_status_okay) (simp add: okay_reply_def)
  moreover have "read_packet (c\<lparr>rx := packet p @ r\<rparr>) = (Inr p, c\<lparr>rx := r\<rparr>)"
    using read_packet_packet [OF assms(1), of "c\<lparr>rx := packet p @ r\<rparr>" r] by simp
  ultimately show ?thesis by (simp add: read_okay_payload_def bind_a_def)
qed

lemma read_okay_payload_fail [act_simps]:
  assumes "fits16 m" "rx c = fail_reply m @ r"
  shows "read_okay_payload c = (Inl (IoErr OtherKind (utf8_lossy m)), c\<lparr>rx := r\<rparr>)"
proof -
  have "read_status c = (Inr ''FAIL'', c\<lparr>rx := packet m @ r\<rparr>)"
    using assms(2) by (intro read_status_fail) (simp add: fail_reply_def)
  moreover have "read_packet (c\<lparr>rx := packet m @ r\<rparr>) = (Inr m, c\<lparr>rx := r\<rparr>)"
    using read_packet_packet [OF assms(1), of "c\<lparr>rx := packet m @ r\<rparr>" r] by simp
  ultimately show ?thesis by (simp add: read_okay_payload_def bind_a_def)
qed

section \<open>Properties\<close>

text \<open>Several packets written one after the other.\<close>

fun write_packets :: "bytes list \<Rightarrow> (conn, unit) act" where
  "write_packets [] = ret ()"
| "write_packets (p # ps) = then_a (write_packet p) (write_packets ps)"

lemma write_packets_unlimited:
  "tx_room c = None \<Longrightarrow>
     write_packets ps c = (Inr (), c\<lparr>tx := tx c @ concat (map packet ps)\<rparr>)"
  by (induction ps arbitrary: c) (simp_all add: then_a_Pair write_packet_unlimited)

text \<open>Framing round trip. Any sequence of payloads of at most 65535 bytes, written as
  consecutive packets on a writable connection and delivered to a reader followed by
  arbitrary further bytes, is read back by \<open>read_packet\<close> payload by payload, in order,
  leaving exactly the further bytes.\<close>

theorem packet_stream_roundtrip:
  assumes "list_all fits16 ps" "tx_room w = None" "tx w = []"
    and "rx r = tx (snd (write_packets ps w)) @ rest"
  shows "read_frames read_packet (length ps) r = (Inr ps, r\<lparr>rx := rest\<rparr>)"
proof -
  have "rx r = concat (map packet ps) @ rest"
    using assms(2-4) by (simp add: write_packets_unlimited)
  with assms(1) show ?thesis by (rule pkt.read_all)
qed

theorem packet_stream_roundtrip_witness:
  "fst (read_frames read_packet 2
     (open_conn (tx (snd (write_packets [''host:devices'', []] (open_conn []))) @ ''x'')))
   = Inr [''host:devices'', []]"
proof -
  have "list_all fits16 [''host:devices'', []]" by (simp add: fits16_def)
  from packet_stream_roundtrip [OF this, of "open_conn []"
      "open_conn (tx (snd (write_packets [''host:devices'', []] (open_conn []))) @ ''x'')" "''x''"]
  show ?thesis by (simp add: numeral_2_eq_2 del: read_frames.simps)
qed

text \<open>The length header has no room for larger payloads: a payload of 65536 to
  1048575 bytes is written with a five-digit header, of which the reader takes four
  digits as a sixteenth of the length and then the fifth digit as the first byte of the
  payload. What it returns is never the payload that was written.\<close>

theorem oversize_packet_misread:
  assumes "65535 < length p" "length p < 1048576" and "rx c = packet p @ r"
  shows "fst (read_packet c) = Inr (digit_char (length p mod 16) # take (length p div 16 - 1) p)
    \<and> fst (read_packet c) \<noteq> Inr p"
proof -
  let ?n = "length p"
  have q: "4095 < ?n div 16" "?n div 16 \<le> 65535" using assms(1,2) by auto
  have len: "length (hex (?n div 16)) = 4"
  proof (rule antisym)
    show "length (hex (?n div 16)) \<le> 4" using q(2) by (intro length_to_radix_le) simp_all
    have "3 < length (hex (?n div 16))" using q(1) by (intro length_to_radix_gt) simp_all
    then show "4 \<le> length (hex (?n div 16))" by simp
  qed
  have "hex ?n = hex (?n div 16) @ [digit_char (?n mod 16)]"
    using assms(1) by (intro to_radix_step) simp_all
  with len have enc: "encode_hex4 ?n = hex (?n div 16) @ [digit_char (?n mod 16)]"
    by (simp add: encode_hex4_def pad0_def)
  have hd: "parse_hex4 (hex (?n div 16)) = Inr (?n div 16)"
    using parse_encode_hex4 [of "?n div 16"] len q(2) by (simp add: encode_hex4_def pad0_def)
  let ?q = "digit_char (?n mod 16) # take (?n div 16 - 1) p"
  have lq: "length ?q = ?n div 16" using q(1) by simp
  have "rx c = hex (?n div 16) @ ?q @ drop (?n div 16 - 1) p @ r"
    using assms(3) by (simp add: packet_def enc)
  with len hd lq have "read_packet c = (Inr ?q, c\<lparr>rx := drop (?n div 16 - 1) p @ r\<rparr>)"
    unfolding read_packet_Inr_iff by metis
  moreover have "?q \<noteq> p"
  proof
    assume "?q = p"
    with lq have "?n = ?n div 16" by metis
    with assms(1) show False by simp
  qed
  ultimately show ?thesis by simp
qed

theorem oversize_packet_misread_witness:
  "fst (read_packet (open_conn (packet (replicate 65536 (CHR ''x'')) @ [])))
     \<noteq> Inr (replicate 65536 (CHR ''x''))"
proof -
  let ?p = "replicate 65536 (CHR ''x'')"
  have "65535 < length ?p" "length ?p < 1048576" by (simp_all only: length_replicate)
  from oversize_packet_misread [OF this open_conn_sel(1)]
  show ?thesis by (rule conjunct2)
qed

end
