(* ===== verification/Auth.thy ===== *)
theory Auth
  imports Protocol
begin

text \<open>
  Pair-code authentication of src/auth.rs: the code format, the \<^verbatim>\<open>auth:\<close> request, the
  hub's side (\<open>authenticate_stream\<close>) and the proxy's side (\<open>accept_auth\<close>). The random
  generator of \<open>generate_pair_code\<close> is an argument. The lemmas characterise exactly which
  first packets are accepted and what the two sides do when they talk to each other.
\<close>

section \<open>Definitions\<close>

abbreviation PAIR_CODE_LEN :: nat where "PAIR_CODE_LEN \<equiv> 8"
abbreviation AUTH_PREFIX :: string where "AUTH_PREFIX \<equiv> ''auth:''"

definition PAIR_ALPHABET :: string where
  "PAIR_ALPHABET = ''ABCDEFGHIJKLMNOPQRSTUVWXYZ0123456789''"

text \<open>\<open>rng i\<close> is the \<open>i\<close>-th draw of \<^verbatim>\<open>gen_range(0..PAIR_ALPHABET.len())\<close>.\<close>

definition generate_pair_code :: "(nat \<Rightarrow> nat) \<Rightarrow> string" where
  "generate_pair_code rng = map (\<lambda>i. PAIR_ALPHABET ! rng i) [0..<PAIR_CODE_LEN]"

definition is_ascii_uppercase :: "char \<Rightarrow> bool" where
  "is_ascii_uppercase c \<longleftrightarrow> in_rng 65 90 (byte_val c)"

definition is_ascii_digit :: "char \<Rightarrow> bool" where
  "is_ascii_digit c \<longleftrightarrow> in_rng 48 57 (byte_val c)"

definition validate_pair_code :: "string \<Rightarrow> string + unit" where
  "validate_pair_code code =
     (if length code \<noteq> PAIR_CODE_LEN then
        Inl (''pair code must be '' @ dec PAIR_CODE_LEN @ '' characters, got '' @ dec (length code))
      else if \<not> list_all (\<lambda>b. is_ascii_uppercase b \<or> is_ascii_digit b) code then
        Inl ''pair code must be alphanumeric A-Z0-9''
      else Inr ())"

definition auth_service :: "string \<Rightarrow> string" where
  "auth_service code = AUTH_PREFIX @ code"

definition parse_auth_service :: "string \<Rightarrow> string + string" where
  "parse_auth_service service =
     (case strip_prefix AUTH_PREFIX service of
        None \<Rightarrow> Inl ''expected auth:<pair-code> as first packet''
      | Some code \<Rightarrow> bind_r (validate_pair_code code) (\<lambda>_. Inr code))"

definition codes_match :: "string \<Rightarrow> string \<Rightarrow> bool" where
  "codes_match expected provided \<longleftrightarrow> expected = provided"

definition authenticate_stream :: "string \<Rightarrow> (conn, unit) act" where
  "authenticate_stream code =
     then_a (write_service (auth_service code))
     (bind_a read_status (\<lambda>status.
        if status = ''OKAY'' then ret ()
        else if status = ''FAIL'' then
          bind_a read_packet (\<lambda>reason. throw (IoErr PermissionDenied (utf8_lossy reason)))
        else throw (IoErr InvalidData
               (''unexpected auth status: '' @ debug_str (unwrap_or ''?'' (from_utf8 status))))))"

definition accept_auth :: "string \<Rightarrow> (conn, bool) act" where
  "accept_auth expected =
     try_a read_packet (\<lambda>r. case r of
       Inl err \<Rightarrow>
         (if err_kind err = UnexpectedEof
          then then_a (write_fail ''missing auth'') (ret False) else throw err)
     | Inr payload \<Rightarrow>
         (case from_utf8 payload of
            None \<Rightarrow> then_a (write_fail ''invalid auth utf8'') (ret False)
          | Some service \<Rightarrow>
              (case parse_auth_service service of
                 Inr code \<Rightarrow>
                   (if codes_match expected code then then_a write_okay (ret True)
                    else then_a (write_fail ''unauthorized'') (ret False))
               | Inl reason \<Rightarrow> then_a (write_fail reason) (ret False))))"

section \<open>The code format\<close>

text \<open>A well-formed pair code: eight characters, each an upper-case letter or a digit.\<close>

definition pair_code_ok :: "string \<Rightarrow> bool" where
  "pair_code_ok s \<longleftrightarrow> length s = 8 \<and> set s \<subseteq> set PAIR_ALPHABET"

lemma in_alphabet_iff: "c \<in> set PAIR_ALPHABET \<longleftrightarrow> is_ascii_uppercase c \<or> is_ascii_digit c"
proof
  assume "c \<in> set PAIR_ALPHABET"
  then show "is_ascii_uppercase c \<or> is_ascii_digit c"
    by (auto simp: PAIR_ALPHABET_def is_ascii_uppercase_def is_ascii_digit_def in_rng_def)
next
  assume "is_ascii_uppercase c \<or> is_ascii_digit c"
  then have "byte_val c \<in> set ([48..<58] @ [65..<91])"
    unfolding is_ascii_uppercase_def is_ascii_digit_def in_rng_def set_append set_upt by auto
  moreover have "list_all (\<lambda>k. char_of k \<in> set PAIR_ALPHABET) ([48..<58] @ [65..<91])"
    by code_simp
  ultimately have "char_of (byte_val c) \<in> set PAIR_ALPHABET" unfolding list_all_iff by blast
  then show "c \<in> set PAIR_ALPHABET" by simp
qed

lemma validate_pair_code_ok_iff: "validate_pair_code s = Inr () \<longleftrightarrow> pair_code_ok s"
  by (auto simp: validate_pair_code_def pair_code_ok_def list_all_iff in_alphabet_iff subset_iff)

lemma pair_code_ascii: "pair_code_ok s \<Longrightarrow> ascii s"
proof -
  assume "pair_code_ok s"
  then have "\<forall>c \<in> set s. is_ascii_uppercase c \<or> is_ascii_digit c"
    by (auto simp: pair_code_ok_def in_alphabet_iff)
  then show ?thesis
    by (auto simp: ascii_def is_ascii_uppercase_def is_ascii_digit_def in_rng_def)
qed

lemma parse_auth_service_Inr_iff:
  "parse_auth_service s = Inr c \<longleftrightarrow> s = AUTH_PREFIX @ c \<and> pair_code_ok c"
  by (auto simp: parse_auth_service_def bind_r_Inr_iff validate_pair_code_ok_iff
      split: option.splits)

lemma auth_frame:
  assumes "pair_code_ok c"
  shows "fits16 (auth_service c)" "from_utf8 (auth_service c) = Some (auth_service c)"
proof -
  show "fits16 (auth_service c)" using assms by (simp add: fits16_def auth_service_def pair_code_ok_def)
  have "ascii (auth_service c)" using pair_code_ascii [OF assms] by (auto simp: ascii_def auth_service_def)
  then show "from_utf8 (auth_service c) = Some (auth_service c)"
    by (simp add: from_utf8_def utf8_valid_ascii)
qed

section \<open>The two sides\<close>

lemma accept_auth_on_packet:
  assumes "tx_room c = None" "fits16 p" "rx c = packet p @ r"
  shows "accept_auth expected c =
     (case from_utf8 p of
        None \<Rightarrow> (Inr False, c\<lparr>rx := r, tx := tx c @ fail_reply ''invalid auth utf8''\<rparr>)
      | Some s \<Rightarrow>
          (case parse_auth_service s of
             Inl reason \<Rightarrow> (Inr False, c\<lparr>rx := r, tx := tx c @ fail_reply reason\<rparr>)
           | Inr d \<Rightarrow>
               if d = expected then (Inr True, c\<lparr>rx := r, tx := tx c @ ''OKAY''\<rparr>)
               else (Inr False, c\<lparr>rx := r, tx := tx c @ fail_reply ''unauthorized''\<rparr>)))"
  using assms
  by (auto simp: accept_auth_def try_a_def read_packet_packet then_a_Pair
      write_fail_unlimited write_okay_unlimited codes_match_def split: option.splits sum.splits)

text \<open>Acceptance implies that the first packet was the request for exactly the expected
  code, whatever the rest of the stream and however the connection behaves.\<close>

lemma accept_auth_True:
  assumes "accept_auth expected c = (Inr True, c')"
  shows "\<exists>hdr r. rx c = hdr @ auth_service expected @ r \<and> length hdr = 4 \<and>
           parse_hex4 hdr = Inr 13 \<and> rx c' = r \<and> pair_code_ok expected \<and> tx c' = tx c @ ''OKAY''"
proof -
  obtain p c1 where p: "read_packet c = (Inr p, c1)" and v: "utf8_valid p"
    and s: "parse_auth_service p = Inr expected" and w: "write_okay c1 = (Inr (), c')"
    using assms
    by (auto simp: accept_auth_def try_a_def codes_match_def from_utf8_def then_a_def
        bind_a_cong_result split: prod.splits sum.splits if_splits option.splits)
  from s have pe: "p = auth_service expected" "pair_code_ok expected"
    by (simp_all add: parse_auth_service_Inr_iff auth_service_def)
  then have l: "length p = 13" by (simp add: auth_service_def pair_code_ok_def)
  from p obtain hdr r where h: "rx c = hdr @ p @ r" "length hdr = 4" "parse_hex4 hdr = Inr 13"
    "c1 = c\<lparr>rx := r\<rparr>" by (auto simp: read_packet_Inr_iff l)
  from w have "tx c' = tx c1 @ ''OKAY'' \<and> rx c' = rx c1"
    by (auto simp: write_okay_def then_a_result dest!: write_all_Inr)
  with h pe show ?thesis by auto
qed

lemma authenticate_stream_okay:
  "tx_room h = None \<Longrightarrow> rx h = ''OKAY'' @ r \<Longrightarrow>
     authenticate_stream k h = (Inr (), h\<lparr>rx := r, tx := tx h @ packet (auth_service k)\<rparr>)"
  by (simp add: authenticate_stream_def write_service_def then_a_Pair write_packet_unlimited
      bind_a_def read_status_okay)

lemma authenticate_stream_fail:
  assumes "tx_room h = None" "fits16 m" "rx h = fail_reply m @ r"
  shows "authenticate_stream k h =
     (Inl (IoErr PermissionDenied (utf8_lossy m)), h\<lparr>rx := r, tx := tx h @ packet (auth_service k)\<rparr>)"
proof -
  let ?h = "h\<lparr>tx := tx h @ packet (auth_service k)\<rparr>"
  have "read_status ?h = (Inr ''FAIL'', ?h\<lparr>rx := packet m @ r\<rparr>)"
    using assms(3) by (intro read_status_fail) (simp add: fail_reply_def)
  moreover have "read_packet (?h\<lparr>rx := packet m @ r\<rparr>) = (Inr m, ?h\<lparr>rx := r\<rparr>)"
    using read_packet_packet [OF assms(2), of "?h\<lparr>rx := packet m @ r\<rparr>" r] by simp
  ultimately show ?thesis
    using assms(1)
    by (simp add: authenticate_stream_def write_service_def then_a_Pair write_packet_unlimited bind_a_def)
qed

section \<open>Properties\<close>

text \<open>The proxy's gate. On a connection that stays writable and closes in order,
  \<open>accept_auth\<close> answers \<open>True\<close> exactly when the client's first packet is the
  authentication request for the configured code and that code is well formed; in that
  case and only then is \<^verbatim>\<open>OKAY\<close> the whole reply. (The header may spell the length 13 in
  any way the parser reads, such as upper-case digits.)\<close>

theorem accept_auth_iff:
  assumes "tx_room c = None"
  shows "fst (accept_auth expected c) = Inr True \<longleftrightarrow>
     pair_code_ok expected \<and>
     (\<exists>hdr r. rx c = hdr @ auth_service expected @ r \<and> length hdr = 4 \<and> parse_hex4 hdr = Inr 13)"
  (is "?L \<longleftrightarrow> ?R")
proof
  assume ?L
  then obtain c' where "accept_auth expected c = (Inr True, c')" by (metis prod.collapse)
  from accept_auth_True [OF this] show ?R by blast
next
  assume R: ?R
  then obtain hdr r where h: "rx c = hdr @ auth_service expected @ r" "length hdr = 4"
    "parse_hex4 hdr = Inr 13" and k: "pair_code_ok expected" by blast
  have "length (auth_service expected) = 13" using k by (simp add: auth_service_def pair_code_ok_def)
  with h have "read_packet c = (Inr (auth_service expected), c\<lparr>rx := r\<rparr>)"
    by (auto simp: read_packet_Inr_iff)
  moreover have "parse_auth_service (auth_service expected) = Inr expected"
    using k by (simp add: parse_auth_service_Inr_iff auth_service_def)
  ultimately show ?L
    using auth_frame(2) [OF k] assms
    by (simp add: accept_auth_def try_a_def then_a_Pair write_okay_unlimited codes_match_def)
qed

theorem accept_auth_iff_witness:
  "fst (accept_auth ''ABCD1234'' (open_conn (packet ''auth:ABCD1234''))) = Inr True"
proof -
  let ?c = "open_conn (packet ''auth:ABCD1234'')"
  have "rx ?c = encode_hex4 13 @ auth_service ''ABCD1234'' @ []"
    by (simp add: auth_service_def packet_def numeral_eq_Suc)
  moreover have "length (encode_hex4 13) = 4" "parse_hex4 (encode_hex4 13) = Inr 13"
    by (simp_all add: length_encode_hex4 parse_encode_hex4)
  moreover have "pair_code_ok ''ABCD1234''" by (simp add: pair_code_ok_def PAIR_ALPHABET_def)
  ultimately have "pair_code_ok ''ABCD1234'' \<and>
      (\<exists>hdr r. rx ?c = hdr @ auth_service ''ABCD1234'' @ r \<and> length hdr = 4 \<and> parse_hex4 hdr = Inr 13)"
    by blast
  then show ?thesis by (rule accept_auth_iff [OF open_conn_sel(3), THEN iffD2])
qed

text \<open>The handshake. When the hub authenticates with a well-formed code \<open>k\<close> and the
  proxy reads exactly the bytes the hub wrote, the hub reading the proxy's reply succeeds
  if the codes are equal and otherwise fails with \<^verbatim>\<open>PermissionDenied("unauthorized")\<close>; the
  proxy's verdict is the same on both sides.\<close>

theorem auth_handshake:
  assumes "pair_code_ok k" "tx_room h = None" "tx h = []" "tx_room p = None" "tx p = []"
    and frame: "rx p = tx (snd (write_service (auth_service k) h)) @ extra"
    and reply: "rx h = tx (snd (accept_auth expected p)) @ rest"
  shows "fst (accept_auth expected p) = Inr (k = expected) \<and>
     fst (authenticate_stream k h) =
       (if k = expected then Inr () else Inl (IoErr PermissionDenied ''unauthorized''))"
proof -
  have rxp: "rx p = packet (auth_service k) @ extra"
    using frame assms(2,3) by (simp add: write_service_def write_packet_unlimited)
  have pa: "parse_auth_service (auth_service k) = Inr k"
    using assms(1) by (simp add: parse_auth_service_Inr_iff auth_service_def)
  note acc = accept_auth_on_packet [OF assms(4) auth_frame(1) [OF assms(1)] rxp, of expected]
  have v: "fst (accept_auth expected p) = Inr (k = expected)"
    using auth_frame(2) [OF assms(1)] pa by (simp add: acc)
  have "rx h = (if k = expected then ''OKAY'' else fail_reply ''unauthorized'') @ rest"
    using reply auth_frame(2) [OF assms(1)] pa assms(5) by (simp add: acc)
  moreover have "utf8_lossy ''unauthorized'' = ''unauthorized''"
    by (rule utf8_lossy_valid, rule utf8_valid_ascii) (simp add: ascii_def)
  ultimately have "fst (authenticate_stream k h) =
       (if k = expected then Inr () else Inl (IoErr PermissionDenied ''unauthorized''))"
    using authenticate_stream_okay [OF assms(2)] authenticate_stream_fail [OF assms(2), of "''unauthorized''"]
    by (simp add: fits16_def)
  with v show ?thesis ..
qed

theorem auth_handshake_witness:
  "fst (authenticate_stream ''ABCD1234''
      (open_conn (tx (snd (accept_auth ''ABCD1234'' (open_conn (packet ''auth:ABCD1234''))))))) = Inr ()"
proof -
  let ?p = "open_conn (packet ''auth:ABCD1234'')"
  let ?h = "open_conn (tx (snd (accept_auth ''ABCD1234'' ?p)))"
  have k: "pair_code_ok ''ABCD1234''" by (simp add: pair_code_ok_def PAIR_ALPHABET_def)
  have "rx ?p = tx (snd (write_service (auth_service ''ABCD1234'') ?h)) @ []"
    by (simp add: write_service_def write_packet_unlimited auth_service_def)
  from auth_handshake [OF k _ _ _ _ this, of "''ABCD1234''" "[]"] show ?thesis by simp
qed

text \<open>Every generated pair code passes validation, for any random draws inside the
  requested range.\<close>

theorem generate_pair_code_valid:
  assumes "\<And>i. i < 8 \<Longrightarrow> rng i < length PAIR_ALPHABET"
  shows "validate_pair_code (generate_pair_code rng) = Inr ()"
  using assms
  by (auto simp: validate_pair_code_ok_iff pair_code_ok_def generate_pair_code_def intro: nth_mem)

theorem generate_pair_code_valid_witness:
  "validate_pair_code (generate_pair_code (\<lambda>i. 5 * i)) = Inr ()"
  by (rule generate_pair_code_valid) (simp add: PAIR_ALPHABET_def)

end
