(* ===== verification/Net_Addr.thy ===== *)
theory Net_Addr
  imports Rust_Num
begin

text \<open>
  Socket addresses: \<^verbatim>\<open>std::net::SocketAddr\<close> with its printing (\<^verbatim>\<open>Display\<close>), its parser
  (the recursive-descent \<^verbatim>\<open>Parser\<close> of the standard library: IPv4 dotted decimal without
  leading zeros, IPv6 with one \<^verbatim>\<open>::\<close> and an optional embedded IPv4 tail, an optional
  scope, a decimal port) and the loopback test of src/peercred.rs.
\<close>

unbundle bit_operations_syntax

section \<open>Definitions\<close>

datatype SocketAddr =
    V4 (v4_octets: "u8 \<times> u8 \<times> u8 \<times> u8") (v4_port: u16)
  | V6 (v6_segments: "u16 list") (v6_scope: u32) (v6_port: u16)

fun addr_port :: "SocketAddr \<Rightarrow> u16" where
  "addr_port (V4 ip p) = p"
| "addr_port (V6 ip s p) = p"

subsection \<open>Printing\<close>

fun ipv4_string :: "u8 \<times> u8 \<times> u8 \<times> u8 \<Rightarrow> string" where
  "ipv4_string (a, b, c, d) =
     dec (unat a) @ ''.'' @ dec (unat b) @ ''.'' @ dec (unat c) @ ''.'' @ dec (unat d)"

text \<open>\<^verbatim>\<open>to_ipv4_mapped\<close>: \<^verbatim>\<open>::ffff:a.b.c.d\<close>.\<close>

fun to_ipv4_mapped :: "u16 list \<Rightarrow> (u8 \<times> u8 \<times> u8 \<times> u8) option" where
  "to_ipv4_mapped [a, b, c, d, e, f, g, h] =
     (if a = 0 \<and> b = 0 \<and> c = 0 \<and> d = 0 \<and> e = 0 \<and> f = 0xFFFF
      then Some (ucast (drop_bit 8 g), ucast g, ucast (drop_bit 8 h), ucast h) else None)"
| "to_ipv4_mapped _ = None"

text \<open>The first longest run of zero segments, as (start, length).\<close>

fun zero_run :: "nat \<Rightarrow> nat \<times> nat \<Rightarrow> nat \<times> nat \<Rightarrow> u16 list \<Rightarrow> nat \<times> nat" where
  "zero_run i cur best [] = best"
| "zero_run i (cs, cl) (bs, bl) (x # xs) =
     (if x = 0
      then (let cur = (if cl = 0 then (i, 1) else (cs, cl + 1))
            in zero_run (i + 1) cur (if snd cur > bl then cur else (bs, bl)) xs)
      else zero_run (i + 1) (0, 0) (bs, bl) xs)"

definition segments_string :: "u16 list \<Rightarrow> string" where
  "segments_string segs = join '':'' (map (\<lambda>s. hex (unat s)) segs)"

definition ipv6_string :: "u16 list \<Rightarrow> string" where
  "ipv6_string segs =
     (case to_ipv4_mapped segs of
        Some v4 \<Rightarrow> ''::ffff:'' @ ipv4_string v4
      | None \<Rightarrow>
          (let (st, ln) = zero_run 0 (0, 0) (0, 0) segs in
           if ln > 1 then segments_string (take st segs) @ ''::'' @ segments_string (drop (st + ln) segs)
           else segments_string segs))"

fun addr_string :: "SocketAddr \<Rightarrow> string" where
  "addr_string (V4 ip p) = ipv4_string ip @ '':'' @ dec (unat p)"
| "addr_string (V6 segs sc p) =
     ''['' @ ipv6_string segs @ (if sc = 0 then [] else ''%'' @ dec (unat sc)) @ '']:'' @ dec (unat p)"

subsection \<open>Parsing\<close>

type_synonym 'a parser = "string \<Rightarrow> ('a \<times> string) option"

definition read_given_char :: "char \<Rightarrow> unit parser" where
  "read_given_char c s = (case s of [] \<Rightarrow> None | x # xs \<Rightarrow> if x = c then Some ((), xs) else None)"

text \<open>The digits at the front of the input.\<close>

fun take_digits :: "nat \<Rightarrow> string \<Rightarrow> nat list \<times> string" where
  "take_digits radix [] = ([], [])"
| "take_digits radix (c # cs) =
     (case to_digit radix c of
        None \<Rightarrow> ([], c # cs)
      | Some d \<Rightarrow> (case take_digits radix cs of (ds, r) \<Rightarrow> (d # ds, r)))"

definition digits_value :: "nat \<Rightarrow> nat list \<Rightarrow> nat" where
  "digits_value radix ds = foldl (\<lambda>acc d. acc * radix + d) 0 ds"

text \<open>\<^verbatim>\<open>read_number\<close>: at most \<open>max_digits\<close> digits when given, no superfluous leading
  zero unless allowed, and a value that fits the type (\<open>mx\<close>).\<close>

definition read_number :: "nat \<Rightarrow> nat option \<Rightarrow> bool \<Rightarrow> nat \<Rightarrow> nat parser" where
  "read_number radix max_digits allow_zero_prefix mx s =
     (case take_digits radix s of (ds, r) \<Rightarrow>
        (if ds = [] then None
         else if (case max_digits of None \<Rightarrow> False | Some m \<Rightarrow> length ds > m) then None
         else if \<not> allow_zero_prefix \<and> hd ds = 0 \<and> length ds > 1 then None
         else if digits_value radix ds > mx then None
         else Some (digits_value radix ds, r)))"

text \<open>\<^verbatim>\<open>read_separator(sep, i, inner)\<close>: the separator first, unless \<open>i\<close> is 0.\<close>

definition read_separator :: "char \<Rightarrow> nat \<Rightarrow> 'a parser \<Rightarrow> 'a parser" where
  "read_separator sep i inner s =
     (if i = 0 then inner s
      else case read_given_char sep s of None \<Rightarrow> None | Some (_, r) \<Rightarrow> inner r)"

definition read_octet :: "nat \<Rightarrow> nat parser" where
  "read_octet i = read_separator (CHR ''.'') i (read_number 10 (Some 3) False U8_MAX)"

definition read_ipv4_addr :: "(u8 \<times> u8 \<times> u8 \<times> u8) parser" where
  "read_ipv4_addr s =
     (case read_octet 0 s of None \<Rightarrow> None | Some (a, s1) \<Rightarrow>
     (case read_octet 1 s1 of None \<Rightarrow> None | Some (b, s2) \<Rightarrow>
     (case read_octet 2 s2 of None \<Rightarrow> None | Some (c, s3) \<Rightarrow>
     (case read_octet 3 s3 of None \<Rightarrow> None | Some (d, s4) \<Rightarrow>
        Some ((word_of_nat a, word_of_nat b, word_of_nat c, word_of_nat d), s4)))))"

text \<open>\<^verbatim>\<open>read_groups\<close> with \<open>limit\<close> slots, \<open>i\<close> of them filled: the groups, whether an
  embedded IPv4 address ended them, and the rest.\<close>

fun read_groups :: "nat \<Rightarrow> nat \<Rightarrow> nat \<Rightarrow> string \<Rightarrow> u16 list \<times> bool \<times> string" where
  "read_groups 0 limit i s = ([], False, s)"
| "read_groups (Suc left) limit i s =
     (case (if left > 0 then read_separator (CHR '':'') i read_ipv4_addr s else None) of
        Some ((a, b, c, d), r) \<Rightarrow>
          ([push_bit 8 (ucast a) OR ucast b, push_bit 8 (ucast c) OR ucast d], True, r)
      | None \<Rightarrow>
          (case read_separator (CHR '':'') i (read_number 16 (Some 4) True U16_MAX) s of
             None \<Rightarrow> ([], False, s)
           | Some (g, r) \<Rightarrow>
               (case read_groups left limit (Suc i) r of
                  (gs, v4, r') \<Rightarrow> (word_of_nat g # gs, v4, r'))))"

definition read_ipv6_addr :: "u16 list parser" where
  "read_ipv6_addr s =
     (case read_groups 8 8 0 s of (head, head_ipv4, r) \<Rightarrow>
        (if length head = 8 then Some (head, r)
         else if head_ipv4 then None
         else
           (case read_given_char (CHR '':'') r of None \<Rightarrow> None | Some (_, r1) \<Rightarrow>
           (case read_given_char (CHR '':'') r1 of None \<Rightarrow> None | Some (_, r2) \<Rightarrow>
              (let limit = 8 - (length head + 1) in
               case read_groups limit limit 0 r2 of (tail, _, r3) \<Rightarrow>
                 Some (head @ replicate (8 - length head - length tail) 0 @ tail, r3))))))"

definition read_port :: "nat parser" where
  "read_port s =
     (case read_given_char (CHR '':'') s of None \<Rightarrow> None
      | Some (_, r) \<Rightarrow> read_number 10 None True U16_MAX r)"

definition read_scope_id :: "nat parser" where
  "read_scope_id s =
     (case read_given_char (CHR ''%'') s of None \<Rightarrow> None
      | Some (_, r) \<Rightarrow> read_number 10 None True U32_MAX r)"

definition read_socket_addr_v4 :: "SocketAddr parser" where
  "read_socket_addr_v4 s =
     (case read_ipv4_addr s of None \<Rightarrow> None | Some (ip, r) \<Rightarrow>
     (case read_port r of None \<Rightarrow> None | Some (p, r') \<Rightarrow> Some (V4 ip (word_of_nat p), r')))"

definition read_socket_addr_v6 :: "SocketAddr parser" where
  "read_socket_addr_v6 s =
     (case read_given_char (CHR ''['') s of None \<Rightarrow> None | Some (_, r) \<Rightarrow>
     (case read_ipv6_addr r of None \<Rightarrow> None | Some (ip, r1) \<Rightarrow>
     (case (case read_scope_id r1 of None \<Rightarrow> (0, r1) | Some x \<Rightarrow> x) of (sc, r2) \<Rightarrow>
     (case read_given_char (CHR '']'') r2 of None \<Rightarrow> None | Some (_, r3) \<Rightarrow>
     (case read_port r3 of None \<Rightarrow> None | Some (p, r4) \<Rightarrow>
        Some (V6 ip (word_of_nat sc) (word_of_nat p), r4))))))"

abbreviation addr_parse_error :: string where
  "addr_parse_error \<equiv> ''invalid socket address syntax''"

text \<open>\<^verbatim>\<open>str::parse::<SocketAddr>()\<close>: the whole input must be consumed.\<close>

definition parse_addr :: "string \<Rightarrow> string + SocketAddr" where
  "parse_addr s =
     (case (case read_socket_addr_v4 s of Some x \<Rightarrow> Some x | None \<Rightarrow> read_socket_addr_v6 s) of
        Some (a, []) \<Rightarrow> Inr a
      | _ \<Rightarrow> Inl addr_parse_error)"

subsection \<open>Loopback\<close>

fun v4_is_loopback :: "u8 \<times> u8 \<times> u8 \<times> u8 \<Rightarrow> bool" where
  "v4_is_loopback (a, b, c, d) \<longleftrightarrow> a = 127"

definition v6_is_loopback :: "u16 list \<Rightarrow> bool" where
  "v6_is_loopback segs \<longleftrightarrow> segs = [0, 0, 0, 0, 0, 0, 0, 1]"

fun is_loopback :: "SocketAddr \<Rightarrow> bool" where
  "is_loopback (V4 ip p) = v4_is_loopback ip"
| "is_loopback (V6 segs sc p) =
     (v6_is_loopback segs \<or> map_option v4_is_loopback (to_ipv4_mapped segs) = Some True)"

abbreviation localhost :: "u16 \<Rightarrow> SocketAddr" where
  "localhost p \<equiv> V4 (127, 0, 0, 1) p"

section \<open>Lemmas\<close>

text \<open>A printed number in front of a character that is no digit reads back.\<close>

definition stops :: "nat \<Rightarrow> string \<Rightarrow> bool" where
  "stops radix r \<longleftrightarrow> (case r of [] \<Rightarrow> True | c # _ \<Rightarrow> to_digit radix c = None)"

lemma take_digits_stops: "stops radix r \<Longrightarrow> take_digits radix r = ([], r)"
  by (cases r) (auto simp: stops_def)

lemma take_digits_append:
  "\<forall>d \<in> set ds. d < radix \<Longrightarrow> radix \<le> 16 \<Longrightarrow> stops radix r \<Longrightarrow>
     take_digits radix (map digit_char ds @ r) = (ds, r)"
  by (induction ds) (simp_all add: take_digits_stops to_digit_digit_char)

fun radix_digits :: "nat \<Rightarrow> nat \<Rightarrow> nat list" where
  "radix_digits b n = (if n < b \<or> b < 2 then [n] else radix_digits b (n div b) @ [n mod b])"

declare radix_digits.simps [simp del]

lemma to_radix_digits: "to_radix b n = map digit_char (radix_digits b n)"
  by (induction b n rule: to_radix.induct)
    (subst to_radix.simps, subst radix_digits.simps, simp)

lemma radix_digits_less: "2 \<le> b \<Longrightarrow> d \<in> set (radix_digits b n) \<Longrightarrow> d < b"
  by (induction b n rule: radix_digits.induct)
    (subst (asm) (2) radix_digits.simps, auto split: if_splits)

lemma digits_value_radix_digits: "2 \<le> b \<Longrightarrow> digits_value b (radix_digits b n) = n"
proof (induction b n rule: radix_digits.induct)
  case (1 b n)
  then show ?case
    by (subst radix_digits.simps) (auto simp: digits_value_def)
qed

lemma radix_digits_hd: "2 \<le> b \<Longrightarrow> hd (radix_digits b n) = 0 \<Longrightarrow> radix_digits b n = [0]"
proof (induction b n rule: radix_digits.induct)
  case (1 b n)
  show ?case
  proof (cases "n < b")
    case True
    then have "radix_digits b n = [n]" by (subst radix_digits.simps) simp
    with 1(3) show ?thesis by simp
  next
    case False
    have ne: "radix_digits b (n div b) \<noteq> []" by (subst radix_digits.simps) simp
    have s: "radix_digits b n = radix_digits b (n div b) @ [n mod b]"
      using False 1(2) by (subst radix_digits.simps) simp
    with ne 1(3) have "hd (radix_digits b (n div b)) = 0" by simp
    with 1 False have "radix_digits b (n div b) = [0]" by simp
    then have "n div b = 0" using digits_value_radix_digits [OF 1(2), of "n div b"] by (simp add: digits_value_def)
    with False 1(2) have False by (simp add: div_eq_0_iff)
    then show ?thesis ..
  qed
qed

lemma length_radix_digits: "length (radix_digits b n) = length (to_radix b n)"
  by (simp add: to_radix_digits)

lemma read_number_to_radix:
  assumes "2 \<le> b" "b \<le> 16" "n \<le> mx" "stops b r"
    and "case md of None \<Rightarrow> True | Some m \<Rightarrow> length (to_radix b n) \<le> m"
  shows "read_number b md az mx (to_radix b n @ r) = Some (n, r)"
proof -
  have "take_digits b (to_radix b n @ r) = (radix_digits b n, r)"
    unfolding to_radix_digits using assms radix_digits_less by (intro take_digits_append) auto
  moreover have "radix_digits b n \<noteq> []" by (subst radix_digits.simps) simp
  moreover have "hd (radix_digits b n) = 0 \<Longrightarrow> length (radix_digits b n) = 1"
    using radix_digits_hd [OF assms(1), of n] by simp
  ultimately show ?thesis
    using assms digits_value_radix_digits [OF assms(1), of n]
    by (auto simp: read_number_def length_radix_digits split: option.splits)
qed

lemma stops_sep: "stops 10 (CHR ''.'' # r)" "stops 10 (CHR '':'' # r)" "stops 10 []"
  by (simp_all add: stops_def to_digit_def in_rng_def)

lemma unat_u8_le: "unat (w :: u8) \<le> U8_MAX"
proof -
  have "unat w < 2 ^ LENGTH(8)" by (rule unsigned_less)
  then show ?thesis by simp
qed

lemma unat_u16_le: "unat (w :: u16) \<le> U16_MAX"
proof -
  have "unat w < 2 ^ LENGTH(16)" by (rule unsigned_less)
  then show ?thesis by simp
qed

lemma read_octet_dec:
  fixes w :: u8
  assumes "stops 10 r"
  shows "read_octet i ((if i = 0 then [] else ''.'') @ dec (unat w) @ r) = Some (unat w, r)"
proof -
  have "length (dec (unat w)) \<le> 3"
    using unat_u8_le [of w] by (intro length_to_radix_le) simp_all
  then have "read_number 10 (Some 3) False U8_MAX (dec (unat w) @ r) = Some (unat w, r)"
    using unat_u8_le [of w] assms by (intro read_number_to_radix) simp_all
  then show ?thesis by (simp add: read_octet_def read_separator_def read_given_char_def)
qed

lemma read_ipv4_string:
  assumes "stops 10 r"
  shows "read_ipv4_addr (ipv4_string ip @ r) = Some (ip, r)"
proof -
  obtain a b c d where ip: "ip = (a, b, c, d)" by (cases ip)
  have 3: "read_octet 3 (''.'' @ dec (unat d) @ r) = Some (unat d, r)"
    using read_octet_dec [OF assms, of 3 d] by simp
  have 2: "read_octet 2 (''.'' @ dec (unat c) @ ''.'' @ dec (unat d) @ r)
      = Some (unat c, ''.'' @ dec (unat d) @ r)"
    using read_octet_dec [of "''.'' @ dec (unat d) @ r" 2 c] by (simp add: stops_sep)
  have 1: "read_octet 1 (''.'' @ dec (unat b) @ ''.'' @ dec (unat c) @ ''.'' @ dec (unat d) @ r)
      = Some (unat b, ''.'' @ dec (unat c) @ ''.'' @ dec (unat d) @ r)"
    using read_octet_dec [of "''.'' @ dec (unat c) @ ''.'' @ dec (unat d) @ r" "Suc 0" b]
    by (simp add: stops_sep)
  have 0: "read_octet 0 (dec (unat a) @ ''.'' @ dec (unat b) @ ''.'' @ dec (unat c) @ ''.'' @ dec (unat d) @ r)
      = Some (unat a, ''.'' @ dec (unat b) @ ''.'' @ dec (unat c) @ ''.'' @ dec (unat d) @ r)"
    using read_octet_dec [of "''.'' @ dec (unat b) @ ''.'' @ dec (unat c) @ ''.'' @ dec (unat d) @ r" 0 a]
    by (simp add: stops_sep)
  show ?thesis using 0 1 2 3 by (simp add: ip read_ipv4_addr_def)
qed

lemma parse_addr_V4: "parse_addr (addr_string (V4 ip p)) = Inr (V4 ip p)"
proof -
  have "read_ipv4_addr (ipv4_string ip @ '':'' @ dec (unat p)) = Some (ip, '':'' @ dec (unat p))"
    by (rule read_ipv4_string) (simp add: stops_sep)
  moreover have "read_number 10 None True U16_MAX (dec (unat p) @ []) = Some (unat p, [])"
    using unat_u16_le [of p] by (intro read_number_to_radix) (simp_all add: stops_sep)
  ultimately show ?thesis
    by (simp add: parse_addr_def read_socket_addr_v4_def read_port_def read_given_char_def)
qed

section \<open>Properties\<close>

text \<open>Printing then parsing an IPv4 socket address gives the address back, for every
  address and port.\<close>

theorem addr_roundtrip_v4: "parse_addr (addr_string (V4 ip p)) = Inr (V4 ip p)"
  by (rule parse_addr_V4)

end
