(* ===== verification/Net.thy ===== *)
theory Net
  imports Auth Net_Addr
begin

text \<open>
  A client session and the network around it. \<open>cl\<close> is the connection to the adb client,
  \<open>dialer\<close> says what the \<open>n\<close>-th outgoing connection attempt to an address yields (an error or
  a connection), and \<open>spliced\<close> records every upstream connection as it was when the session
  handed it to \<^verbatim>\<open>copy_bidirectional\<close>. That function of the tokio library is the argument
  \<open>pipe\<close>: it takes both connections and returns them with its result.
\<close>

record sess =
  cl :: conn
  dialer :: "nat \<Rightarrow> SocketAddr \<Rightarrow> io_error + conn"
  dials :: nat
  spliced :: "conn list"

type_synonym pipe = "conn \<Rightarrow> conn \<Rightarrow> (io_error + unit) \<times> conn \<times> conn"

definition on_client :: "(conn, 'a) act \<Rightarrow> ('x sess_scheme, 'a) act" where
  "on_client m s = (case m (cl s) of (r, c) \<Rightarrow> (r, s\<lparr>cl := c\<rparr>))"

text \<open>Work on an upstream connection held in a local variable; an error drops it.\<close>

definition on_up :: "(conn, 'a) act \<Rightarrow> conn \<Rightarrow> ('a \<Rightarrow> conn \<Rightarrow> ('s, 'b) act) \<Rightarrow> ('s, 'b) act" where
  "on_up m up k s = (case m up of (Inl e, up') \<Rightarrow> (Inl e, s) | (Inr x, up') \<Rightarrow> k x up' s)"

definition dial :: "SocketAddr \<Rightarrow> ('x sess_scheme, conn) act" where
  "dial a s = (dialer s (dials s) a, s\<lparr>dials := Suc (dials s)\<rparr>)"

definition splice :: "pipe \<Rightarrow> conn \<Rightarrow> ('x sess_scheme, unit) act" where
  "splice pipe up s =
     (case pipe (cl s) up of (r, c, up') \<Rightarrow> (r, s\<lparr>cl := c, spliced := spliced s @ [up]\<rparr>))"

text \<open>\<^verbatim>\<open>match copy_bidirectional(..)\<close> with benign errors taken as a normal end.\<close>

definition splice_quiet :: "pipe \<Rightarrow> conn \<Rightarrow> ('x sess_scheme, unit) act" where
  "splice_quiet pipe up =
     try_a (splice pipe up) (\<lambda>r. case r of
       Inr _ \<Rightarrow> ret ()
     | Inl err \<Rightarrow> (if is_benign err then ret () else throw err))"

text \<open>An upstream connection that accepts everything and has sent \<open>b\<close>.\<close>

definition open_sess :: "bytes \<Rightarrow> (SocketAddr \<Rightarrow> bytes option) \<Rightarrow> sess" where
  "open_sess b peers =
     \<lparr>cl = open_conn b,
      dialer = (\<lambda>_ a. case peers a of None \<Rightarrow> Inl (IoErr ConnectionRefused ''Connection refused (os error 111)'')
                        | Some r \<Rightarrow> Inr (open_conn r)),
      dials = 0, spliced = []\<rparr>"

section \<open>Lemmas\<close>

lemma on_client_Pair [act_simps]: "m (cl s) = (r, c) \<Longrightarrow> on_client m s = (r, s\<lparr>cl := c\<rparr>)"
  by (simp add: on_client_def)

lemma on_up_Pair [act_simps]:
  "m up = (Inr x, up') \<Longrightarrow> on_up m up k s = k x up' s"
  "m up = (Inl e, up') \<Longrightarrow> on_up m up k s = (Inl e, s)"
  by (simp_all add: on_up_def)

text \<open>What a session leaves alone.\<close>

lemma on_client_other [simp]:
  "spliced (snd (on_client m s)) = spliced s" "dials (snd (on_client m s)) = dials s"
  by (simp_all add: on_client_def split: prod.split)

lemma dial_other [simp]: "spliced (snd (dial a s)) = spliced s" "cl (snd (dial a s)) = cl s"
  by (simp_all add: dial_def)

lemma splice_quiet_spliced: "spliced (snd (splice_quiet pipe up s)) = spliced s @ [up]"
  by (auto simp: splice_quiet_def splice_def try_a_def split: prod.splits sum.splits)

text \<open>\<open>splices I P m\<close>: started in a state with \<open>I\<close>, the computation \<open>m\<close> keeps \<open>I\<close> and only hands
  over upstream connections that satisfy \<open>P\<close>.\<close>

definition splices :: "('x sess_scheme \<Rightarrow> bool) \<Rightarrow> (conn \<Rightarrow> bool) \<Rightarrow> ('x sess_scheme, 'a) act \<Rightarrow> bool" where
  "splices I P m \<longleftrightarrow> (\<forall>s. I s \<longrightarrow> I (snd (m s)) \<and>
     (\<exists>ups. spliced (snd (m s)) = spliced s @ ups \<and> (\<forall>u \<in> set ups. P u)))"

lemma splicesI:
  "(\<And>s. I s \<Longrightarrow> I (snd (m s)) \<and> (\<exists>ups. spliced (snd (m s)) = spliced s @ ups \<and> (\<forall>u \<in> set ups. P u)))
     \<Longrightarrow> splices I P m"
  by (simp add: splices_def)

lemma splicesD:
  "splices I P m \<Longrightarrow> I s \<Longrightarrow> \<exists>ups. spliced (snd (m s)) = spliced s @ ups \<and> (\<forall>u \<in> set ups. P u)"
  by (simp add: splices_def)

text \<open>Branching.\<close>

lemma sp_if: "(b \<Longrightarrow> splices I P m) \<Longrightarrow> (\<not> b \<Longrightarrow> splices I P n) \<Longrightarrow> splices I P (if b then m else n)"
  by simp

lemma sp_sum:
  "(\<And>e. r = Inl e \<Longrightarrow> splices I P (f e)) \<Longrightarrow> (\<And>x. r = Inr x \<Longrightarrow> splices I P (g x))
     \<Longrightarrow> splices I P (case r of Inl e \<Rightarrow> f e | Inr x \<Rightarrow> g x)"
  by (cases r) simp_all

lemma sp_option:
  "(r = None \<Longrightarrow> splices I P f) \<Longrightarrow> (\<And>x. r = Some x \<Longrightarrow> splices I P (g x))
     \<Longrightarrow> splices I P (case r of None \<Rightarrow> f | Some x \<Rightarrow> g x)"
  by (cases r) simp_all

lemma sp_prod: "(\<And>a b. r = (a, b) \<Longrightarrow> splices I P (f a b)) \<Longrightarrow> splices I P (case r of (a, b) \<Rightarrow> f a b)"
  by (cases r) simp_all

lemmas sp_branch = sp_if sp_sum sp_option sp_prod

text \<open>The rules for a condition on the state that the session's own bookkeeping cannot break.
  They follow the structure of the code.\<close>

locale session_condition =
  fixes I :: "'x sess_scheme \<Rightarrow> bool"
    and D :: "nat \<Rightarrow> SocketAddr \<Rightarrow> io_error + conn"
  assumes I_cl: "I s \<Longrightarrow> I (s\<lparr>cl := c\<rparr>)"
    and I_dials: "I s \<Longrightarrow> I (s\<lparr>dials := n\<rparr>)"
    and I_spliced: "I s \<Longrightarrow> I (s\<lparr>spliced := us\<rparr>)"
    and I_dialer: "I s \<Longrightarrow> dialer s = D"
begin

lemma sp_ret: "splices I P (ret x)"
  by (simp add: splices_def)

lemma sp_throw: "splices I P (throw e)"
  by (simp add: splices_def)

lemma sp_on_client: "splices I P (on_client m)"
  by (auto simp: splices_def on_client_def I_cl split: prod.split)

lemma sp_try:
  assumes "splices I P m" "\<And>r. splices I P (f r)"
  shows "splices I P (try_a m f)"
proof (rule splicesI)
  fix s assume I: "I s"
  obtain ups where u: "I (snd (m s))" "spliced (snd (m s)) = spliced s @ ups" "\<forall>u \<in> set ups. P u"
    using assms(1) I by (auto simp: splices_def)
  obtain vs where v: "I (snd (f (fst (m s)) (snd (m s))))"
    "spliced (snd (f (fst (m s)) (snd (m s)))) = spliced (snd (m s)) @ vs" "\<forall>v \<in> set vs. P v"
    using assms(2) [of "fst (m s)"] u(1) by (auto simp: splices_def)
  show "I (snd (try_a m f s)) \<and> (\<exists>ups. spliced (snd (try_a m f s)) = spliced s @ ups \<and> (\<forall>u \<in> set ups. P u))"
    using u v by (auto simp: try_a_def split: prod.splits)
qed

lemma sp_bind:
  assumes "splices I P m" "\<And>x. splices I P (f x)"
  shows "splices I P (bind_a m f)"
proof -
  have "bind_a m f = try_a m (\<lambda>r. case r of Inl e \<Rightarrow> throw e | Inr x \<Rightarrow> f x)"
    by (auto simp: bind_a_def try_a_def fun_eq_iff split: prod.splits sum.splits)
  then show ?thesis using assms by (auto intro!: sp_try sp_throw split: sum.split)
qed

lemma sp_then: "splices I P m \<Longrightarrow> splices I P n \<Longrightarrow> splices I P (then_a m n)"
  unfolding then_a_def by (rule sp_bind)

lemma sp_on_up:
  "(\<And>x up'. m up = (Inr x, up') \<Longrightarrow> splices I P (k x up')) \<Longrightarrow> splices I P (on_up m up k)"
  by (auto simp: splices_def on_up_def split: prod.splits sum.splits)

lemma sp_splice: "P up \<Longrightarrow> splices I P (splice pipe up)"
  by (auto simp: splices_def splice_def I_cl I_spliced split: prod.splits)

lemma sp_splice_quiet: "P up \<Longrightarrow> splices I P (splice_quiet pipe up)"
  unfolding splice_quiet_def by (auto intro!: sp_try sp_splice sp_ret sp_throw split: sum.split)

text \<open>A result of a connection attempt is one the network gives.\<close>

lemma sp_try_dial:
  assumes "\<And>e. splices I P (f (Inl e))" "\<And>n u. D n a = Inr u \<Longrightarrow> splices I P (f (Inr u))"
  shows "splices I P (try_a (dial a) f)"
proof (rule splicesI)
  fix s assume I: "I s"
  let ?s = "s\<lparr>dials := Suc (dials s)\<rparr>"
  have t: "try_a (dial a) f s = f (D (dials s) a) ?s"
    using I_dialer [OF I] by (simp add: try_a_def dial_def)
  have "splices I P (f (D (dials s) a))" using assms by (cases "D (dials s) a") auto
  with I_dials [OF I] show "I (snd (try_a (dial a) f s)) \<and>
      (\<exists>ups. spliced (snd (try_a (dial a) f s)) = spliced s @ ups \<and> (\<forall>u \<in> set ups. P u))"
    unfolding t splices_def by (metis sess.surjective sess.update_convs(3) sess.select_convs(4))
qed

lemma sp_bind_dial:
  assumes "\<And>n u. D n a = Inr u \<Longrightarrow> splices I P (f u)"
  shows "splices I P (bind_a (dial a) f)"
proof -
  have "bind_a (dial a) f = try_a (dial a) (\<lambda>r. case r of Inl e \<Rightarrow> throw e | Inr x \<Rightarrow> f x)"
    by (auto simp: bind_a_def try_a_def fun_eq_iff split: prod.splits sum.splits)
  moreover have "splices I P (try_a (dial a) (\<lambda>r. case r of Inl e \<Rightarrow> throw e | Inr x \<Rightarrow> f x))"
    by (rule sp_try_dial) (auto intro: sp_throw assms)
  ultimately show ?thesis by simp
qed

lemmas sp_rules = sp_ret sp_throw sp_on_client sp_then sp_on_up sp_splice sp_splice_quiet

end

text \<open>The weakest such condition fixes the network only.\<close>

interpretation network: session_condition "\<lambda>s. dialer s = D" D for D
  by unfold_locales simp_all

end
