(* ===== verification/Tunnel.thy ===== *)
theory Tunnel
  imports Net
begin

text \<open>
  The local scrcpy listeners of src/tunnel.rs: the table of listeners by port, the operations of
  the manager, the accept loop with its owner check, the handshake of one tunnelled connection,
  and \<^verbatim>\<open>transport\<close>, which relays a device selection and intercepts tunnel requests.

  Binding a TCP port is the operating system's: \<open>tm_bind n p\<close> is the result of the \<open>n\<close>-th bind,
  for port \<open>p\<close>, with the port actually bound.
\<close>

section \<open>Definitions\<close>

text \<open>The captured \<^verbatim>\<open>OpenStream\<close> closure: which upstream a tunnelled connection opens.\<close>

datatype OpenStream =
    OpenBackend SocketAddr "string option" string
  | OpenPrivate u32 string string

record Listener =
  l_owner :: "u32 option"
  l_serial :: string
  l_socket :: string
  l_open :: OpenStream

record TunnelManager =
  tm_listeners :: "u16 \<rightharpoonup> Listener"
  tm_bind :: "nat \<Rightarrow> u16 \<Rightarrow> io_error + u16"
  tm_binds :: nat

definition remove_owner :: "u32 \<Rightarrow> TunnelManager \<Rightarrow> TunnelManager" where
  "remove_owner owner tm =
     tm\<lparr>tm_listeners := (\<lambda>p. case tm_listeners tm p of None \<Rightarrow> None
        | Some l \<Rightarrow> (if l_owner l \<noteq> Some owner then Some l else None))\<rparr>"

text \<open>Binding and registering, after the previous listener was dealt with.\<close>

definition bind_listener ::
  "u16 \<Rightarrow> string \<Rightarrow> string \<Rightarrow> u32 option \<Rightarrow> OpenStream \<Rightarrow> TunnelManager \<Rightarrow> (io_error + u16) \<times> TunnelManager" where
  "bind_listener port serial socket owner open tm =
     (let tm' = tm\<lparr>tm_binds := Suc (tm_binds tm)\<rparr> in
      case tm_bind tm (tm_binds tm) port of
        Inl e \<Rightarrow> (Inl e, tm')
      | Inr actual_port \<Rightarrow>
          (Inr actual_port, tm'\<lparr>tm_listeners := (tm_listeners tm')(actual_port \<mapsto>
             \<lparr>l_owner = owner, l_serial = serial, l_socket = socket, l_open = open\<rparr>)\<rparr>))"

definition TunnelManager_add ::
  "u16 \<Rightarrow> string \<Rightarrow> string \<Rightarrow> u32 option \<Rightarrow> OpenStream \<Rightarrow> TunnelManager \<Rightarrow> (io_error + u16) \<times> TunnelManager" where
  "TunnelManager_add port serial socket owner open tm =
     (case tm_listeners tm port of
        Some previous \<Rightarrow>
          (if l_owner previous \<noteq> owner \<or> l_serial previous \<noteq> serial then
             (Inl (IoErr AddrInUse ''port already used by another device''), tm)
           else bind_listener port serial socket owner open
                  (tm\<lparr>tm_listeners := (tm_listeners tm)(port := None)\<rparr>))
      | None \<Rightarrow> bind_listener port serial socket owner open tm)"

definition TunnelManager_remove :: "u16 \<Rightarrow> string \<Rightarrow> u32 option \<Rightarrow> TunnelManager \<Rightarrow> bool \<times> TunnelManager" where
  "TunnelManager_remove port serial owner tm =
     (case tm_listeners tm port of
        Some v \<Rightarrow>
          (if l_owner v = owner \<and> l_serial v = serial
           then (True, tm\<lparr>tm_listeners := (tm_listeners tm)(port := None)\<rparr>) else (False, tm))
      | None \<Rightarrow> (False, tm))"

text \<open>The accept loop of a listener. Each event is what one iteration finds: the stop signal, a
  connection, nothing pending, or a failed accept. Once stopped, the loop drains what is queued and
  ends when nothing is pending. \<open>uid_of\<close> is \<^verbatim>\<open>tcp_peer_uid(local, peer).ok()\<close>.\<close>

datatype 'p accept_event = Stop | Connection 'p | Pending | AcceptError

definition peer_allowed :: "('p \<Rightarrow> u32 option) \<Rightarrow> u32 option \<Rightarrow> 'p \<Rightarrow> bool" where
  "peer_allowed uid_of owner peer = (case owner of None \<Rightarrow> True | Some uid \<Rightarrow> uid_of peer = Some uid)"

fun accept_loop :: "('p \<Rightarrow> u32 option) \<Rightarrow> u32 option \<Rightarrow> bool \<Rightarrow> 'p accept_event list \<Rightarrow> 'p list" where
  "accept_loop uid_of owner draining [] = []"
| "accept_loop uid_of owner draining (Stop # es) = accept_loop uid_of owner True es"
| "accept_loop uid_of owner draining (Connection p # es) =
     (if peer_allowed uid_of owner p then p # accept_loop uid_of owner draining es
      else accept_loop uid_of owner draining es)"
| "accept_loop uid_of owner draining (Pending # es) =
     (if draining then [] else accept_loop uid_of owner draining es)"
| "accept_loop uid_of owner draining (AcceptError # es) = []"

text \<open>The handshake on the upstream side of one tunnelled connection.\<close>

definition tunnel_handshake :: "string \<Rightarrow> (conn, unit) act" where
  "tunnel_handshake socket =
     bind_a read_status (\<lambda>st.
     if st \<noteq> ''OKAY'' then throw (IoErr OtherKind ''device transport failed'')
     else then_a (write_service socket)
    (bind_a read_status (\<lambda>st.
     if st \<noteq> ''OKAY'' then throw (IoErr OtherKind ''device socket failed'') else ret ())))"

record tsess = sess +
  tunnels :: TunnelManager

definition with_tunnels :: "(TunnelManager \<Rightarrow> 'a \<times> TunnelManager) \<Rightarrow> ('x tsess_scheme, 'a) act" where
  "with_tunnels f s = (case f (tunnels s) of (r, tm) \<Rightarrow> (Inr r, s\<lparr>tunnels := tm\<rparr>))"

text \<open>The two requests that are intercepted.\<close>

definition forward_request :: "string \<Rightarrow> (u16 \<times> string) option" where
  "forward_request request_str =
     (case strip_prefix ''host:forward:tcp:'' request_str of
        None \<Rightarrow> None
      | Some rest \<Rightarrow>
          (case split_once (CHR '';'') rest of
             None \<Rightarrow> None
           | Some (port, socket) \<Rightarrow>
               (if starts_with ''localabstract:scrcpy_'' socket then
                  (case parse_dec U16_MAX port of Inr p \<Rightarrow> Some (word_of_nat p, socket) | Inl _ \<Rightarrow> None)
                else None)))"

definition killforward_request :: "string \<Rightarrow> u16 option" where
  "killforward_request request_str =
     (case strip_prefix ''host:killforward:tcp:'' request_str of
        None \<Rightarrow> None
      | Some s \<Rightarrow> map_option word_of_nat (ok (parse_dec U16_MAX s)))"

text \<open>The client's request after the device was selected on \<open>up\<close>.\<close>

definition transport_request ::
  "pipe \<Rightarrow> string \<Rightarrow> u32 option \<Rightarrow> OpenStream \<Rightarrow> conn \<Rightarrow> bytes \<Rightarrow> ('x tsess_scheme, unit) act" where
  "transport_request pipe serial owner open up request =
     (let request_str = unwrap_or [] (from_utf8 request) in
      if starts_with ''reverse:forward:localabstract:scrcpy_'' request_str then
        on_client (write_fail ''remote scrcpy reverse requires a tunnel; use adb forward'')
      else
        (case forward_request request_str of
           Some (port, socket) \<Rightarrow>
             bind_a (with_tunnels (TunnelManager_add port serial socket owner open)) (\<lambda>r.
             case r of
               Inr actual \<Rightarrow>
                 then_a (on_client write_okay) (then_a (on_client write_okay)
                   (if port = 0 then on_client (write_packet (dec (unat actual))) else ret ()))
             | Inl err \<Rightarrow> on_client (write_fail (err_msg err)))
         | None \<Rightarrow>
             bind_a (case killforward_request request_str of
                       Some port \<Rightarrow> with_tunnels (TunnelManager_remove port serial owner)
                     | None \<Rightarrow> ret False) (\<lambda>removed.
             if removed then then_a (on_client write_okay) (on_client write_okay)
             else on_up (write_packet request) up (\<lambda>_ up'. splice pipe up'))))"

definition transport ::
  "pipe \<Rightarrow> conn \<Rightarrow> string \<Rightarrow> string \<Rightarrow> u32 option \<Rightarrow> OpenStream \<Rightarrow> ('x tsess_scheme, unit) act" where
  "transport pipe upstream service serial owner open =
     (let serve = (\<lambda>up. bind_a (on_client read_packet) (transport_request pipe serial owner open up)) in
      on_up read_status upstream (\<lambda>status up1.
      then_a (on_client (write_all status))
     (if status \<noteq> ''OKAY'' then
        (if status = ''FAIL'' then on_up read_packet up1 (\<lambda>reason _. on_client (write_packet reason)) else ret ())
      else if starts_with ''host:tport:'' service then
        on_up (read_exact 8) up1 (\<lambda>id up2. then_a (on_client (write_all id)) (serve up2))
      else serve up1)))"

definition is_transport :: "string \<Rightarrow> bool" where
  "is_transport service \<longleftrightarrow> starts_with ''host:tport:'' service \<or> starts_with ''host:transport:'' service"

definition connect_backend :: "SocketAddr \<Rightarrow> string option \<Rightarrow> string \<Rightarrow> ('x sess_scheme, conn) act" where
  "connect_backend addr code service =
     bind_a (dial addr) (\<lambda>stream.
     on_up (case code of Some k \<Rightarrow> authenticate_stream k | None \<Rightarrow> ret ()) stream (\<lambda>_ stream.
     on_up (write_service service) stream (\<lambda>_ stream. ret stream)))"

section \<open>Ownership\<close>

text \<open>The listeners of one owner.\<close>

definition owned :: "u32 option \<Rightarrow> TunnelManager \<Rightarrow> u16 \<rightharpoonup> Listener" where
  "owned w tm = (\<lambda>p. case tm_listeners tm p of Some l \<Rightarrow> (if l_owner l = w then Some l else None) | None \<Rightarrow> None)"

text \<open>What the operating system promises of \<^verbatim>\<open>bind\<close>: a given port is bound as asked for, and a
  port it chooses itself is not in use.\<close>

definition bind_ok :: "TunnelManager \<Rightarrow> bool" where
  "bind_ok tm \<longleftrightarrow> (\<forall>p q. tm_bind tm (tm_binds tm) p = Inr q \<longrightarrow>
     (if p = 0 then tm_listeners tm q = None else q = p))"

datatype tunnel_op =
    TAdd u16 string string "u32 option" OpenStream
  | TRemove u16 string "u32 option"
  | TRemoveOwner u32

primrec run_tunnel :: "tunnel_op \<Rightarrow> TunnelManager \<Rightarrow> TunnelManager" where
  "run_tunnel (TAdd port serial socket owner open) tm = snd (TunnelManager_add port serial socket owner open tm)"
| "run_tunnel (TRemove port serial owner) tm = snd (TunnelManager_remove port serial owner tm)"
| "run_tunnel (TRemoveOwner owner) tm = remove_owner owner tm"

primrec tunnel_op_owner :: "tunnel_op \<Rightarrow> u32 option" where
  "tunnel_op_owner (TAdd port serial socket owner open) = owner"
| "tunnel_op_owner (TRemove port serial owner) = owner"
| "tunnel_op_owner (TRemoveOwner owner) = Some owner"

fun binds_ok :: "tunnel_op list \<Rightarrow> TunnelManager \<Rightarrow> bool" where
  "binds_ok [] tm = True"
| "binds_ok (op # ops) tm \<longleftrightarrow> bind_ok tm \<and> binds_ok ops (run_tunnel op tm)"

lemma add_owned:
  assumes "bind_ok tm" "owner \<noteq> w"
  shows "owned w (snd (TunnelManager_add port serial socket owner open tm)) = owned w tm"
proof (rule ext)
  fix q
  show "owned w (snd (TunnelManager_add port serial socket owner open tm)) q = owned w tm q"
  proof (cases "tm_bind tm (tm_binds tm) port")
    case (Inl e)
    then show ?thesis using assms(2)
      by (auto simp: TunnelManager_add_def bind_listener_def owned_def Let_def split: option.splits)
  next
    case (Inr r)
    then have "if port = 0 then tm_listeners tm r = None else r = port" using assms(1) by (simp add: bind_ok_def)
    with Inr assms(2) show ?thesis
      by (auto simp: TunnelManager_add_def bind_listener_def owned_def Let_def split: option.splits if_splits)
  qed
qed

lemma remove_owned: "owner \<noteq> w \<Longrightarrow> owned w (snd (TunnelManager_remove port serial owner tm)) = owned w tm"
  by (auto simp: TunnelManager_remove_def owned_def fun_eq_iff split: option.splits)

lemma remove_owner_owned: "Some u \<noteq> w \<Longrightarrow> owned w (remove_owner u tm) = owned w tm"
  by (auto simp: remove_owner_def owned_def fun_eq_iff split: option.splits)

lemma run_tunnel_owned: "bind_ok tm \<Longrightarrow> tunnel_op_owner op \<noteq> w \<Longrightarrow> owned w (run_tunnel op tm) = owned w tm"
  by (cases op) (simp_all add: add_owned remove_owned remove_owner_owned)

text \<open>Tunnel ownership. No sequence of forward, kill-forward and disconnect operations of other
  users adds, replaces or removes a listener of a given user (as long as the operating system
  binds ports as documented), and a disconnect removes all listeners of its user.\<close>

theorem tunnel_isolation:
  assumes "binds_ok ops tm" "\<forall>op \<in> set ops. tunnel_op_owner op \<noteq> Some u"
  shows "owned (Some u) (fold run_tunnel ops tm) = owned (Some u) tm
    \<and> owned (Some u) (remove_owner u tm) = Map.empty"
proof
  show "owned (Some u) (fold run_tunnel ops tm) = owned (Some u) tm"
    using assms by (induction ops arbitrary: tm) (simp_all add: run_tunnel_owned)
  show "owned (Some u) (remove_owner u tm) = Map.empty"
    by (auto simp: remove_owner_def owned_def fun_eq_iff split: option.splits)
qed

definition demo_tm :: TunnelManager where
  "demo_tm = \<lparr>tm_listeners = [27183 \<mapsto> \<lparr>l_owner = Some 1000, l_serial = ''S'', l_socket = ''localabstract:scrcpy_1'',
       l_open = OpenPrivate 1000 ''r'' ''host:transport:S''\<rparr>],
     tm_bind = (\<lambda>_ p. Inr p), tm_binds = 0\<rparr>"

theorem tunnel_isolation_witness:
  "owned (Some 1000) (fold run_tunnel [TRemove 27183 ''S'' (Some 1001),
       TAdd 27183 ''T'' ''localabstract:scrcpy_2'' (Some 1001) (OpenPrivate 1001 ''q'' ''x''), TRemoveOwner 1001] demo_tm)
     = owned (Some 1000) demo_tm"
proof -
  let ?ops = "[TRemove 27183 ''S'' (Some 1001),
       TAdd 27183 ''T'' ''localabstract:scrcpy_2'' (Some 1001) (OpenPrivate 1001 ''q'' ''x''), TRemoveOwner 1001]"
  have "binds_ok ?ops demo_tm"
    by (simp add: demo_tm_def bind_ok_def TunnelManager_remove_def TunnelManager_add_def)
  moreover have "\<forall>op \<in> set ?ops. tunnel_op_owner op \<noteq> Some 1000" by simp
  ultimately show ?thesis using tunnel_isolation by blast
qed

section \<open>The accept loop\<close>

text \<open>A private tunnel serves its owner only, in arrival order, and loses nothing on shutdown.
  The connections served are, in order, those of the owner's processes among the ones accepted
  before the first failed accept; connections already queued when the stop signal arrives are
  still served. A peer whose user cannot be determined is never served.\<close>

theorem accept_loop_spec:
  assumes "\<forall>e \<in> set es. e \<noteq> AcceptError \<and> e \<noteq> Stop" "\<forall>p \<in> set ps. \<exists>q. p = Connection q"
  shows "accept_loop uid_of (Some u) False (es @ Stop # ps @ Pending # rest)
    = filter (\<lambda>p. uid_of p = Some u) (List.map_filter (\<lambda>e. case e of Connection p \<Rightarrow> Some p | _ \<Rightarrow> None) (es @ ps))"
  using assms
proof (induction es)
  case Nil
  have "accept_loop uid_of (Some u) True (ps @ Pending # rest)
    = filter (\<lambda>p. uid_of p = Some u) (List.map_filter (\<lambda>e. case e of Connection p \<Rightarrow> Some p | _ \<Rightarrow> None) ps)"
    using Nil(2) by (induction ps) (auto simp: peer_allowed_def map_filter_simps)
  then show ?case by simp
next
  case (Cons e es)
  then show ?case by (cases e) (auto simp: peer_allowed_def map_filter_simps)
qed

theorem accept_loop_spec_witness:
  "accept_loop (\<lambda>p. Some p) (Some 7) False ([Connection 7, Pending, Connection 8] @ Stop # [Connection 7] @ Pending # [Connection 7])
     = [7, 7 :: u32]"
proof -
  have "\<forall>e \<in> set [Connection 7, Pending, Connection (8 :: u32)]. e \<noteq> AcceptError \<and> e \<noteq> Stop"
    "\<forall>p \<in> set [Connection (7 :: u32)]. \<exists>q. p = Connection q" by simp_all
  from accept_loop_spec [OF this, of "\<lambda>p. Some p" 7 "[Connection 7]"] show ?thesis
    by (simp add: map_filter_simps)
qed

section \<open>What a transport hands over\<close>

lemma read_exact_Inr_tx: "read_exact n up = (Inr x, up') \<Longrightarrow> tx up' = tx up"
  by (auto simp: read_exact_Inr_iff)

lemma write_packet_Inr_tx: "write_packet p up = (Inr x, up') \<Longrightarrow> tx up' = tx up @ packet p"
  by (auto simp: write_packet_def packet_def encode_hex4_def then_a_result dest!: write_all_Inr)

text \<open>Whoever works on the tunnel table for one owner: registering a listener that opens what \<open>A\<close> allows,
  and removing a listener, keep the condition.\<close>

locale tunnel_user = session_condition I D
  for I :: "'x tsess_scheme \<Rightarrow> bool" and D +
  fixes owner :: "u32 option" and A :: "OpenStream \<Rightarrow> bool"
  assumes I_add: "A open \<Longrightarrow> I s \<Longrightarrow> I (s\<lparr>tunnels := snd (TunnelManager_add port serial socket owner open (tunnels s))\<rparr>)"
    and I_remove: "I s \<Longrightarrow> I (s\<lparr>tunnels := snd (TunnelManager_remove port serial owner (tunnels s))\<rparr>)"
begin

lemma sp_add: "A open \<Longrightarrow> splices I P (with_tunnels (TunnelManager_add port serial socket owner open))"
  by (auto simp: splices_def with_tunnels_def split: prod.splits dest: I_add [of _ _ port serial socket])

lemma sp_remove: "splices I P (with_tunnels (TunnelManager_remove port serial owner))"
  by (auto simp: splices_def with_tunnels_def split: prod.splits dest: I_remove [of _ port serial])

text \<open>The upstream connection is handed over with the client's next request appended to what was
  sent before, or not at all.\<close>

lemma sp_transport_request:
  assumes "\<And>u req. tx u = tx up @ packet req \<Longrightarrow> P u" "A open"
  shows "splices I P (transport_request pipe serial owner open up request)"
  unfolding transport_request_def Let_def
  by (auto intro!: sp_rules sp_bind sp_add sp_remove assms dest: write_packet_Inr_tx split: option.split sum.split)

lemma sp_transport:
  assumes "\<And>u req. tx u = tx upstream @ packet req \<Longrightarrow> P u" "A open"
  shows "splices I P (transport pipe upstream service serial owner open)"
proof -
  have serve: "splices I P (bind_a (on_client read_packet) (transport_request pipe serial owner open up))"
    if "tx up = tx upstream" for up
    using assms that by (intro sp_bind sp_on_client sp_transport_request) simp_all
  show ?thesis
    unfolding transport_def Let_def read_status_def
    by (auto intro!: sp_rules serve dest!: read_exact_Inr_tx)
qed

end

text \<open>A condition that says nothing of the tunnels is kept for every owner.\<close>

locale tunnel_condition = session_condition I D
  for I :: "'x tsess_scheme \<Rightarrow> bool" and D +
  assumes I_tunnels: "I s \<Longrightarrow> I (s\<lparr>tunnels := tm\<rparr>)"

sublocale tunnel_condition \<subseteq> free: tunnel_user I D owner "\<lambda>_. True" for owner
  by unfold_locales (simp_all add: I_tunnels)

interpretation tnetwork: tunnel_condition "\<lambda>s. dialer s = D" D for D
  by unfold_locales simp_all

section \<open>Connecting to a backend\<close>

text \<open>The bytes an upstream connection must have received before it carries client data.\<close>

definition upstream_prelude :: "string option \<Rightarrow> string \<Rightarrow> bytes" where
  "upstream_prelude code service =
     (case code of None \<Rightarrow> [] | Some k \<Rightarrow> packet (auth_service k)) @ packet service"

lemma authenticate_stream_Inr_tx:
  "authenticate_stream k up = (Inr x, up') \<Longrightarrow> tx up' = tx up @ packet (auth_service k)"
  by (auto simp: authenticate_stream_def then_a_result bind_a_cong_result write_service_def read_status_def
      dest!: write_packet_Inr_tx read_exact_Inr_tx split: if_splits)

lemma write_service_Inr_tx: "write_service p up = (Inr x, up') \<Longrightarrow> tx up' = tx up @ packet p"
  unfolding write_service_def by (rule write_packet_Inr_tx)

end
