(* ===== verification/Policy.thy ===== *)
theory Policy
  imports Rust_Str "HOL-Library.List_Lexorder" "HOL-Library.Char_ord"
begin

text \<open>
  Per-device enable policy of src/policy.rs: the table of explicit entries (a
  \<^verbatim>\<open>HashMap\<close>, kept as an association list), its persistence form,
  the filter on raw device lists and the extraction of a serial from a transport request.

  The locale \<open>enable_policy\<close> is what the proxy, the hub policy and the command line tools
  rely on: a lookup with default \<open>True\<close> and a setter that changes one serial only.
\<close>

section \<open>Definitions\<close>

record DevicePolicyEntry =
  dp_serial :: string
  dp_enabled :: bool

record DevicePolicyTable =
  entries :: "(string, bool) hmap"

definition DevicePolicyTable_default :: DevicePolicyTable where
  "DevicePolicyTable_default = \<lparr>entries = []\<rparr>"

definition from_entries :: "DevicePolicyEntry list \<Rightarrow> DevicePolicyTable" where
  "from_entries es =
     fold (\<lambda>e table. table\<lparr>entries := hm_insert (dp_serial e) (dp_enabled e) (entries table)\<rparr>) es
       DevicePolicyTable_default"

definition is_enabled :: "DevicePolicyTable \<Rightarrow> string \<Rightarrow> bool" where
  "is_enabled t serial = unwrap_or True (map_of (entries t) serial)"

definition set_enabled :: "string \<Rightarrow> bool \<Rightarrow> DevicePolicyTable \<Rightarrow> DevicePolicyTable" where
  "set_enabled serial enabled t =
     (if enabled then t\<lparr>entries := hm_remove serial (entries t)\<rparr>
      else t\<lparr>entries := hm_insert serial False (entries t)\<rparr>)"

text \<open>The entries to persist: the disabled serials in byte order.\<close>

definition to_disabled_entries :: "DevicePolicyTable \<Rightarrow> DevicePolicyEntry list" where
  "to_disabled_entries t =
     sort_key dp_serial
       (map (\<lambda>(s, _). \<lparr>dp_serial = s, dp_enabled = False\<rparr>)
         (filter (\<lambda>(_, en). \<not> en) (entries t)))"

definition explicit_serials :: "DevicePolicyTable \<Rightarrow> (string \<times> bool) list" where
  "explicit_serials t = entries t"

text \<open>\<^verbatim>\<open>filter_devices_body\<close>: the loop body for one line, then the loop.\<close>

definition keep_line :: "(string \<Rightarrow> bool) \<Rightarrow> string \<Rightarrow> bool" where
  "keep_line en line =
     (let trimmed = trim line in
      if trimmed = [] then False
      else if starts_with ''*'' trimmed \<or> starts_with ''List of'' trimmed then True
      else let serial = (case split_whitespace trimmed of [] \<Rightarrow> [] | w # _ \<Rightarrow> w) in
           \<not> (serial = [] \<or> \<not> en serial))"

definition filter_devices_body :: "string \<Rightarrow> (string \<Rightarrow> bool) \<Rightarrow> string" where
  "filter_devices_body raw en =
     fold (\<lambda>line out. if keep_line en line then out @ line @ [LF] else out) (str_lines raw) []"

definition transport_serial :: "string \<Rightarrow> string option" where
  "transport_serial service =
     (case strip_prefix ''host:transport:'' service of
        Some s \<Rightarrow> (if s = ''any'' \<or> s = ''usb'' \<or> s = ''local'' then None else Some s)
      | None \<Rightarrow>
          (case strip_prefix ''host:tport:serial:'' service of
             Some s \<Rightarrow> Some s
           | None \<Rightarrow> None))"

section \<open>The table\<close>

lemma from_entries_fold:
  "map_of (entries (fold (\<lambda>e table. table\<lparr>entries := hm_insert (dp_serial e) (dp_enabled e) (entries table)\<rparr>) es t))
     = map_of (entries t) ++ map_of (rev (map (\<lambda>e. (dp_serial e, dp_enabled e)) es))"
  by (induction es arbitrary: t) (simp_all add: map_add_def fun_eq_iff split: option.split)

lemma entries_from_entries:
  "map_of (entries (from_entries es)) = map_of (rev (map (\<lambda>e. (dp_serial e, dp_enabled e)) es))"
  by (simp add: from_entries_def from_entries_fold DevicePolicyTable_default_def)

lemma is_enabled_default [simp]: "is_enabled DevicePolicyTable_default s"
  by (simp add: is_enabled_def DevicePolicyTable_default_def)

lemma is_enabled_set_enabled: "is_enabled (set_enabled s b t) s' = (if s' = s then b else is_enabled t s')"
  by (simp add: is_enabled_def set_enabled_def)

definition table_wf :: "DevicePolicyTable \<Rightarrow> bool" where
  "table_wf t \<longleftrightarrow> hm_wf (entries t)"

lemma table_wf_default [wf_intros]: "table_wf DevicePolicyTable_default"
  by (simp add: table_wf_def DevicePolicyTable_default_def)

lemma table_wf_set_enabled [wf_intros]: "table_wf t \<Longrightarrow> table_wf (set_enabled s b t)"
  by (simp add: table_wf_def set_enabled_def wf_intros)

lemma table_wf_fold:
  "table_wf t \<Longrightarrow>
     table_wf (fold (\<lambda>e table. table\<lparr>entries := hm_insert (dp_serial e) (dp_enabled e) (entries table)\<rparr>) es t)"
  by (induction es arbitrary: t) (simp_all add: table_wf_def wf_intros)

lemma table_wf_from_entries [wf_intros]: "table_wf (from_entries es)"
  unfolding from_entries_def by (intro table_wf_fold wf_intros)

text \<open>The contract of an enable policy, and what its clients may conclude.\<close>

locale enable_policy =
  fixes lookup :: "'t \<Rightarrow> string \<Rightarrow> bool"
    and assign :: "string \<Rightarrow> bool \<Rightarrow> 't \<Rightarrow> 't"
    and initial :: 't
  assumes lookup_initial: "lookup initial s"
    and lookup_assign: "lookup (assign s b t) s' = (if s' = s then b else lookup t s')"
begin

text \<open>After any sequence of assignments the last one for a serial decides, and a serial
  never assigned is enabled.\<close>

lemma lookup_fold:
  "lookup (fold (\<lambda>(s, b). assign s b) ops t) x =
     (case map_of (rev ops) x of None \<Rightarrow> lookup t x | Some b \<Rightarrow> b)"
  by (induction ops arbitrary: t) (auto simp: lookup_assign map_add_def split: option.splits)

lemma assign_commute:
  "s \<noteq> s' \<Longrightarrow> lookup (assign s b (assign s' b' t)) = lookup (assign s' b' (assign s b t))"
  by (auto simp: lookup_assign fun_eq_iff)

end

interpretation table: enable_policy is_enabled set_enabled DevicePolicyTable_default
  by unfold_locales (simp_all add: is_enabled_set_enabled)

lemma is_enabled_iff: "is_enabled t s \<longleftrightarrow> map_of (entries t) s \<noteq> Some False"
  by (auto simp: is_enabled_def unwrap_or_def split: option.splits)

lemma to_disabled_entries_serials:
  assumes "table_wf t"
  shows "set (map dp_serial (to_disabled_entries t)) = {s. \<not> is_enabled t s}"
    and "sorted (map dp_serial (to_disabled_entries t))"
    and "distinct (map dp_serial (to_disabled_entries t))"
    and "\<forall>e \<in> set (to_disabled_entries t). \<not> dp_enabled e"
proof -
  have d: "distinct (map fst (entries t))" using assms by (simp add: table_wf_def hm_wf_def)
  show "set (map dp_serial (to_disabled_entries t)) = {s. \<not> is_enabled t s}"
    using map_of_eq_Some_iff [OF d] by (force simp: to_disabled_entries_def is_enabled_iff)
  show "sorted (map dp_serial (to_disabled_entries t))" by (simp add: to_disabled_entries_def)
  have "distinct (map fst (filter (\<lambda>(_, en). \<not> en) (entries t)))"
    using d by (rule distinct_map_filter)
  then have "distinct (map dp_serial (map (\<lambda>(s, _). \<lparr>dp_serial = s, dp_enabled = False\<rparr>)
      (filter (\<lambda>(_, en). \<not> en) (entries t))))"
    by (simp add: comp_def case_prod_unfold)
  then show "distinct (map dp_serial (to_disabled_entries t))"
    unfolding to_disabled_entries_def by (rule distinct_map_sort_key)
  show "\<forall>e \<in> set (to_disabled_entries t). \<not> dp_enabled e"
    by (auto simp: to_disabled_entries_def)
qed

lemma is_enabled_from_to:
  assumes "table_wf t"
  shows "is_enabled (from_entries (to_disabled_entries t)) = is_enabled t"
proof
  fix s
  let ?es = "to_disabled_entries t"
  let ?ps = "rev (map (\<lambda>e. (dp_serial e, dp_enabled e)) ?es)"
  note facts = to_disabled_entries_serials [OF assms]
  have "distinct (map fst ?ps)"
    using facts(3) by (simp add: rev_map [symmetric] comp_def)
  then have "map_of ?ps s = Some False \<longleftrightarrow> s \<in> dp_serial ` set ?es"
    using facts(4) by (force simp: map_of_eq_Some_iff)
  with facts(1) show "is_enabled (from_entries ?es) s = is_enabled t s"
    by (auto simp: is_enabled_iff entries_from_entries)
qed

section \<open>The list filter\<close>

lemma filter_devices_fold:
  "fold (\<lambda>line out. if keep_line en line then out @ line @ [LF] else out) ls acc
     = acc @ unlines (filter (keep_line en) ls)"
  by (induction ls arbitrary: acc) (auto simp: unlines_def)

lemma filter_devices_body_eq:
  "filter_devices_body raw en = unlines (filter (keep_line en) (str_lines raw))"
  by (simp add: filter_devices_body_def filter_devices_fold)

section \<open>Properties\<close>

text \<open>Persistence keeps the policy. Writing out the disabled entries and rebuilding a
  table from them gives a table with the same verdict on every serial; the written list is
  sorted, free of duplicates and holds disabled serials only.\<close>

theorem policy_persist_roundtrip:
  assumes "table_wf t"
  shows "is_enabled (from_entries (to_disabled_entries t)) s = is_enabled t s
    \<and> sorted (map dp_serial (to_disabled_entries t))
    \<and> distinct (map dp_serial (to_disabled_entries t))
    \<and> (\<forall>e \<in> set (to_disabled_entries t). \<not> dp_enabled e)"
  using is_enabled_from_to [OF assms] to_disabled_entries_serials [OF assms] by auto

theorem policy_persist_roundtrip_witness:
  "\<not> is_enabled (from_entries (to_disabled_entries (set_enabled ''A1'' False DevicePolicyTable_default))) ''A1''"
proof -
  have "table_wf (set_enabled ''A1'' False DevicePolicyTable_default)"
    by (intro wf_intros)
  from policy_persist_roundtrip [OF this, of "''A1''"] show ?thesis
    by (simp add: is_enabled_set_enabled)
qed

text \<open>The list filter is exact. Reading the filtered body line by line gives the input's
  lines, in order, without those that are blank or whose first word is a disabled serial;
  banner lines (starting with \<open>*\<close> or \<open>List of\<close>) stay. (Lines hold no carriage return at
  their end, as adb writes them.)\<close>

theorem filter_devices_body_lines:
  assumes "\<And>l. l \<in> set (str_lines raw) \<Longrightarrow> l = [] \<or> last l \<noteq> CR"
  shows "str_lines (filter_devices_body raw en) = filter (keep_line en) (str_lines raw)"
  unfolding filter_devices_body_eq
  using assms str_lines_no_LF by (intro str_lines_unlines) auto

theorem filter_devices_body_lines_witness:
  "str_lines (filter_devices_body (''A1'' @ [LF] @ ''A2'' @ [LF]) (\<lambda>s. s \<noteq> ''A1''))
     = filter (keep_line (\<lambda>s. s \<noteq> ''A1'')) (str_lines (''A1'' @ [LF] @ ''A2'' @ [LF]))"
  by (rule filter_devices_body_lines) (auto simp: str_lines_def)

end
