(* ===== verification/Config.thy ===== *)
theory Config
  imports Net_Addr Auth Policy
begin

text \<open>
  The hub configuration of src/config.rs: backends and hub settings, the conversion from and
  to the TOML file structure with its validation, the edits made by \<^verbatim>\<open>adb-hub pair\<close> and
  \<^verbatim>\<open>adb-hub node\<close>, the legacy key=value file and the \<^verbatim>\<open>--backend\<close> argument.

  The \<^verbatim>\<open>toml\<close> crate is not part of the program: its parser is an argument \<open>toml\<close> that
  yields the fields present in the text (\<open>RawToml\<close>); the defaults of the serde attributes
  are applied by \<open>with_defaults\<close>. Durations are milliseconds.
\<close>

section \<open>Definitions\<close>

record BackendConfig =
  bc_name :: string
  bc_addr :: SocketAddr
  bc_pair_code :: "string option"
  bc_enabled :: bool

record HubConfig =
  hc_listen :: SocketAddr
  hc_poll_interval :: nat
  hc_backends :: "BackendConfig list"
  hc_adb_version :: u32
  hc_include_local :: bool
  hc_local_adb_port :: u16
  hc_devices :: DevicePolicyTable
  hc_config_path :: "string option"

datatype ConfigError = ConfigIo io_error | Invalid string | TomlDe string | TomlSer string

record TomlBackend =
  tb_name :: "string option"
  tb_addr :: string
  tb_pair_code :: "string option"
  tb_enabled :: bool

record TomlFile =
  tf_listen :: string
  tf_poll_interval_ms :: u64
  tf_adb_version :: u32
  tf_include_local :: bool
  tf_local_adb_port :: u16
  tf_backend :: "TomlBackend list"
  tf_device :: "DevicePolicyEntry list"

text \<open>The document as written, before defaults.\<close>

record RawBackend =
  rb_name :: "string option"
  rb_addr :: string
  rb_pair_code :: "string option"
  rb_enabled :: "bool option"

record RawDevice =
  rd_serial :: string
  rd_enabled :: "bool option"

record RawToml =
  rt_listen :: "string option"
  rt_poll_interval_ms :: "u64 option"
  rt_adb_version :: "u32 option"
  rt_include_local :: "bool option"
  rt_local_adb_port :: "u16 option"
  rt_backend :: "RawBackend list option"
  rt_device :: "RawDevice list option"

definition default_listen :: string where "default_listen = ''127.0.0.1:5037''"
definition default_poll_ms :: u64 where "default_poll_ms = 1000"
definition default_adb_version :: u32 where "default_adb_version = 41"
definition default_include_local :: bool where "default_include_local = True"
definition default_local_adb_port :: u16 where "default_local_adb_port = 5039"

definition with_defaults :: "RawToml \<Rightarrow> TomlFile" where
  "with_defaults r =
     \<lparr>tf_listen = unwrap_or default_listen (rt_listen r),
      tf_poll_interval_ms = unwrap_or default_poll_ms (rt_poll_interval_ms r),
      tf_adb_version = unwrap_or default_adb_version (rt_adb_version r),
      tf_include_local = unwrap_or default_include_local (rt_include_local r),
      tf_local_adb_port = unwrap_or default_local_adb_port (rt_local_adb_port r),
      tf_backend = map (\<lambda>b. \<lparr>tb_name = rb_name b, tb_addr = rb_addr b, tb_pair_code = rb_pair_code b,
                             tb_enabled = unwrap_or True (rb_enabled b)\<rparr>)
                     (unwrap_or [] (rt_backend r)),
      tf_device = map (\<lambda>d. \<lparr>dp_serial = rd_serial d, dp_enabled = unwrap_or True (rd_enabled d)\<rparr>)
                     (unwrap_or [] (rt_device r))\<rparr>"

definition default_backend_name :: "SocketAddr \<Rightarrow> string" where
  "default_backend_name a = (case a of
     V4 ip p \<Rightarrow> ipv4_string ip @ ''_'' @ dec (unat p)
   | V6 ip _ p \<Rightarrow> replace_char (CHR '':'') (CHR ''_'') (ipv6_string ip @ ''_'' @ dec (unat p)))"

definition listen_addr :: SocketAddr where
  "listen_addr = localhost 5037"

text \<open>The loop over \<^verbatim>\<open>[[backend]]\<close> entries; it stops at the first invalid one.\<close>

fun from_toml_backends :: "nat \<Rightarrow> TomlBackend list \<Rightarrow> ConfigError + BackendConfig list" where
  "from_toml_backends idx [] = Inr []"
| "from_toml_backends idx (b # bs) =
     bind_r (map_err (\<lambda>e. Invalid (''backend['' @ dec idx @ ''].addr: '' @ e)) (parse_addr (tb_addr b)))
       (\<lambda>addr.
     bind_r (case tb_pair_code b of None \<Rightarrow> Inr ()
             | Some k \<Rightarrow> map_err (\<lambda>e. Invalid (''backend['' @ dec idx @ ''].pair_code: '' @ e))
                           (validate_pair_code k))
       (\<lambda>_.
     bind_r (from_toml_backends (Suc idx) bs) (\<lambda>rest.
       Inr (\<lparr>bc_name = (case tb_name b of Some n \<Rightarrow> n | None \<Rightarrow> default_backend_name addr),
             bc_addr = addr, bc_pair_code = tb_pair_code b, bc_enabled = tb_enabled b\<rparr> # rest))))"

definition from_toml_file :: "TomlFile \<Rightarrow> ConfigError + HubConfig" where
  "from_toml_file parsed =
     bind_r (map_err (\<lambda>e. Invalid (''listen: '' @ e)) (parse_addr (tf_listen parsed))) (\<lambda>listen.
     if tf_local_adb_port parsed = 0 then Inl (Invalid ''local_adb_port must be non-zero'')
     else if addr_port listen = tf_local_adb_port parsed then
       Inl (Invalid ''local_adb_port must differ from listen port'')
     else
     bind_r (from_toml_backends 0 (tf_backend parsed)) (\<lambda>backends.
     if backends = [] \<and> \<not> tf_include_local parsed then
       Inl (Invalid ''at least one [[backend]] is required when include_local = false'')
     else
       Inr \<lparr>hc_listen = listen,
            hc_poll_interval = unat (max (tf_poll_interval_ms parsed) 100),
            hc_backends = backends,
            hc_adb_version = tf_adb_version parsed,
            hc_include_local = tf_include_local parsed,
            hc_local_adb_port = tf_local_adb_port parsed,
            hc_devices = from_entries (tf_device parsed),
            hc_config_path = None\<rparr>))"

definition HubConfig_from_toml_str :: "(string \<Rightarrow> string + RawToml) \<Rightarrow> string \<Rightarrow> ConfigError + HubConfig" where
  "HubConfig_from_toml_str toml text =
     bind_r (map_err TomlDe (toml text)) (\<lambda>raw. from_toml_file (with_defaults raw))"

text \<open>\<^verbatim>\<open>load_file\<close>: \<open>read\<close> is \<^verbatim>\<open>fs::read_to_string\<close>.\<close>

definition HubConfig_load_file ::
  "(string \<Rightarrow> string + RawToml) \<Rightarrow> (string \<Rightarrow> io_error + string) \<Rightarrow> string \<Rightarrow> ConfigError + HubConfig" where
  "HubConfig_load_file toml read path =
     bind_r (map_err ConfigIo (read path)) (\<lambda>text.
     bind_r (HubConfig_from_toml_str toml text) (\<lambda>cfg. Inr (cfg\<lparr>hc_config_path := Some path\<rparr>)))"

text \<open>The structure \<^verbatim>\<open>to_toml_string\<close> hands to the serializer.\<close>

definition to_toml_file :: "HubConfig \<Rightarrow> TomlFile" where
  "to_toml_file c =
     \<lparr>tf_listen = addr_string (hc_listen c),
      tf_poll_interval_ms = word_of_nat (hc_poll_interval c),
      tf_adb_version = hc_adb_version c,
      tf_include_local = hc_include_local c,
      tf_local_adb_port = hc_local_adb_port c,
      tf_backend = map (\<lambda>b. \<lparr>tb_name = Some (bc_name b), tb_addr = addr_string (bc_addr b),
                             tb_pair_code = bc_pair_code b, tb_enabled = bc_enabled b\<rparr>) (hc_backends c),
      tf_device = to_disabled_entries (hc_devices c)\<rparr>"

definition enabled_backends :: "HubConfig \<Rightarrow> BackendConfig list" where
  "enabled_backends c = filter bc_enabled (hc_backends c)"

definition set_device_enabled :: "string \<Rightarrow> bool \<Rightarrow> HubConfig \<Rightarrow> HubConfig" where
  "set_device_enabled serial en c = c\<lparr>hc_devices := set_enabled serial en (hc_devices c)\<rparr>"

text \<open>\<^verbatim>\<open>iter_mut().find(p)\<close> and an update of what it found.\<close>

fun update_first :: "('a \<Rightarrow> bool) \<Rightarrow> ('a \<Rightarrow> 'a) \<Rightarrow> 'a list \<Rightarrow> 'a list option" where
  "update_first P f [] = None"
| "update_first P f (x # xs) =
     (if P x then Some (f x # xs) else map_option (\<lambda>ys. x # ys) (update_first P f xs))"

definition set_backend_enabled :: "string \<Rightarrow> bool \<Rightarrow> HubConfig \<Rightarrow> ConfigError + HubConfig" where
  "set_backend_enabled name en c =
     (case update_first (\<lambda>b. bc_name b = name) (\<lambda>b. b\<lparr>bc_enabled := en\<rparr>) (hc_backends c) of
        None \<Rightarrow> Inl (Invalid (''node '' @ [CHR 0x27] @ name @ [CHR 0x27] @ '' not found''))
      | Some bs \<Rightarrow> Inr (c\<lparr>hc_backends := bs\<rparr>))"

definition upsert_backend :: "BackendConfig \<Rightarrow> HubConfig \<Rightarrow> HubConfig" where
  "upsert_backend b c =
     (case update_first (\<lambda>e. bc_name e = bc_name b)
             (\<lambda>e. e\<lparr>bc_addr := bc_addr b, bc_pair_code := bc_pair_code b\<rparr>) (hc_backends c) of
        Some bs \<Rightarrow> c\<lparr>hc_backends := bs\<rparr>
      | None \<Rightarrow>
          (case update_first (\<lambda>e. bc_addr e = bc_addr b)
                  (\<lambda>e. e\<lparr>bc_name := bc_name b, bc_pair_code := bc_pair_code b\<rparr>) (hc_backends c) of
             Some bs \<Rightarrow> c\<lparr>hc_backends := bs\<rparr>
           | None \<Rightarrow> c\<lparr>hc_backends := hc_backends c @ [b]\<rparr>))"

definition local_only :: HubConfig where
  "local_only =
     \<lparr>hc_listen = listen_addr, hc_poll_interval = unat default_poll_ms, hc_backends = [],
      hc_adb_version = default_adb_version, hc_include_local = True,
      hc_local_adb_port = default_local_adb_port, hc_devices = DevicePolicyTable_default,
      hc_config_path = None\<rparr>"

text \<open>The legacy file: the last \<^verbatim>\<open>host=\<close> and the last \<^verbatim>\<open>port=\<close> line win.\<close>

definition legacy_line :: "string \<Rightarrow> string option \<times> string option \<Rightarrow> string option \<times> string option" where
  "legacy_line raw hp =
     (let line = trim raw in
      if line = [] \<or> starts_with ''#'' line then hp
      else case split_once (CHR ''='') line of
             None \<Rightarrow> hp
           | Some (key, val) \<Rightarrow>
               (if trim key = ''host'' then (Some (trim val), snd hp)
                else if trim key = ''port'' then (fst hp, Some (trim val))
                else hp))"

definition from_legacy_adbproxy :: "string \<Rightarrow> ConfigError + HubConfig" where
  "from_legacy_adbproxy text =
     (case fold legacy_line (str_lines text) (None, None) of (h, p) \<Rightarrow>
     bind_r (ok_or h (Invalid ''legacy config missing host'')) (\<lambda>host.
     bind_r (ok_or p (Invalid ''legacy config missing port'')) (\<lambda>port.
     bind_r (map_err (\<lambda>e. Invalid (''legacy host:port: '' @ e)) (parse_addr (host @ '':'' @ port))) (\<lambda>addr.
       Inr (local_only\<lparr>hc_backends :=
              [\<lparr>bc_name = default_backend_name addr, bc_addr = addr, bc_pair_code = None,
                bc_enabled = True\<rparr>]\<rparr>)))))"

definition parse_backend_arg :: "string \<Rightarrow> ConfigError + BackendConfig" where
  "parse_backend_arg s =
     (case split_once (CHR ''='') s of
        Some (name, addr_s) \<Rightarrow>
          bind_r (map_err (\<lambda>e. Invalid (''backend addr: '' @ e)) (parse_addr addr_s)) (\<lambda>addr.
          if name = [] then Inl (Invalid ''backend name must not be empty'')
          else Inr \<lparr>bc_name = name, bc_addr = addr, bc_pair_code = None, bc_enabled = True\<rparr>)
      | None \<Rightarrow>
          bind_r (map_err (\<lambda>e. Invalid (''backend addr: '' @ e)) (parse_addr s)) (\<lambda>addr.
          Inr \<lparr>bc_name = default_backend_name addr, bc_addr = addr, bc_pair_code = None,
               bc_enabled = True\<rparr>))"

section \<open>Invariants\<close>

text \<open>What validation establishes: ports differ and are usable, pair codes are well formed,
  there is something to serve, and polling is not faster than every 100 ms.\<close>

definition hub_wf :: "HubConfig \<Rightarrow> bool" where
  "hub_wf c \<longleftrightarrow> hc_local_adb_port c \<noteq> 0 \<and> addr_port (hc_listen c) \<noteq> hc_local_adb_port c
     \<and> (\<forall>b \<in> set (hc_backends c). \<forall>k. bc_pair_code b = Some k \<longrightarrow> pair_code_ok k)
     \<and> (hc_backends c = [] \<longrightarrow> hc_include_local c)
     \<and> 100 \<le> hc_poll_interval c \<and> table_wf (hc_devices c)"

definition names_distinct :: "HubConfig \<Rightarrow> bool" where
  "names_distinct c \<longleftrightarrow> distinct (map bc_name (hc_backends c))"

lemma from_toml_backends_codes:
  "from_toml_backends i bs = Inr out \<Longrightarrow>
     \<forall>b \<in> set out. \<forall>k. bc_pair_code b = Some k \<longrightarrow> pair_code_ok k"
proof (induction i bs arbitrary: out rule: from_toml_backends.induct)
  case (2 idx b bs)
  then show ?case
    by (fastforce simp: bind_r_Inr_iff validate_pair_code_ok_iff split: option.splits)
qed simp

lemma from_toml_file_wf: "from_toml_file t = Inr c \<Longrightarrow> hub_wf c"
  by (auto simp: from_toml_file_def bind_r_Inr_iff hub_wf_def word_le_nat_alt max_def wf_intros
      split: if_splits dest: from_toml_backends_codes)

lemma update_first_None_iff: "update_first P f xs = None \<longleftrightarrow> (\<forall>x \<in> set xs. \<not> P x)"
  by (induction xs) auto

lemma update_first_Some:
  "update_first P f xs = Some ys \<Longrightarrow>
     \<exists>us x vs. xs = us @ x # vs \<and> P x \<and> (\<forall>u \<in> set us. \<not> P u) \<and> ys = us @ f x # vs"
proof (induction xs arbitrary: ys)
  case (Cons x xs)
  show ?case
  proof (cases "P x")
    case True
    with Cons.prems have "x # xs = [] @ x # xs \<and> P x \<and> (\<forall>u \<in> set []. \<not> P u) \<and> ys = [] @ f x # xs"
      by simp
    then show ?thesis by blast
  next
    case False
    with Cons.prems obtain zs where zs: "update_first P f xs = Some zs" "ys = x # zs" by auto
    from Cons.IH [OF zs(1)] obtain us y vs where
      "xs = us @ y # vs" "P y" "\<forall>u \<in> set us. \<not> P u" "zs = us @ f y # vs" by blast
    with False zs(2) have "x # xs = (x # us) @ y # vs \<and> P y \<and> (\<forall>u \<in> set (x # us). \<not> P u) \<and> ys = (x # us) @ f y # vs"
      by simp
    then show ?thesis by blast
  qed
qed simp

lemma update_first_map_id:
  "(\<And>x. P x \<Longrightarrow> g (f x) = g x) \<Longrightarrow> update_first P f xs = Some ys \<Longrightarrow> map g ys = map g xs"
  by (drule update_first_Some) auto

lemma upsert_cases:
  obtains (by_name) us e vs where "hc_backends c = us @ e # vs" "bc_name e = bc_name b"
      "hc_backends (upsert_backend b c) = us @ e\<lparr>bc_addr := bc_addr b, bc_pair_code := bc_pair_code b\<rparr> # vs"
    | (by_addr) us e vs where "hc_backends c = us @ e # vs" "bc_addr e = bc_addr b"
      "bc_name b \<notin> bc_name ` set (hc_backends c)"
      "hc_backends (upsert_backend b c) = us @ e\<lparr>bc_name := bc_name b, bc_pair_code := bc_pair_code b\<rparr> # vs"
    | (pushed) "bc_name b \<notin> bc_name ` set (hc_backends c)"
      "hc_backends (upsert_backend b c) = hc_backends c @ [b]"
proof (cases "update_first (\<lambda>e. bc_name e = bc_name b)
    (\<lambda>e. e\<lparr>bc_addr := bc_addr b, bc_pair_code := bc_pair_code b\<rparr>) (hc_backends c)")
  case (Some bs)
  from update_first_Some [OF Some] Some that(1) show thesis
    by (auto simp: upsert_backend_def)
next
  case None
  then have n: "bc_name b \<notin> bc_name ` set (hc_backends c)"
    by (auto simp: update_first_None_iff)
  show thesis
  proof (cases "update_first (\<lambda>e. bc_addr e = bc_addr b)
      (\<lambda>e. e\<lparr>bc_name := bc_name b, bc_pair_code := bc_pair_code b\<rparr>) (hc_backends c)")
    case (Some bs)
    from update_first_Some [OF Some] Some None n that(2) show thesis
      by (auto simp: upsert_backend_def)
  next
    case None2: None
    with None n that(3) show thesis by (simp add: upsert_backend_def)
  qed
qed

lemma upsert_names_distinct [wf_intros]: "names_distinct c \<Longrightarrow> names_distinct (upsert_backend b c)"
  by (cases rule: upsert_cases [of c b]) (auto simp: names_distinct_def)

lemma set_backend_enabled_names:
  "set_backend_enabled n e c = Inr c' \<Longrightarrow> map bc_name (hc_backends c') = map bc_name (hc_backends c)"
  by (auto simp: set_backend_enabled_def split: option.splits elim!: update_first_map_id [rotated])

text \<open>Addresses whose printed form parses back.\<close>

definition addr_ok :: "SocketAddr \<Rightarrow> bool" where
  "addr_ok a \<longleftrightarrow> parse_addr (addr_string a) = Inr a"

lemma addr_ok_V4 [simp]: "addr_ok (V4 ip p)"
  by (simp add: addr_ok_def parse_addr_V4 del: addr_string.simps)

lemma from_toml_backends_to:
  assumes "\<forall>b \<in> set bs. addr_ok (bc_addr b) \<and> (\<forall>k. bc_pair_code b = Some k \<longrightarrow> pair_code_ok k)"
  shows "from_toml_backends i (map (\<lambda>b. \<lparr>tb_name = Some (bc_name b), tb_addr = addr_string (bc_addr b),
           tb_pair_code = bc_pair_code b, tb_enabled = bc_enabled b\<rparr>) bs) = Inr bs"
  using assms
proof (induction bs arbitrary: i)
  case (Cons b bs)
  then have "(case bc_pair_code b of None \<Rightarrow> Inr ()
      | Some k \<Rightarrow> map_err (\<lambda>e. Invalid (''backend['' @ dec i @ ''].pair_code: '' @ e)) (validate_pair_code k)) = Inr ()"
    by (auto split: option.splits simp: validate_pair_code_ok_iff)
  with Cons show ?case by (simp add: addr_ok_def)
qed simp

text \<open>The structure handed to the serializer converts back to the same configuration.\<close>

lemma from_to_toml_file:
  assumes "hub_wf c" "addr_ok (hc_listen c)" "\<forall>b \<in> set (hc_backends c). addr_ok (bc_addr b)"
    and "hc_poll_interval c < 2 ^ 64"
  shows "\<exists>c'. from_toml_file (to_toml_file c) = Inr c'
    \<and> c'\<lparr>hc_devices := hc_devices c, hc_config_path := hc_config_path c\<rparr> = c
    \<and> is_enabled (hc_devices c') = is_enabled (hc_devices c)"
proof -
  let ?n = "word_of_nat (hc_poll_interval c) :: u64"
  have poll: "unat (max ?n 100) = hc_poll_interval c"
    using assms(1,4) by (auto simp: max_def hub_wf_def word_le_nat_alt unat_of_nat)
  have en: "is_enabled (from_entries (to_disabled_entries (hc_devices c))) = is_enabled (hc_devices c)"
    using assms(1) by (intro is_enabled_from_to) (simp add: hub_wf_def)
  have bs: "from_toml_backends 0 (tf_backend (to_toml_file c)) = Inr (hc_backends c)"
    using assms(1,3) by (simp add: to_toml_file_def from_toml_backends_to hub_wf_def)
  have l: "parse_addr (tf_listen (to_toml_file c)) = Inr (hc_listen c)"
    using assms(2) by (simp add: to_toml_file_def addr_ok_def)
  show ?thesis
    using assms(1) bs l poll en
    by (auto simp: from_toml_file_def hub_wf_def to_toml_file_def)
qed

section \<open>Properties\<close>

text \<open>C38: Validation. Every configuration read from a TOML document satisfies the
  configuration invariant: distinct non-zero local port, well-formed pair codes, at least
  one source of devices, a poll interval of at least 100 ms.\<close>

theorem from_toml_str_wf:
  assumes "HubConfig_from_toml_str toml text = Inr c"
  shows "hub_wf c"
  using assms by (auto simp: HubConfig_from_toml_str_def bind_r_Inr_iff dest: from_toml_file_wf)

theorem from_toml_str_wf_witness: "hub_wf local_only"
proof -
  define raw where "raw = \<lparr>rt_listen = None, rt_poll_interval_ms = None, rt_adb_version = None,
      rt_include_local = None, rt_local_adb_port = None, rt_backend = None, rt_device = None\<rparr>"
  have "addr_string (localhost 5037) = default_listen"
    by (simp add: default_listen_def to_radix.simps digit_char_def) code_simp
  then have "parse_addr default_listen = Inr (localhost 5037)"
    using parse_addr_V4 [of "(127, 0, 0, 1)" 5037] by simp
  then have "HubConfig_from_toml_str (\<lambda>_. Inr raw) [] = Inr local_only"
    by (simp add: HubConfig_from_toml_str_def raw_def with_defaults_def from_toml_file_def local_only_def
        default_local_adb_port_def default_include_local_def default_poll_ms_def listen_addr_def
        from_entries_def max_def)
  then show ?thesis by (rule from_toml_str_wf)
qed

text \<open>Pairing. After \<open>upsert_backend\<close> exactly one backend has the given name when names
  were distinct before; it has the given address or had it already, carries the given pair
  code, and an existing backend keeps its enabled flag; all other backends are unchanged.\<close>

theorem upsert_backend_spec:
  assumes "names_distinct c"
  shows "names_distinct (upsert_backend b c) \<and>
    (\<exists>us e vs. hc_backends (upsert_backend b c) = us @ e # vs
       \<and> bc_name e = bc_name b \<and> bc_addr e = bc_addr b \<and> bc_pair_code e = bc_pair_code b
       \<and> (hc_backends c = us @ vs \<and> bc_enabled e = bc_enabled b
          \<or> (\<exists>e0. hc_backends c = us @ e0 # vs \<and> bc_enabled e = bc_enabled e0
               \<and> (bc_name e0 = bc_name b \<or> bc_addr e0 = bc_addr b))))"
proof -
  have "names_distinct (upsert_backend b c)" using assms by (rule upsert_names_distinct)
  moreover have "\<exists>us e vs. hc_backends (upsert_backend b c) = us @ e # vs
       \<and> bc_name e = bc_name b \<and> bc_addr e = bc_addr b \<and> bc_pair_code e = bc_pair_code b
       \<and> (hc_backends c = us @ vs \<and> bc_enabled e = bc_enabled b
          \<or> (\<exists>e0. hc_backends c = us @ e0 # vs \<and> bc_enabled e = bc_enabled e0
               \<and> (bc_name e0 = bc_name b \<or> bc_addr e0 = bc_addr b)))"
  proof (cases rule: upsert_cases [of c b])
    case (by_name us e vs)
    then show ?thesis by (intro exI [of _ us] exI [of _ "e\<lparr>bc_addr := bc_addr b, bc_pair_code := bc_pair_code b\<rparr>"] exI [of _ vs]) auto
  next
    case (by_addr us e vs)
    then show ?thesis by (intro exI [of _ us] exI [of _ "e\<lparr>bc_name := bc_name b, bc_pair_code := bc_pair_code b\<rparr>"] exI [of _ vs]) auto
  next
    case pushed
    then show ?thesis by (intro exI [of _ "hc_backends c"] exI [of _ b] exI [of _ "[]"]) simp
  qed
  ultimately show ?thesis ..
qed

theorem upsert_backend_spec_witness:
  "names_distinct (upsert_backend
      \<lparr>bc_name = ''office'', bc_addr = localhost 5038, bc_pair_code = None, bc_enabled = True\<rparr> local_only)"
proof -
  have "names_distinct local_only" by (simp add: names_distinct_def local_only_def)
  from upsert_backend_spec [OF this] show ?thesis by blast
qed

end
