(* ===== verification/Registry.thy ===== *)
theory Registry
  imports Config
begin

text \<open>
  The aggregated device registry of src/registry.rs: parsing of \<^verbatim>\<open>adb devices -l\<close> lines,
  the merge of the lists of several backends with its serial rewriting, lookup, formatting,
  and the registry object, whose \<^verbatim>\<open>broadcast\<close> channel is the count of notifications sent.

  The abstract view of a merge is the list of (backend, serial, state, extras) rows; the
  lemmas show that the merge is a row-by-row image of it, in order, and under which
  conditions the public serials identify a device.
\<close>

section \<open>Definitions\<close>

record DeviceEntry =
  public_serial :: string
  upstream_serial :: string
  dev_state :: string
  extras :: string
  backend_name :: string
  backend_addr :: SocketAddr
  pair_code :: "string option"
  route_id :: "string option"

record DeviceSnapshot =
  devices :: "DeviceEntry list"

definition empty_snapshot :: DeviceSnapshot where
  "empty_snapshot = \<lparr>devices = []\<rparr>"

definition format_device :: "bool \<Rightarrow> DeviceEntry \<Rightarrow> string" where
  "format_device long d =
     (if long then
        (if extras d = [] then public_serial d @ [TAB] @ dev_state d @ [LF]
         else public_serial d @ [TAB] @ dev_state d @ '' '' @ extras d @ [LF])
      else public_serial d @ [TAB] @ dev_state d @ [LF])"

definition format_devices :: "bool \<Rightarrow> DeviceSnapshot \<Rightarrow> string" where
  "format_devices long snap = fold (\<lambda>d out. out @ format_device long d) (devices snap) []"

definition find_device :: "DeviceSnapshot \<Rightarrow> string \<Rightarrow> DeviceEntry option" where
  "find_device snap serial = find (\<lambda>d. public_serial d = serial) (devices snap)"

definition online_count :: "DeviceSnapshot \<Rightarrow> nat" where
  "online_count snap = length (filter (\<lambda>d. dev_state d = ''device'') (devices snap))"

definition parse_device_line :: "string \<Rightarrow> (string \<times> string \<times> string) option" where
  "parse_device_line raw =
     (let line = trim raw in
      if line = [] \<or> starts_with ''*'' line \<or> starts_with ''List of'' line then None
      else case split_whitespace line of
             serial # st # rest \<Rightarrow> Some (serial, st, join '' '' rest)
           | _ \<Rightarrow> None)"

text \<open>The first pass of \<open>merge_device_lists\<close>: the parsed rows and how often each serial
  occurs.\<close>

type_synonym row = "BackendConfig \<times> string \<times> string \<times> string"

definition parse_body :: "BackendConfig \<times> string \<Rightarrow> row list" where
  "parse_body bb = List.map_filter
     (\<lambda>line. map_option (\<lambda>(serial, st, ex). (fst bb, serial, st, ex)) (parse_device_line line))
     (str_lines (snd bb))"

definition parse_lists :: "(BackendConfig \<times> string) list \<Rightarrow> row list" where
  "parse_lists lsts = concat (map parse_body lsts)"

definition serial_count :: "row list \<Rightarrow> string \<Rightarrow> nat" where
  "serial_count rows s = length (filter (\<lambda>(_, serial, _). serial = s) rows)"

text \<open>The second pass: one device per row, with \<open>used\<close> the public serials given out so
  far (the \<^verbatim>\<open>HashSet\<close>) and \<open>n\<close> the number of devices already pushed.\<close>

definition public_name :: "(string \<Rightarrow> nat) \<Rightarrow> string list \<Rightarrow> nat \<Rightarrow> BackendConfig \<Rightarrow> string \<Rightarrow> string" where
  "public_name counts used n b serial =
     (let public = (if counts serial > 1 then bc_name b @ '':'' @ serial else serial) in
      if public \<notin> set used then public else bc_name b @ '':'' @ serial @ '':'' @ dec n)"

definition mk_entry :: "string \<Rightarrow> row \<Rightarrow> DeviceEntry" where
  "mk_entry public r = (case r of (b, serial, st, ex) \<Rightarrow>
     \<lparr>public_serial = public, upstream_serial = serial, dev_state = st, extras = ex,
      backend_name = bc_name b, backend_addr = bc_addr b, pair_code = bc_pair_code b,
      route_id = None\<rparr>)"

fun merge_rows :: "(string \<Rightarrow> nat) \<Rightarrow> string list \<Rightarrow> nat \<Rightarrow> row list \<Rightarrow> DeviceEntry list" where
  "merge_rows counts used n [] = []"
| "merge_rows counts used n (r # rs) =
     (let public = public_name counts used n (fst r) (fst (snd r)) in
      mk_entry public r # merge_rows counts (public # used) (Suc n) rs)"

definition merge_device_lists :: "(BackendConfig \<times> string) list \<Rightarrow> DeviceSnapshot" where
  "merge_device_lists lsts =
     (let rows = parse_lists lsts in \<lparr>devices = merge_rows (serial_count rows) [] 0 rows\<rparr>)"

record DeviceRegistry =
  dr_inner :: DeviceSnapshot
  dr_notified :: nat

definition DeviceRegistry_new :: DeviceRegistry where
  "DeviceRegistry_new = \<lparr>dr_inner = empty_snapshot, dr_notified = 0\<rparr>"

definition update_from_backend_lists ::
  "(BackendConfig \<times> string) list \<Rightarrow> DeviceRegistry \<Rightarrow> DeviceRegistry" where
  "update_from_backend_lists lsts reg =
     (let merged = merge_device_lists lsts;
          changed = devices (dr_inner reg) \<noteq> devices merged
      in \<lparr>dr_inner = merged, dr_notified = (if changed then Suc (dr_notified reg) else dr_notified reg)\<rparr>)"

section \<open>Parsing\<close>

lemma parse_device_line_word:
  assumes "parse_device_line l = Some (s, st, ex)"
  shows "\<exists>rest. split_whitespace (trim l) = s # st # rest \<and> ex = join '' '' rest"
  using assms by (auto simp: parse_device_line_def Let_def split: if_splits list.splits)

section \<open>The merge\<close>

lemma merge_rows_length [simp]: "length (merge_rows c u n rs) = length rs"
  by (induction rs arbitrary: u n) (simp_all add: Let_def)

text \<open>Everything but the public serial is copied from the row.\<close>

definition same_row :: "DeviceEntry \<Rightarrow> row \<Rightarrow> bool" where
  "same_row d r \<longleftrightarrow> mk_entry (public_serial d) r = d"

lemma merge_rows_same: "list_all2 same_row (merge_rows c u n rs) rs"
  by (induction rs arbitrary: u n) (auto simp: Let_def same_row_def mk_entry_def split: prod.splits)

lemma public_name_cases:
  "public_name c u n b s = (if c s > 1 then bc_name b @ '':'' @ s else s)
     \<and> public_name c u n b s \<notin> set u
   \<or> public_name c u n b s = bc_name b @ '':'' @ s @ '':'' @ dec n"
  by (auto simp: public_name_def Let_def)

text \<open>The number of colons tells the three shapes of a public serial apart.\<close>

definition colons :: "string \<Rightarrow> nat" where
  "colons s = length (filter (\<lambda>c. c = CHR '':'') s)"

lemma colons_append [simp]: "colons (a @ b) = colons a + colons b"
  by (simp add: colons_def)

lemma colons_colon [simp]: "colons (CHR '':'' # s) = Suc (colons s)"
  by (simp add: colons_def)

lemma colons_dec [simp]: "colons (dec n) = 0"
proof -
  have "CHR '':'' \<notin> set (dec n)" by (rule to_radix_notin) (simp_all add: to_digit_def in_rng_def)
  then show ?thesis by (auto simp: colons_def filter_empty_conv)
qed

definition colon_free :: "row list \<Rightarrow> bool" where
  "colon_free rs \<longleftrightarrow> (\<forall>(b, s, _) \<in> set rs. colons (bc_name b) = 0 \<and> colons s = 0)"

lemma last_piece: "colons x = 0 \<Longrightarrow> colons y = 0 \<Longrightarrow> a @ CHR '':'' # x = b @ CHR '':'' # y \<Longrightarrow> x = y"
proof -
  assume x: "colons x = 0" and y: "colons y = 0" and eq: "a @ CHR '':'' # x = b @ CHR '':'' # y"
  have nx: "CHR '':'' \<notin> set x" and ny: "CHR '':'' \<notin> set y"
    using x y by (auto simp: colons_def filter_empty_conv)
  have "split_once (CHR '':'') (rev (a @ CHR '':'' # x)) = Some (rev x, rev a)"
    using nx by (simp add: split_once_Some_iff)
  moreover have "split_once (CHR '':'') (rev (b @ CHR '':'' # y)) = Some (rev y, rev b)"
    using ny by (simp add: split_once_Some_iff)
  ultimately have "rev x = rev y" using eq by simp
  then show "x = y" by simp
qed

text \<open>The serials given out so far are new names, or numbered below the next index.\<close>

definition used_ok :: "nat \<Rightarrow> string list \<Rightarrow> bool" where
  "used_ok n used \<longleftrightarrow> (\<forall>p \<in> set used. colons p \<le> 1 \<or>
     (\<exists>a k. p = a @ CHR '':'' # dec k \<and> k < n))"

lemma public_name_fresh:
  assumes "used_ok n used" "colons (bc_name b) = 0" "colons s = 0"
  shows "public_name c used n b s \<notin> set used"
proof (cases "public_name c used n b s = bc_name b @ '':'' @ s @ '':'' @ dec n")
  case True
  show ?thesis
  proof
    assume "public_name c used n b s \<in> set used"
    with assms(1) True have "colons (bc_name b @ '':'' @ s @ '':'' @ dec n) \<le> 1 \<or>
      (\<exists>a k. bc_name b @ '':'' @ s @ '':'' @ dec n = a @ CHR '':'' # dec k \<and> k < n)"
      unfolding used_ok_def by metis
    then show False
    proof (elim disjE exE conjE)
      assume "colons (bc_name b @ '':'' @ s @ '':'' @ dec n) \<le> 1"
      then show False by simp
    next
      fix a k assume e: "bc_name b @ '':'' @ s @ '':'' @ dec n = a @ CHR '':'' # dec k" and k: "k < n"
      from e have "(bc_name b @ '':'' @ s) @ CHR '':'' # dec n = a @ CHR '':'' # dec k" by simp
      then have "dec n = dec k" by (rule last_piece [rotated 2]) simp_all
      with k show False by (simp add: to_radix_inj)
    qed
  qed
next
  case False
  then show ?thesis using public_name_cases [of c used n b s] by metis
qed

lemma used_ok_step:
  assumes "used_ok n used" "colons (bc_name b) = 0" "colons s = 0"
  shows "used_ok (Suc n) (public_name c used n b s # used)"
proof -
  have "used_ok (Suc n) used" using assms(1) unfolding used_ok_def by (metis less_SucI)
  moreover have "colons (public_name c used n b s) \<le> 1 \<or>
      (\<exists>a k. public_name c used n b s = a @ CHR '':'' # dec k \<and> k < Suc n)"
    using public_name_cases [of c used n b s] assms(2,3)
    by (auto intro!: exI [of _ "bc_name b @ '':'' @ s"] exI [of _ n] split: if_splits)
  ultimately show ?thesis by (simp add: used_ok_def)
qed

lemma merge_rows_distinct:
  assumes "used_ok n used" "colon_free rs"
  shows "distinct (map public_serial (merge_rows c used n rs))
    \<and> set (map public_serial (merge_rows c used n rs)) \<inter> set used = {}"
  using assms
proof (induction rs arbitrary: used n)
  case (Cons r rs)
  obtain b s st ex where r: "r = (b, s, st, ex)" by (cases r)
  let ?p = "public_name c used n b s"
  from Cons.prems(2) have col: "colons (bc_name b) = 0" "colons s = 0" and rs: "colon_free rs"
    by (auto simp: colon_free_def r)
  have "used_ok (Suc n) (?p # used)" by (rule used_ok_step [OF Cons.prems(1) col])
  from Cons.IH [OF this rs] have
    "distinct (map public_serial (merge_rows c (?p # used) (Suc n) rs))"
    "set (map public_serial (merge_rows c (?p # used) (Suc n) rs)) \<inter> set (?p # used) = {}" by auto
  moreover have "?p \<notin> set used" by (rule public_name_fresh [OF Cons.prems(1) col])
  ultimately show ?case by (auto simp: r Let_def mk_entry_def)
qed simp

lemma merge_distinct:
  "colon_free (parse_lists lsts) \<Longrightarrow> distinct (map public_serial (devices (merge_device_lists lsts)))"
  using merge_rows_distinct [of 0 "[]" "parse_lists lsts"]
  by (simp add: merge_device_lists_def Let_def used_ok_def)

lemma merge_same: "list_all2 same_row (devices (merge_device_lists lsts)) (parse_lists lsts)"
  by (simp add: merge_device_lists_def Let_def merge_rows_same)

lemma merge_entry_from_row:
  assumes "d \<in> set (devices (merge_device_lists lsts))"
  shows "\<exists>b body. (b, body) \<in> set lsts \<and> body \<noteq> [] \<and> backend_name d = bc_name b \<and> backend_addr d = bc_addr b
    \<and> pair_code d = bc_pair_code b \<and> route_id d = None"
proof -
  from assms obtain i where i: "i < length (devices (merge_device_lists lsts))"
    "devices (merge_device_lists lsts) ! i = d" by (metis in_set_conv_nth)
  let ?r = "parse_lists lsts ! i"
  have l: "i < length (parse_lists lsts)" using merge_same i(1) by (metis list_all2_lengthD)
  have "same_row d ?r" using merge_same i list_all2_nthD by blast
  moreover obtain b s st ex where r: "?r = (b, s, st, ex)" by (cases ?r)
  ultimately have d: "mk_entry (public_serial d) (b, s, st, ex) = d" by (simp add: same_row_def)
  have "(b, s, st, ex) \<in> set (parse_lists lsts)" using l r nth_mem by metis
  then obtain bb where "bb \<in> set lsts" "fst bb = b" "snd bb \<noteq> []"
    by (fastforce simp: parse_lists_def parse_body_def List.map_filter_def split: option.splits)
  then have "(b, snd bb) \<in> set lsts \<and> snd bb \<noteq> []" by (metis prod.collapse)
  moreover have "backend_name d = bc_name b" "backend_addr d = bc_addr b"
    "pair_code d = bc_pair_code b" "route_id d = None"
    by (subst d [symmetric], simp add: mk_entry_def)+
  ultimately show ?thesis by blast
qed

section \<open>Lookup\<close>

text \<open>A directory of devices by public serial: what the routing code relies on.\<close>

locale serial_directory =
  fixes get :: "'s \<Rightarrow> string \<Rightarrow> DeviceEntry option"
    and all :: "'s \<Rightarrow> DeviceEntry list"
  assumes get_sound: "get s k = Some d \<Longrightarrow> d \<in> set (all s) \<and> public_serial d = k"
    and get_none: "get s k = None \<Longrightarrow> k \<notin> public_serial ` set (all s)"
begin

lemma get_complete:
  assumes "distinct (map public_serial (all s))" "d \<in> set (all s)"
  shows "get s (public_serial d) = Some d"
proof (cases "get s (public_serial d)")
  case None
  then show ?thesis using get_none assms(2) by blast
next
  case (Some e)
  then have "e \<in> set (all s)" "public_serial e = public_serial d" using get_sound by blast+
  then have "e = d" using assms by (metis distinct_map inj_on_def)
  with Some show ?thesis by simp
qed

lemma get_iff:
  "distinct (map public_serial (all s)) \<Longrightarrow>
     get s k = Some d \<longleftrightarrow> d \<in> set (all s) \<and> public_serial d = k"
  using get_sound get_complete by blast

end

interpretation dir: serial_directory find_device devices
  by unfold_locales (auto simp: find_device_def find_None_iff dest: find_Some_in_set)

section \<open>Formatting\<close>

lemma format_devices_concat: "format_devices long snap = concat (map (format_device long) (devices snap))"
proof -
  have "fold (\<lambda>d out. out @ format_device long d) ds acc = acc @ concat (map (format_device long) ds)" for ds acc
    by (induction ds arbitrary: acc) simp_all
  then show ?thesis by (simp add: format_devices_def)
qed

text \<open>Fields as adb prints them: words without whitespace; the extras are words joined by
  single spaces.\<close>

definition is_word :: "string \<Rightarrow> bool" where
  "is_word s \<longleftrightarrow> s \<noteq> [] \<and> no_ws s"

definition entry_clean :: "DeviceEntry \<Rightarrow> bool" where
  "entry_clean d \<longleftrightarrow> is_word (public_serial d) \<and> is_word (dev_state d) \<and>
     (\<exists>ws. (\<forall>w \<in> set ws. is_word w) \<and> extras d = join '' '' ws) \<and>
     \<not> starts_with ''*'' (public_serial d) \<and> \<not> starts_with ''List'' (public_serial d)"

lemma word_no_sep: "is_word s \<Longrightarrow> LF \<notin> set s \<and> CR \<notin> set s \<and> TAB \<notin> set s"
  by (auto simp: is_word_def no_ws_def)

lemma split_whitespace_join:
  "(\<forall>w \<in> set ws. is_word w) \<Longrightarrow> split_whitespace (join '' '' ws) = ws"
proof (induction ws)
  case (Cons x ws)
  then show ?case
    by (cases "ws = []")
      (simp_all add: join_Cons is_word_def split_whitespace_token split_whitespace_cons)
qed (simp add: split_whitespace_def)

lemma join_last_word:
  "(\<forall>w \<in> set ws. is_word w) \<Longrightarrow> ws \<noteq> [] \<Longrightarrow> \<exists>m b. join '' '' ws = m @ b \<and> is_word b"
proof (induction ws)
  case (Cons x ws)
  show ?case
  proof (cases "ws = []")
    case True
    with Cons.prems have "join '' '' (x # ws) = [] @ x \<and> is_word x" by simp
    then show ?thesis by blast
  next
    case False
    with Cons obtain m b where "join '' '' ws = m @ b" "is_word b" by auto
    with False have "join '' '' (x # ws) = (x @ '' '' @ m) @ b \<and> is_word b" by (simp add: join_Cons)
    then show ?thesis by blast
  qed
qed simp

lemma join_chars: "c \<in> set (join '' '' ws) \<Longrightarrow> c = CHR '' '' \<or> (\<exists>w \<in> set ws. c \<in> set w)"
  by (induction ws) (auto simp: join_Cons split: if_splits)

text \<open>The text of one formatted line, without its line feed.\<close>

definition line_text :: "bool \<Rightarrow> DeviceEntry \<Rightarrow> string" where
  "line_text long d =
     public_serial d @ [TAB] @ dev_state d @ (if long \<and> extras d \<noteq> [] then '' '' @ extras d else [])"

lemma format_device_line: "format_device long = (\<lambda>d. line_text long d @ [LF])"
  by (simp add: fun_eq_iff format_device_def line_text_def)

lemma line_text_words:
  assumes "entry_clean d"
  shows "trim (line_text long d) = line_text long d
    \<and> split_whitespace (line_text long d) = public_serial d # dev_state d #
         (if long then split_whitespace (extras d) else [])"
proof -
  obtain ws where ws: "\<forall>w \<in> set ws. is_word w" "extras d = join '' '' ws"
    using assms by (auto simp: entry_clean_def)
  have p: "is_word (public_serial d)" and s: "is_word (dev_state d)" using assms by (simp_all add: entry_clean_def)
  have x: "extras d \<noteq> [] \<Longrightarrow> ws \<noteq> []" using ws(2) by auto
  have "\<exists>m b. line_text long d = public_serial d @ m @ b \<and> is_word b"
  proof (cases "long \<and> extras d \<noteq> []")
    case True
    with join_last_word [OF ws(1)] x ws(2) obtain m b where "extras d = m @ b" "is_word b" by auto
    with True have "line_text long d = public_serial d @ ([TAB] @ dev_state d @ '' '' @ m) @ b \<and> is_word b"
      by (simp add: line_text_def)
    then show ?thesis by blast
  next
    case False
    then have "line_text long d = public_serial d @ [TAB] @ dev_state d \<and> is_word (dev_state d)"
      using s by (simp add: line_text_def)
    then show ?thesis by blast
  qed
  then have t: "trim (line_text long d) = line_text long d"
    using p by (auto simp: is_word_def intro: trim_no_ws_ends)
  have "split_whitespace (line_text long d) = public_serial d # dev_state d #
         (if long then split_whitespace (extras d) else [])"
    using p s by (auto simp: line_text_def is_word_def split_whitespace_cons split_whitespace_token)
  with t show ?thesis ..
qed

lemma starts_with_prefix_word:
  assumes "is_word p" "\<not> starts_with q p" "no_ws q" "ws1 c"
  shows "\<not> starts_with q (p @ c # r)"
  using assms
proof (induction p arbitrary: q)
  case (Cons x xs)
  show ?case
  proof (cases q)
    case Nil
    with Cons.prems show ?thesis by (simp add: starts_with_def)
  next
    case (Cons y ys)
    show ?thesis
    proof (cases "x = y \<and> xs \<noteq> []")
      case True
      with Cons.prems Cons have "\<not> starts_with ys (xs @ c # r)"
        by (intro Cons.IH) (auto simp: is_word_def no_ws_def starts_with_def)
      with True Cons show ?thesis by (simp add: starts_with_def)
    next
      case False
      with Cons.prems Cons show ?thesis
        by (cases ys) (auto simp: starts_with_def no_ws_def)
    qed
  qed
qed (simp add: is_word_def)

lemma parse_line_text:
  assumes "entry_clean d"
  shows "parse_device_line (line_text long d) =
    Some (public_serial d, dev_state d, if long then extras d else [])"
proof -
  note lw = line_text_words [OF assms, of long]
  have p: "is_word (public_serial d)" using assms by (simp add: entry_clean_def)
  have lt: "line_text long d = public_serial d @ TAB # (dev_state d @ (if long \<and> extras d \<noteq> [] then '' '' @ extras d else []))"
    by (simp add: line_text_def)
  have n1: "\<not> starts_with ''*'' (line_text long d)"
    unfolding lt using assms p by (intro starts_with_prefix_word) (auto simp: entry_clean_def no_ws_def ws1_def)
  have "\<not> starts_with ''List'' (line_text long d)"
    unfolding lt using assms p by (intro starts_with_prefix_word) (auto simp: entry_clean_def no_ws_def ws1_def)
  then have n2: "\<not> starts_with ''List of'' (line_text long d)" by (auto simp: starts_with_iff)
  obtain ws where ws: "\<forall>w \<in> set ws. is_word w" "extras d = join '' '' ws"
    using assms by (auto simp: entry_clean_def)
  have "join '' '' (split_whitespace (extras d)) = extras d"
    using ws by (simp add: split_whitespace_join)
  moreover have "line_text long d \<noteq> []" by (simp add: line_text_def)
  ultimately show ?thesis
    using lw n1 n2 by (simp add: parse_device_line_def Let_def)
qed

lemma line_text_no_sep:
  assumes "entry_clean d"
  shows "LF \<notin> set (line_text long d)" "last (line_text long d) \<noteq> CR"
proof -
  obtain ws where ws: "\<forall>w \<in> set ws. is_word w" "extras d = join '' '' ws"
    using assms by (auto simp: entry_clean_def)
  have e: "LF \<notin> set (extras d) \<and> CR \<notin> set (extras d)"
    using ws word_no_sep join_chars [of LF ws] join_chars [of CR ws] by auto
  have s: "LF \<notin> set (line_text long d) \<and> CR \<notin> set (line_text long d)"
    using e assms word_no_sep [of "public_serial d"] word_no_sep [of "dev_state d"]
    by (auto simp: line_text_def entry_clean_def)
  then show "LF \<notin> set (line_text long d)" by simp
  show "last (line_text long d) \<noteq> CR"
    using s last_in_set [of "line_text long d"] by (auto simp: line_text_def)
qed

section \<open>The naming scheme\<close>

text \<open>Well-formed input rows: backend names without a colon, no serial that looks like a
  qualified name of one of the backends, and no backend that lists a serial twice. The
  serials themselves may contain colons, as those of network devices do.\<close>

definition row_key :: "row \<Rightarrow> string \<times> string" where
  "row_key r = (bc_name (fst r), fst (snd r))"

definition rows_wf :: "row list \<Rightarrow> bool" where
  "rows_wf rows \<longleftrightarrow> distinct (map row_key rows) \<and>
     (\<forall>r \<in> set rows. CHR '':'' \<notin> set (bc_name (fst r)) \<and>
        (\<forall>q \<in> set rows. \<not> starts_with (bc_name (fst r) @ '':'') (fst (snd q))))"

text \<open>The documented rule: a serial is qualified by its backend exactly when it is listed
  more than once.\<close>

definition public_of :: "row list \<Rightarrow> row \<Rightarrow> string" where
  "public_of rows r =
     (if serial_count rows (fst (snd r)) > 1 then bc_name (fst r) @ '':'' @ fst (snd r) else fst (snd r))"

lemma public_of_inj:
  assumes "rows_wf rows" "r \<in> set rows" "q \<in> set rows" "public_of rows r = public_of rows q"
  shows "row_key r = row_key q"
proof -
  have nr: "CHR '':'' \<notin> set (bc_name (fst r))" and nq: "CHR '':'' \<notin> set (bc_name (fst q))"
    and rq: "\<And>x y. x \<in> set rows \<Longrightarrow> y \<in> set rows \<Longrightarrow> bc_name (fst x) @ CHR '':'' # t \<noteq> fst (snd y)" for t
    using assms(1-3) unfolding rows_wf_def starts_with_iff by (blast, blast, force)
  consider (both) "serial_count rows (fst (snd r)) > 1" "serial_count rows (fst (snd q)) > 1"
    | (one) "(serial_count rows (fst (snd r)) > 1) \<noteq> (serial_count rows (fst (snd q)) > 1)"
    | (none) "\<not> serial_count rows (fst (snd r)) > 1" "\<not> serial_count rows (fst (snd q)) > 1" by blast
  then show ?thesis
  proof cases
    case both
    then have "bc_name (fst r) @ CHR '':'' # fst (snd r) = bc_name (fst q) @ CHR '':'' # fst (snd q)"
      using assms(4) by (simp add: public_of_def)
    moreover have "split_once (CHR '':'') (bc_name (fst r) @ CHR '':'' # fst (snd r))
        = Some (bc_name (fst r), fst (snd r))"
      using nr by (simp add: split_once_Some_iff)
    moreover have "split_once (CHR '':'') (bc_name (fst q) @ CHR '':'' # fst (snd q))
        = Some (bc_name (fst q), fst (snd q))"
      using nq by (simp add: split_once_Some_iff)
    ultimately have "Some (bc_name (fst r), fst (snd r)) = Some (bc_name (fst q), fst (snd q))" by metis
    then show ?thesis by (simp add: row_key_def)
  next
    case one
    then have "bc_name (fst r) @ CHR '':'' # fst (snd r) = fst (snd q)
        \<or> bc_name (fst q) @ CHR '':'' # fst (snd q) = fst (snd r)"
      using assms(4) by (cases "serial_count rows (fst (snd r)) > 1") (simp_all add: public_of_def)
    then show ?thesis using rq assms(2,3) by blast
  next
    case none
    have "fst (snd r) = fst (snd q)" using none assms(4) by (simp add: public_of_def)
    moreover have "r = q"
    proof (rule ccontr)
      assume "r \<noteq> q"
      have "{r, q} \<subseteq> set (filter (\<lambda>(_, s, _). s = fst (snd r)) rows)"
        using assms(2,3) \<open>fst (snd r) = fst (snd q)\<close> by (auto simp: case_prod_beta)
      then have "card {r, q} \<le> length (filter (\<lambda>(_, s, _). s = fst (snd r)) rows)"
        by (meson List.finite_set card_length card_mono le_trans)
      with \<open>r \<noteq> q\<close> none(1) show False by (simp add: serial_count_def)
    qed
    ultimately show ?thesis by simp
  qed
qed

lemma merge_rows_public_of:
  assumes "rows_wf rows" "rows = pre @ rs" "used = rev (map (public_of rows) pre)"
  shows "map public_serial (merge_rows (serial_count rows) used n rs) = map (public_of rows) rs"
  using assms(2,3)
proof (induction rs arbitrary: pre used n)
  case (Cons r rs)
  have r: "r \<in> set rows" using Cons.prems by simp
  have "row_key r \<notin> row_key ` set pre"
    using assms(1) Cons.prems(1) by (auto simp: rows_wf_def)
  then have "public_of rows r \<notin> set used"
    using public_of_inj [OF assms(1) r] Cons.prems by fastforce
  then have p: "public_name (serial_count rows) used n (fst r) (fst (snd r)) = public_of rows r"
    by (simp add: public_name_def public_of_def Let_def)
  have "map public_serial (merge_rows (serial_count rows) (public_of rows r # used) (Suc n) rs)
      = map (public_of rows) rs"
    by (rule Cons.IH [of "pre @ [r]"]) (use Cons.prems in simp_all)
  then show ?case by (simp add: p Let_def mk_entry_def split: prod.split)
qed simp

lemma rows_wf_distinct:
  assumes "rows_wf rows" shows "distinct (map (public_of rows) rows)"
proof -
  have "inj_on row_key (set rows)" "distinct rows" using assms by (auto simp: rows_wf_def distinct_map)
  moreover have "inj_on (public_of rows) (set rows)"
    by (rule inj_onI) (metis assms calculation(1) inj_onD public_of_inj)
  ultimately show ?thesis by (simp add: distinct_map)
qed

text \<open>C10: The merge follows the documented naming rule, when no backend name holds a colon, no listed serial looks like a name qualified
  with one of the backends, and no backend lists a serial twice (\<open>rows_wf\<close>): the result has one device per listed row, in order,
  with everything but the public serial copied from the row; a serial is qualified with its backend's name exactly when several rows have
  it; and every device is found again by its public serial. Without the condition it may not be
  (\<open>merge_serial_collision\<close>).\<close>

theorem merge_naming:
  assumes "rows_wf (parse_lists lsts)"
  shows "map public_serial (devices (merge_device_lists lsts)) = map (public_of (parse_lists lsts)) (parse_lists lsts)
    \<and> list_all2 same_row (devices (merge_device_lists lsts)) (parse_lists lsts)
    \<and> (\<forall>d \<in> set (devices (merge_device_lists lsts)).
         find_device (merge_device_lists lsts) (public_serial d) = Some d)"
proof -
  let ?rows = "parse_lists lsts"
  have m: "map public_serial (devices (merge_device_lists lsts)) = map (public_of ?rows) ?rows"
    using merge_rows_public_of [OF assms, of "[]" ?rows "[]" 0]
    by (simp add: merge_device_lists_def Let_def)
  then have "distinct (map public_serial (devices (merge_device_lists lsts)))"
    using rows_wf_distinct [OF assms] by simp
  then show ?thesis using m merge_same dir.get_complete by blast
qed

definition demo_backend :: "string \<Rightarrow> BackendConfig" where
  "demo_backend n = \<lparr>bc_name = n, bc_addr = localhost 5038, bc_pair_code = None, bc_enabled = True\<rparr>"

definition demo_lists :: "(BackendConfig \<times> string) list" where
  "demo_lists = [(demo_backend ''office'', ''SAME'' @ [TAB] @ ''device'' @ [LF] @ ''10.0.0.9:5555'' @ [TAB] @ ''device'' @ [LF]),
                 (demo_backend ''lab'', ''SAME'' @ [TAB] @ ''offline usb:1'' @ [LF])]"

lemma demo_rows: "parse_lists demo_lists =
  [(demo_backend ''office'', ''SAME'', ''device'', []), (demo_backend ''office'', ''10.0.0.9:5555'', ''device'', []),
   (demo_backend ''lab'', ''SAME'', ''offline'', ''usb:1'')]"
  by code_simp

theorem merge_naming_witness:
  "map public_serial (devices (merge_device_lists demo_lists)) = [''office:SAME'', ''10.0.0.9:5555'', ''lab:SAME'']"
proof -
  have "rows_wf (parse_lists demo_lists)" unfolding demo_rows by code_simp
  from merge_naming [OF this] show ?thesis
    unfolding demo_rows by (simp add: public_of_def serial_count_def demo_backend_def)
qed

text \<open>even when a backend lists a serial twice, the public serials are pairwise distinct,
  provided neither backend names nor serials contain a colon.\<close>

theorem merge_serials_distinct:
  assumes "colon_free (parse_lists lsts)"
  shows "distinct (map public_serial (devices (merge_device_lists lsts)))"
  using assms by (rule merge_distinct)

definition dup_lists :: "(BackendConfig \<times> string) list" where
  "dup_lists = [(demo_backend ''b'', ''S'' @ [TAB] @ ''device'' @ [LF] @ ''S'' @ [TAB] @ ''device'' @ [LF])]"

lemma dup_rows: "parse_lists dup_lists = [(demo_backend ''b'', ''S'', ''device'', []), (demo_backend ''b'', ''S'', ''device'', [])]"
  by code_simp

theorem merge_serials_distinct_witness:
  "colon_free (parse_lists dup_lists) \<and> distinct (map public_serial (devices (merge_device_lists dup_lists)))"
proof -
  have "colon_free (parse_lists dup_lists)"
    unfolding dup_rows colon_free_def by (simp add: colons_def demo_backend_def)
  then show ?thesis using merge_serials_distinct by blast
qed

text \<open>uniqueness of the public serials does not hold in general: the numbered fallback name
  is not checked against the names already given out, so two devices can end up with the same
  public serial, and only the first of them can be addressed.\<close>

definition clash_lists :: "(BackendConfig \<times> string) list" where
  "clash_lists = [(demo_backend ''a'', ''b:S:2'' @ [TAB] @ ''device'' @ [LF]),
                  (demo_backend ''b'', ''S'' @ [TAB] @ ''device'' @ [LF] @ ''S'' @ [TAB] @ ''device'' @ [LF])]"

lemma clash_rows: "parse_lists clash_lists =
  [(demo_backend ''a'', ''b:S:2'', ''device'', []), (demo_backend ''b'', ''S'', ''device'', []),
   (demo_backend ''b'', ''S'', ''device'', [])]"
  by code_simp

lemma dec_two: "dec 2 = ''2''"
  by code_simp

theorem merge_serial_collision:
  "map public_serial (devices (merge_device_lists clash_lists)) = [''b:S:2'', ''b:S'', ''b:S:2'']
   \<and> map_option backend_name (find_device (merge_device_lists clash_lists) ''b:S:2'') = Some ''a''"
  by (simp add: merge_device_lists_def clash_rows Let_def public_name_def serial_count_def
      demo_backend_def mk_entry_def find_device_def dec_two numeral_2_eq_2 [symmetric])

section \<open>Printed lists read back\<close>

lemma format_lines:
  assumes "\<forall>d \<in> set (devices snap). entry_clean d"
  shows "str_lines (format_devices long snap) = map (line_text long) (devices snap)"
proof -
  have "format_devices long snap = unlines (map (line_text long) (devices snap))"
    by (simp add: format_devices_concat unlines_def format_device_line comp_def)
  then show ?thesis using assms line_text_no_sep by (auto intro!: str_lines_unlines)
qed

lemma format_rows:
  assumes "\<forall>d \<in> set (devices snap). entry_clean d"
  shows "parse_lists [(b, format_devices long snap)]
    = map (\<lambda>d. (b, public_serial d, dev_state d, if long then extras d else [])) (devices snap)"
proof -
  have "List.map_filter (\<lambda>l. map_option (\<lambda>(s, st, ex). (b, s, st, ex)) (parse_device_line l)) (map (line_text long) ds)
    = map (\<lambda>d. (b, public_serial d, dev_state d, if long then extras d else [])) ds"
    if "\<forall>d \<in> set ds. entry_clean d" for ds
    using that by (induction ds) (simp_all add: parse_line_text map_filter_simps)
  then show ?thesis using assms by (simp add: parse_lists_def parse_body_def format_lines)
qed

lemma serial_count_unique:
  "distinct (map (\<lambda>r. fst (snd r)) rows) \<Longrightarrow> serial_count rows s \<le> 1"
proof (induction rows)
  case (Cons r rows)
  show ?case
  proof (cases "fst (snd r) = s")
    case True
    with Cons.prems have "filter (\<lambda>(_, serial, _). serial = s) rows = []"
      by (auto simp: filter_empty_conv image_iff)
    then show ?thesis by (simp add: serial_count_def case_prod_beta)
  qed (use Cons in \<open>simp add: serial_count_def case_prod_beta\<close>)
qed (simp add: serial_count_def)

lemma merge_rows_unique:
  assumes "\<And>s. c s \<le> (1::nat)" "distinct (map (\<lambda>r. fst (snd r)) rows)"
    "set (map (\<lambda>r. fst (snd r)) rows) \<inter> set used = {}"
  shows "merge_rows c used n rows = map (\<lambda>r. mk_entry (fst (snd r)) r) rows"
  using assms(2,3)
proof (induction rows arbitrary: used n)
  case (Cons r rows)
  have "\<not> c (fst (snd r)) > 1" using assms(1) [of "fst (snd r)"] by simp
  then show ?case using Cons by (simp add: Let_def public_name_def)
qed simp

text \<open>chained hubs: the long listing a hub prints, read as the device list of a single
  backend of another hub, gives back every device with the same serial, state and
  description, in the same order.\<close>

theorem listing_reaggregates:
  assumes "\<forall>d \<in> set (devices snap). entry_clean d" "distinct (map public_serial (devices snap))"
  shows "devices (merge_device_lists [(b, format_devices True snap)])
    = map (\<lambda>d. \<lparr>public_serial = public_serial d, upstream_serial = public_serial d, dev_state = dev_state d,
         extras = extras d, backend_name = bc_name b, backend_addr = bc_addr b,
         pair_code = bc_pair_code b, route_id = None\<rparr>) (devices snap)"
proof -
  let ?rows = "parse_lists [(b, format_devices True snap)]"
  have d: "distinct (map (\<lambda>r. fst (snd r)) ?rows)"
    using assms(2) by (simp add: format_rows [OF assms(1)] comp_def)
  show ?thesis
    unfolding merge_device_lists_def Let_def
    by (simp add: merge_rows_unique [OF serial_count_unique [OF d] d])
      (simp add: format_rows [OF assms(1)] mk_entry_def)
qed

definition demo_snapshot :: DeviceSnapshot where
  "demo_snapshot = \<lparr>devices = [mk_entry ''lab:S'' (demo_backend ''lab'', ''S'', ''device'', ''usb:1'')]\<rparr>"

theorem listing_reaggregates_witness:
  "map public_serial (devices (merge_device_lists [(demo_backend ''b'', format_devices True demo_snapshot)]))
     = [''lab:S'']"
proof -
  have "entry_clean (mk_entry ''lab:S'' (demo_backend ''lab'', ''S'', ''device'', ''usb:1''))"
    by (auto simp: entry_clean_def mk_entry_def is_word_def no_ws_def ws1_def starts_with_def
        intro!: exI [of _ "[''usb:1'']"])
  then have "\<forall>d \<in> set (devices demo_snapshot). entry_clean d" "distinct (map public_serial (devices demo_snapshot))"
    by (simp_all add: demo_snapshot_def)
  from listing_reaggregates [OF this, of "demo_backend ''b''"] show ?thesis
    by (simp add: demo_snapshot_def mk_entry_def)
qed

end
