(* ===== verification/Backend.thy ===== *)
theory Backend
  imports Tunnel Registry Compat
begin

text \<open>
  Queries to backends and the device poller, src/backend.rs: connecting with the pair code, the
  version gate, fetching device lists, the initial poll, the shared table of the latest list of
  every backend, and one connection of the \<^verbatim>\<open>track-devices\<close> watcher. A timeout is one of the errors
  a connection can give.
\<close>

section \<open>Queries\<close>

definition backend_connect :: "SocketAddr \<Rightarrow> string option \<Rightarrow> ('x sess_scheme, conn) act" where
  "backend_connect addr code =
     bind_a (dial addr) (\<lambda>stream.
     case code of
       None \<Rightarrow> ret stream
     | Some k \<Rightarrow> on_up (authenticate_stream k) stream (\<lambda>_ st. ret st))"

text \<open>A service answered by one OKAY payload.\<close>

definition query :: "SocketAddr \<Rightarrow> string option \<Rightarrow> string \<Rightarrow> ('x sess_scheme, bytes) act" where
  "query addr code service =
     bind_a (backend_connect addr code) (\<lambda>st0.
     on_up (write_service service) st0 (\<lambda>_ st1.
     on_up read_okay_payload st1 (\<lambda>body _. ret body)))"

definition fetch_proxy_version :: "SocketAddr \<Rightarrow> string option \<Rightarrow> ('x sess_scheme, string) act" where
  "fetch_proxy_version addr code =
     (case code of
        None \<Rightarrow> throw (IoErr InvalidInput ''proxy version check requires a pair code'')
      | Some k \<Rightarrow> bind_a (query addr (Some k) PROXY_VERSION_SERVICE) (\<lambda>body. ret (trim (utf8_lossy body))))"

definition check_proxy_compat :: "SocketAddr \<Rightarrow> string option \<Rightarrow> ('x sess_scheme, ProxyCompat) act" where
  "check_proxy_compat addr code =
     try_a (fetch_proxy_version addr code) (\<lambda>r. case r of
       Inr version \<Rightarrow> ret (evaluate_proxy_version version)
     | Inl err \<Rightarrow> ret (Unknown (err_msg err)))"

definition fetch_server_version :: "SocketAddr \<Rightarrow> string option \<Rightarrow> ('x sess_scheme, u32) act" where
  "fetch_server_version addr code =
     bind_a (query addr code ''host:version'') (\<lambda>body.
     bind_a (lift_r (ok_or (from_utf8 body) (IoErr InvalidData ''invalid utf-8 sequence''))) (\<lambda>s.
     bind_a (lift_r (map_err (\<lambda>e. IoErr InvalidData (int_error_msg e)) (from_str_radix 16 U32_MAX (trim s)))) (\<lambda>n.
     ret (word_of_nat n))))"

definition fetch_devices_l :: "SocketAddr \<Rightarrow> string option \<Rightarrow> ('x sess_scheme, string) act" where
  "fetch_devices_l addr code = bind_a (query addr code ''host:devices-l'') (\<lambda>body. ret (utf8_lossy body))"

fun filter_compatible_backends :: "BackendConfig list \<Rightarrow> ('x sess_scheme, BackendConfig list) act" where
  "filter_compatible_backends [] = ret []"
| "filter_compatible_backends (b # bs) =
     (if bc_pair_code b = None then
        bind_a (filter_compatible_backends bs) (\<lambda>rest. ret (b # rest))
      else
        bind_a (check_proxy_compat (bc_addr b) (bc_pair_code b)) (\<lambda>compat.
        bind_a (filter_compatible_backends bs) (\<lambda>rest.
        ret (if ProxyCompat_is_ok compat then b # rest else rest))))"

section \<open>The initial poll\<close>

text \<open>A failed fetch counts as an empty list.\<close>

definition fetch_or_empty :: "BackendConfig \<Rightarrow> ('x sess_scheme, string) act" where
  "fetch_or_empty b =
     try_a (fetch_devices_l (bc_addr b) (bc_pair_code b)) (\<lambda>r. case r of Inr body \<Rightarrow> ret body | Inl _ \<Rightarrow> ret [])"

fun fetch_all :: "BackendConfig list \<Rightarrow> ('x sess_scheme, (BackendConfig \<times> string) list) act" where
  "fetch_all [] = ret []"
| "fetch_all (b # bs) =
     bind_a (fetch_or_empty b) (\<lambda>body. bind_a (fetch_all bs) (\<lambda>rest. ret ((b, body) # rest)))"

definition fill_missing :: "BackendConfig list \<Rightarrow> (BackendConfig \<times> string) list \<Rightarrow> (BackendConfig \<times> string) list" where
  "fill_missing backends lsts =
     fold (\<lambda>b ls. if \<exists>(c, _) \<in> set ls. bc_name c = bc_name b then ls else ls @ [(b, [])]) backends lsts"

record bsess = sess +
  b_registry :: DeviceRegistry
  b_shared :: "string \<rightharpoonup> BackendConfig \<times> string"

definition update_registry :: "(BackendConfig \<times> string) list \<Rightarrow> (bsess, unit) act" where
  "update_registry lsts s = (Inr (), s\<lparr>b_registry := update_from_backend_lists lsts (b_registry s)\<rparr>)"

definition poll_backends_once :: "BackendConfig list \<Rightarrow> (bsess, unit) act" where
  "poll_backends_once config_backends =
     bind_a (filter_compatible_backends config_backends) (\<lambda>backends.
     bind_a (fetch_all backends) (\<lambda>lsts.
     update_registry (fill_missing config_backends lsts)))"

section \<open>The poller\<close>

definition publish_shared :: "BackendConfig list \<Rightarrow> (bsess, unit) act" where
  "publish_shared order s =
     (if \<not> (\<forall>b \<in> set order. b_shared s (bc_name b) \<noteq> None) then (Inr (), s)
      else update_registry (map (\<lambda>b. the (b_shared s (bc_name b))) order) s)"

definition store_body :: "BackendConfig \<Rightarrow> string \<Rightarrow> (bsess, unit) act" where
  "store_body b body s = (Inr (), s\<lparr>b_shared := (b_shared s)(bc_name b \<mapsto> (b, body))\<rparr>)"

text \<open>One update by a watcher or a polling loop: store the new list, then publish.\<close>

definition store_publish :: "BackendConfig list \<Rightarrow> BackendConfig \<Rightarrow> string \<Rightarrow> (bsess, unit) act" where
  "store_publish order b body = then_a (store_body b body) (publish_shared order)"

text \<open>The start of \<^verbatim>\<open>run_backend_poller\<close>: the gate, the seeding of the shared table (incompatible
  backends empty), the first publication; the result is the list of backends that get a watcher.\<close>

fun seed_shared :: "string set \<Rightarrow> BackendConfig list \<Rightarrow> (bsess, unit) act" where
  "seed_shared names [] = ret ()"
| "seed_shared names (b # bs) =
     then_a (if bc_name b \<notin> names then store_body b []
             else bind_a (fetch_or_empty b) (store_body b))
       (seed_shared names bs)"

definition start_backend_poller :: "BackendConfig list \<Rightarrow> (bsess, BackendConfig list) act" where
  "start_backend_poller backends =
     bind_a (filter_compatible_backends backends) (\<lambda>compatible.
     then_a (seed_shared (set (map bc_name compatible)) backends)
    (then_a (publish_shared backends) (ret compatible)))"

definition probe_track_support :: "BackendConfig \<Rightarrow> ('x sess_scheme, bool) act" where
  "probe_track_support b =
     bind_a (backend_connect (bc_addr b) (bc_pair_code b)) (\<lambda>st0.
     on_up (write_service ''host:track-devices-l'') st0 (\<lambda>_ st1.
     on_up read_status st1 (\<lambda>status _. ret (status = ''OKAY''))))"

text \<open>The loop of one watcher connection, until reading fails.\<close>

function watch_loop :: "BackendConfig \<Rightarrow> BackendConfig list \<Rightarrow> conn \<Rightarrow> bsess \<Rightarrow> (io_error + unit) \<times> bsess" where
  "watch_loop b order st s =
     (case read_packet st of
        (Inl err, _) \<Rightarrow> (Inl err, s)
      | (Inr body, st') \<Rightarrow> watch_loop b order st' (snd (store_publish order b (utf8_lossy body) s)))"
  by pat_completeness auto
termination
proof (relation "measure (\<lambda>(_, _, st, _). length (rx st))")
  fix b :: BackendConfig and order and st st' :: conn and s t :: bsess and body p
  assume "(p, st') = read_packet st" "p = Inr body"
  then have "read_packet st = (Inr body, st')" by simp
  then show "((b, order, st', snd (store_publish order b (utf8_lossy body) s)), (b, order, st, s)) \<in> measure (\<lambda>(_, _, st, _). length (rx st))"
    by (auto simp: read_packet_Inr_iff)
qed simp

declare watch_loop.simps [simp del]

definition watch_track_devices :: "BackendConfig \<Rightarrow> BackendConfig list \<Rightarrow> (bsess, unit) act" where
  "watch_track_devices b order =
     bind_a (backend_connect (bc_addr b) (bc_pair_code b)) (\<lambda>st0.
     on_up (write_service ''host:track-devices-l'') st0 (\<lambda>_ st1.
     on_up read_status st1 (\<lambda>status st2.
     if status \<noteq> ''OKAY'' then
       (let reason = (if status = ''FAIL'' then unwrap_or [] (ok (fst (read_packet st2))) else status) in
        throw (IoErr OtherKind (''track-devices-l status '' @ utf8_lossy status @ '': '' @ utf8_lossy reason)))
     else watch_loop b order st2)))"

text \<open>One round of the fallback: fetch, store (an error counts as empty), publish.\<close>

definition fallback_poll :: "BackendConfig \<Rightarrow> BackendConfig list \<Rightarrow> (bsess, unit) act" where
  "fallback_poll b order = bind_a (fetch_or_empty b) (store_publish order b)"

section \<open>Lemmas\<close>

lemma store_publish_eq:
  "store_publish order b body s =
     (let sh = (b_shared s)(bc_name b \<mapsto> (b, body)) in
      (Inr (), if \<forall>c \<in> set order. sh (bc_name c) \<noteq> None
               then s\<lparr>b_shared := sh, b_registry := update_from_backend_lists (map (\<lambda>c. the (sh (bc_name c))) order) (b_registry s)\<rparr>
               else s\<lparr>b_shared := sh\<rparr>))"
  unfolding store_publish_def then_a_def bind_a_def store_body_def publish_shared_def update_registry_def Let_def
  by (auto simp del: fun_upd_apply)

text \<open>The shared table holds an entry of its own for every backend, and the registry is the merge
  of the whole table in configuration order.\<close>

definition table_ok :: "BackendConfig list \<Rightarrow> (string \<rightharpoonup> BackendConfig \<times> string) \<Rightarrow> bool" where
  "table_ok order sh \<longleftrightarrow> (\<forall>b \<in> set order. \<exists>body. sh (bc_name b) = Some (b, body))"

definition published :: "BackendConfig list \<Rightarrow> bsess \<Rightarrow> bool" where
  "published order s \<longleftrightarrow> table_ok order (b_shared s)
     \<and> dr_inner (b_registry s) = merge_device_lists (map (\<lambda>b. the (b_shared s (bc_name b))) order)"

lemma table_ok_update:
  assumes "table_ok order sh" "distinct (map bc_name order)" "b \<in> set order"
  shows "table_ok order (sh(bc_name b \<mapsto> (b, body)))"
  using assms by (auto simp: table_ok_def distinct_map inj_on_def)

lemma store_publish_published:
  assumes "table_ok order (b_shared s)" "distinct (map bc_name order)" "b \<in> set order"
  shows "published order (snd (store_publish order b body s))
    \<and> b_shared (snd (store_publish order b body s)) = (b_shared s)(bc_name b \<mapsto> (b, body))"
proof -
  note t = table_ok_update [OF assms, of body]
  then have "\<forall>c \<in> set order. ((b_shared s)(bc_name b \<mapsto> (b, body))) (bc_name c) \<noteq> None"
    unfolding table_ok_def by fastforce
  then show ?thesis
    using t by (simp add: store_publish_eq Let_def published_def update_from_backend_lists_def del: fun_upd_apply)
qed

lemma updates_published:
  assumes "published order s" "distinct (map bc_name order)" "\<forall>(b, body) \<in> set ups. b \<in> set order"
  shows "published order (fold (\<lambda>(b, body) s. snd (store_publish order b body s)) ups s)
    \<and> b_shared (fold (\<lambda>(b, body) s. snd (store_publish order b body s)) ups s)
        = b_shared s ++ map_of (rev (map (\<lambda>(b, body). (bc_name b, (b, body))) ups))"
  using assms(1,3)
proof (induction ups arbitrary: s)
  case (Cons u ups)
  obtain b body where u: "u = (b, body)" by (cases u)
  have "published order (snd (store_publish order b body s))
    \<and> b_shared (snd (store_publish order b body s)) = (b_shared s)(bc_name b \<mapsto> (b, body))"
    using Cons.prems assms(2) by (intro store_publish_published) (auto simp: published_def u)
  with Cons.IH [of "snd (store_publish order b body s)"] Cons.prems show ?case
    by (simp add: u map_add_def fun_eq_iff split: option.split)
qed simp

text \<open>Publications one after the other. Once the shared table is seeded, after any sequence of list
  updates for the configured backends, in any order, the registry is exactly the merge, in
  configuration order, of the latest list of every backend, as long as each publication is complete
  before the next one begins; Publishing has the publications that overlap.\<close>

theorem poller_latest:
  assumes "published order s" "distinct (map bc_name order)" "\<forall>(b, body) \<in> set ups. b \<in> set order"
  shows "dr_inner (b_registry (fold (\<lambda>(b, body) s. snd (store_publish order b body s)) ups s)) =
    merge_device_lists (map (\<lambda>b. case map_of (rev (map (\<lambda>(b, body). (bc_name b, (b, body))) ups)) (bc_name b) of
         Some e \<Rightarrow> e | None \<Rightarrow> the (b_shared s (bc_name b))) order)"
proof -
  let ?f = "fold (\<lambda>(b, body) s. snd (store_publish order b body s)) ups s"
  let ?m = "map_of (rev (map (\<lambda>(b, body). (bc_name b, (b, body))) ups))"
  have e: "(\<lambda>b. the (b_shared ?f (bc_name b))) = (\<lambda>b. case ?m (bc_name b) of Some e \<Rightarrow> e | None \<Rightarrow> the (b_shared s (bc_name b)))"
    using updates_published [OF assms] by (auto simp: fun_eq_iff map_add_def split: option.split)
  have "dr_inner (b_registry ?f) = merge_device_lists (map (\<lambda>b. the (b_shared ?f (bc_name b))) order)"
    using updates_published [OF assms] by (simp add: published_def)
  then show ?thesis unfolding e .
qed

definition demo_bsess :: bsess where
  "demo_bsess = \<lparr>cl = open_conn [], dialer = (\<lambda>_ _. Inl (IoErr ConnectionRefused ''Connection refused (os error 111)'')),
     dials = 0, spliced = [], b_registry = DeviceRegistry_new,
     b_shared = [''a'' \<mapsto> (demo_backend ''a'', []), ''b'' \<mapsto> (demo_backend ''b'', [])]\<rparr>"

lemma demo_published: "published [demo_backend ''a'', demo_backend ''b''] demo_bsess"
  by (simp add: published_def table_ok_def demo_bsess_def demo_backend_def DeviceRegistry_new_def empty_snapshot_def
      merge_device_lists_def parse_lists_def parse_body_def map_filter_simps)

theorem poller_latest_witness:
  "dr_inner (b_registry (fold (\<lambda>(b, body) s. snd (store_publish [demo_backend ''a'', demo_backend ''b''] b body s))
      [(demo_backend ''b'', ''X device''), (demo_backend ''a'', ''Y device''), (demo_backend ''b'', ''Z device'')] demo_bsess))
   = merge_device_lists [(demo_backend ''a'', ''Y device''), (demo_backend ''b'', ''Z device'')]"
proof -
  have d: "distinct (map bc_name [demo_backend ''a'', demo_backend ''b''])" by (simp add: demo_backend_def)
  have u: "\<forall>(b, body) \<in> set [(demo_backend ''b'', ''X device''), (demo_backend ''a'', ''Y device''), (demo_backend ''b'', ''Z device'')].
      b \<in> set [demo_backend ''a'', demo_backend ''b'']" by simp
  show ?thesis by (rule trans [OF poller_latest [OF demo_published d u]]) (simp add: demo_backend_def)
qed

section \<open>The version gate\<close>

lemma filter_compatible_keeps:
  "filter_compatible_backends bs s = (Inr out, s') \<Longrightarrow> set out \<subseteq> set bs \<and> {b \<in> set bs. bc_pair_code b = None} \<subseteq> set out"
proof (induction bs arbitrary: s out s')
  case (Cons b bs)
  show ?case
  proof (cases "bc_pair_code b = None")
    case True
    with Cons.prems obtain rest where "filter_compatible_backends bs s = (Inr rest, s')" "out = b # rest"
      by (auto simp: bind_a_cong_result)
    with Cons.IH show ?thesis by fastforce
  next
    case False
    with Cons.prems obtain c s1 rest where "filter_compatible_backends bs s1 = (Inr rest, s')"
      "out = (if ProxyCompat_is_ok c then b # rest else rest)"
      by (auto simp: bind_a_cong_result)
    from Cons.IH [OF this(1)] this(2) False show ?thesis by (auto split: if_splits)
  qed
qed simp

text \<open>Queries to backends leave everything alone that does not count connection attempts: they
  keep any view of the session that is blind to that count.\<close>

definition keeps :: "('s \<Rightarrow> 'v) \<Rightarrow> ('s, 'a) act \<Rightarrow> bool" where
  "keeps view m \<longleftrightarrow> (\<forall>s. view (snd (m s)) = view s)"

lemma keepsD: "keeps view m \<Longrightarrow> m s = (r, s') \<Longrightarrow> view s' = view s"
  unfolding keeps_def by (metis snd_conv)

lemma keeps_ret: "keeps view (ret x)" "keeps view (throw e)" "keeps view (lift_r r)"
  by (simp_all add: keeps_def)

lemma keeps_bind:
  assumes "keeps view m" "\<And>x. keeps view (f x)" shows "keeps view (bind_a m f)"
  using assms unfolding keeps_def bind_a_def by (auto split: prod.splits sum.splits) (metis snd_conv)+

lemma keeps_try:
  assumes "keeps view m" "\<And>r. keeps view (f r)" shows "keeps view (try_a m f)"
  using assms unfolding keeps_def try_a_def by (auto split: prod.splits) (metis snd_conv)+

lemma keeps_on_up: "(\<And>x u. keeps view (k x u)) \<Longrightarrow> keeps view (on_up m up k)"
  unfolding keeps_def on_up_def by (auto split: prod.splits sum.splits)

lemma keeps_if: "keeps view m \<Longrightarrow> keeps view n \<Longrightarrow> keeps view (if b then m else n)"
  by simp

lemmas keeps_rules = keeps_ret keeps_bind keeps_try keeps_on_up keeps_if

locale dial_blind =
  fixes view :: "'x sess_scheme \<Rightarrow> 'v"
  assumes blind: "view (s\<lparr>dials := n\<rparr>) = view s"
begin

lemma keeps_dial: "keeps view (dial a)"
  by (simp add: keeps_def dial_def blind)

lemma keeps_connect: "keeps view (backend_connect a c)"
  unfolding backend_connect_def by (cases c) (auto intro: keeps_rules keeps_dial simp del: act_unfold)

lemma keeps_query: "keeps view (query a c v)"
  unfolding query_def by (intro keeps_rules keeps_connect)

lemma keeps_fetch_devices: "keeps view (fetch_devices_l a c)"
  unfolding fetch_devices_l_def by (intro keeps_rules keeps_query)

lemma keeps_check: "keeps view (check_proxy_compat a c)"
proof -
  have "keeps view (fetch_proxy_version a c)"
    unfolding fetch_proxy_version_def by (cases c) (auto intro: keeps_rules keeps_query simp del: act_unfold)
  moreover have "keeps view (case r of Inr v \<Rightarrow> ret (evaluate_proxy_version v) | Inl err \<Rightarrow> ret (Unknown (err_msg err)))" for r
    by (cases r) (simp_all only: sum.case keeps_ret)
  ultimately show ?thesis unfolding check_proxy_compat_def by (intro keeps_try)
qed

lemma keeps_fetch: "keeps view (fetch_or_empty b)"
proof -
  have "keeps view (case r of Inr body \<Rightarrow> ret body | Inl _ \<Rightarrow> ret [])" for r :: "io_error + string"
    by (cases r) (simp_all only: sum.case keeps_ret)
  then show ?thesis unfolding fetch_or_empty_def by (intro keeps_try keeps_fetch_devices)
qed

lemma keeps_filter: "keeps view (filter_compatible_backends bs)"
proof (induction bs)
  case (Cons b bs)
  show ?case
    unfolding filter_compatible_backends.simps by (intro keeps_rules keeps_check Cons.IH)
qed (simp only: filter_compatible_backends.simps keeps_ret)

end

text \<open>The poller's table and registry are such views.\<close>

interpretation poller: dial_blind "\<lambda>s. (b_shared s, b_registry s)"
  by unfold_locales simp

lemma fetch_or_empty_Inr: "\<exists>body. fst (fetch_or_empty b s) = Inr body"
  by (auto simp: fetch_or_empty_def try_a_def split: prod.split sum.split)

lemma seed_step:
  "\<exists>body s1. (if bc_name b \<notin> names then store_body b [] else bind_a (fetch_or_empty b) (store_body b)) s = (Inr (), s1)
     \<and> b_registry s1 = b_registry s \<and> b_shared s1 = (b_shared s)(bc_name b \<mapsto> (b, body))
     \<and> (bc_name b \<notin> names \<longrightarrow> body = [])"
proof (cases "bc_name b \<in> names")
  case True
  obtain body s1 where f: "fetch_or_empty b s = (Inr body, s1)"
    using fetch_or_empty_Inr [of b s] by (metis prod.collapse)
  then have "b_shared s1 = b_shared s \<and> b_registry s1 = b_registry s"
    using keepsD [OF poller.keeps_fetch f] by simp
  with True f show ?thesis
    by (intro exI [of _ body] exI [of _ "s1\<lparr>b_shared := (b_shared s)(bc_name b \<mapsto> (b, body))\<rparr>"])
      (simp add: bind_a_def store_body_def)
qed (simp add: store_body_def)

lemma seed_shared_table:
  assumes "distinct (map bc_name bs)"
  shows "\<exists>s'. seed_shared names bs s = (Inr (), s') \<and> b_registry s' = b_registry s
    \<and> (\<forall>b \<in> set bs. \<exists>body. b_shared s' (bc_name b) = Some (b, body) \<and> (bc_name b \<notin> names \<longrightarrow> body = []))
    \<and> (\<forall>n. n \<notin> bc_name ` set bs \<longrightarrow> b_shared s' n = b_shared s n)"
  using assms
proof (induction bs arbitrary: s)
  case (Cons b bs)
  obtain body s1 where s1: "(if bc_name b \<notin> names then store_body b [] else bind_a (fetch_or_empty b) (store_body b)) s = (Inr (), s1)"
    "b_registry s1 = b_registry s" "b_shared s1 = (b_shared s)(bc_name b \<mapsto> (b, body))"
    "bc_name b \<notin> names \<longrightarrow> body = []" using seed_step by blast
  obtain s' where s': "seed_shared names bs s1 = (Inr (), s')" "b_registry s' = b_registry s1"
    "\<forall>c \<in> set bs. \<exists>body. b_shared s' (bc_name c) = Some (c, body) \<and> (bc_name c \<notin> names \<longrightarrow> body = [])"
    "\<forall>n. n \<notin> bc_name ` set bs \<longrightarrow> b_shared s' n = b_shared s1 n" using Cons.IH [of s1] Cons.prems by auto
  have "b_shared s' (bc_name b) = Some (b, body)" using s'(4) s1(3) Cons.prems by simp
  moreover have "seed_shared names (b # bs) s = (Inr (), s')"
    using s1(1) s'(1) by (simp add: then_a_def bind_a_def)
  ultimately show ?case using s' s1 by auto
qed simp

text \<open>A table in which only the compatible backends have anything listed.\<close>

definition gated :: "BackendConfig list \<Rightarrow> BackendConfig list \<Rightarrow> (string \<rightharpoonup> BackendConfig \<times> string) \<Rightarrow> bool" where
  "gated compatible bs sh \<longleftrightarrow>
     (\<forall>b \<in> set bs. \<exists>body. sh (bc_name b) = Some (b, body) \<and> (b \<notin> set compatible \<longrightarrow> body = []))"

lemma gated_devices:
  assumes "gated compatible bs sh" "d \<in> set (devices (merge_device_lists (map (\<lambda>b. the (sh (bc_name b))) bs)))"
  shows "\<exists>b \<in> set compatible. backend_name d = bc_name b \<and> backend_addr d = bc_addr b"
proof -
  from merge_entry_from_row [OF assms(2)] obtain b body where
    b: "(b, body) \<in> set (map (\<lambda>b. the (sh (bc_name b))) bs)" "body \<noteq> []" "backend_name d = bc_name b" "backend_addr d = bc_addr b"
    by blast
  then obtain c where "c \<in> set bs" "sh (bc_name c) = Some (b, body)" using assms(1) by (fastforce simp: gated_def)
  with assms(1) b(2) have "b \<in> set compatible" by (fastforce simp: gated_def)
  with b(3,4) show ?thesis by blast
qed

lemma gated_update:
  assumes "gated compatible bs sh" "distinct (map bc_name bs)" "b \<in> set compatible" "b \<in> set bs"
  shows "gated compatible bs (sh(bc_name b \<mapsto> (b, body)))"
  using assms by (auto simp: gated_def distinct_map inj_on_def)

lemma gated_updates:
  assumes "published bs s" "gated compatible bs (b_shared s)" "distinct (map bc_name bs)"
    "set compatible \<subseteq> set bs" "\<forall>(b, body) \<in> set ups. b \<in> set compatible"
  shows "published bs (fold (\<lambda>(b, body) s. snd (store_publish bs b body s)) ups s)
    \<and> gated compatible bs (b_shared (fold (\<lambda>(b, body) s. snd (store_publish bs b body s)) ups s))"
  using assms(1,2,5)
proof (induction ups arbitrary: s)
  case (Cons u ups)
  obtain b body where u: "u = (b, body)" by (cases u)
  have b: "b \<in> set compatible" "b \<in> set bs" using Cons.prems(3) assms(4) by (auto simp: u)
  have "published bs (snd (store_publish bs b body s))
    \<and> b_shared (snd (store_publish bs b body s)) = (b_shared s)(bc_name b \<mapsto> (b, body))"
    using Cons.prems(1) assms(3) b(2) by (intro store_publish_published) (auto simp: published_def)
  then show ?case
    using Cons.IH [of "snd (store_publish bs b body s)"] Cons.prems gated_update [OF Cons.prems(2) assms(3) b, of body]
    by (simp add: u del: fun_upd_apply)
qed simp

lemma poller_started:
  assumes "start_backend_poller bs s = (Inr compatible, s')" "distinct (map bc_name bs)"
  shows "published bs s' \<and> gated compatible bs (b_shared s') \<and> set compatible \<subseteq> set bs
    \<and> {b \<in> set bs. bc_pair_code b = None} \<subseteq> set compatible"
proof -
  obtain s1 where c: "filter_compatible_backends bs s = (Inr compatible, s1)"
    and r1: "then_a (seed_shared (set (map bc_name compatible)) bs) (then_a (publish_shared bs) (ret compatible)) s1 = (Inr compatible, s')"
    using assms(1) by (auto simp: start_backend_poller_def bind_a_cong_result then_a_result)
  note k = filter_compatible_keeps [OF c]
  obtain s2 where s2: "seed_shared (set (map bc_name compatible)) bs s1 = (Inr (), s2)"
    "\<forall>b \<in> set bs. \<exists>body. b_shared s2 (bc_name b) = Some (b, body) \<and> (bc_name b \<notin> set (map bc_name compatible) \<longrightarrow> body = [])"
    using seed_shared_table [OF assms(2)] by blast
  have g: "gated compatible bs (b_shared s2)"
    unfolding gated_def
  proof
    fix b assume b: "b \<in> set bs"
    with s2(2) obtain body where "b_shared s2 (bc_name b) = Some (b, body)" "bc_name b \<notin> set (map bc_name compatible) \<longrightarrow> body = []" by blast
    moreover have "bc_name b \<in> set (map bc_name compatible) \<Longrightarrow> b \<in> set compatible"
      using k b assms(2) by (auto simp: distinct_map inj_on_def)
    ultimately show "\<exists>body. b_shared s2 (bc_name b) = Some (b, body) \<and> (b \<notin> set compatible \<longrightarrow> body = [])" by blast
  qed
  have "s' = snd (publish_shared bs s2)"
    using r1 s2(1) by (auto simp: then_a_def bind_a_def publish_shared_def update_registry_def split: if_splits)
  moreover have "\<forall>b \<in> set bs. b_shared s2 (bc_name b) \<noteq> None" using s2(2) by fastforce
  ultimately have "b_shared s' = b_shared s2"
    "dr_inner (b_registry s') = merge_device_lists (map (\<lambda>b. the (b_shared s2 (bc_name b))) bs)"
    by (simp_all add: publish_shared_def update_registry_def update_from_backend_lists_def Let_def)
  then show ?thesis using s2(2) g k by (fastforce simp: published_def table_ok_def)
qed

text \<open>The version gate. When the poller has started, the shared table is complete and published;
  every device listed belongs to a backend that was kept by the gate; and the gate keeps every backend
  without a pair code and invents none.\<close>

theorem poller_start_gated:
  assumes "start_backend_poller bs s = (Inr compatible, s')" "distinct (map bc_name bs)"
  shows "published bs s' \<and> set compatible \<subseteq> set bs \<and> {b \<in> set bs. bc_pair_code b = None} \<subseteq> set compatible
    \<and> (\<forall>d \<in> set (devices (dr_inner (b_registry s'))). \<exists>b \<in> set compatible. backend_name d = bc_name b \<and> backend_addr d = bc_addr b)"
  using poller_started [OF assms] gated_devices by (auto simp: published_def)

definition gate_demo :: bsess where
  "gate_demo = demo_bsess\<lparr>b_shared := Map.empty\<rparr>"

definition remote :: BackendConfig where
  "remote = (demo_backend ''r'')\<lparr>bc_pair_code := Some ''ABCD1234''\<rparr>"

lemma gate_demo_start:
  "\<exists>s'. start_backend_poller [demo_backend ''a'', remote] gate_demo = (Inr [demo_backend ''a''], s')"
proof -
  have "fst (start_backend_poller [demo_backend ''a'', remote] gate_demo) = Inr [demo_backend ''a'']"
    by (simp add: start_backend_poller_def bind_a_def then_a_def check_proxy_compat_def fetch_proxy_version_def query_def
        backend_connect_def dial_def gate_demo_def demo_bsess_def try_a_def remote_def demo_backend_def ProxyCompat_is_ok_def
        store_body_def fetch_or_empty_def fetch_devices_l_def publish_shared_def update_registry_def)
  then show ?thesis by (metis prod.collapse)
qed

theorem poller_start_gated_witness:
  "\<exists>s'. start_backend_poller [demo_backend ''a'', remote] gate_demo = (Inr [demo_backend ''a''], s')
     \<and> published [demo_backend ''a'', remote] s'"
proof -
  have d: "distinct (map bc_name [demo_backend ''a'', remote])" by (simp add: remote_def demo_backend_def)
  obtain s' where s: "start_backend_poller [demo_backend ''a'', remote] gate_demo = (Inr [demo_backend ''a''], s')"
    using gate_demo_start by blast
  from poller_start_gated [OF this d] this show ?thesis by metis
qed

text \<open>A backend that fails the version check when the poller starts (for instance because it cannot
  be reached at that moment) stays without devices: only the backends kept by the gate are watched, and
  whatever their watchers report, one after the other, no device of another backend is ever listed.\<close>

theorem rejected_backend_never_listed:
  assumes "start_backend_poller bs s = (Inr compatible, s')" "distinct (map bc_name bs)"
    and "\<forall>(b, body) \<in> set ups. b \<in> set compatible"
    and "d \<in> set (devices (dr_inner (b_registry (fold (\<lambda>(b, body) s. snd (store_publish bs b body s)) ups s'))))"
  shows "\<exists>b \<in> set compatible. backend_name d = bc_name b \<and> backend_addr d = bc_addr b"
proof -
  note st = poller_started [OF assms(1,2)]
  have "published bs (fold (\<lambda>(b, body) s. snd (store_publish bs b body s)) ups s')
    \<and> gated compatible bs (b_shared (fold (\<lambda>(b, body) s. snd (store_publish bs b body s)) ups s'))"
    using st assms(2,3) by (intro gated_updates) auto
  then show ?thesis using assms(4) gated_devices by (auto simp: published_def)
qed

theorem rejected_backend_never_listed_witness:
  "\<exists>s'. \<forall>d \<in> set (devices (dr_inner (b_registry (snd (store_publish [demo_backend ''a'', remote] (demo_backend ''a'') ''S device'' s'))))).
     backend_name d = ''a''"
proof -
  obtain s' where s: "start_backend_poller [demo_backend ''a'', remote] gate_demo = (Inr [demo_backend ''a''], s')"
    using gate_demo_start by blast
  have d: "distinct (map bc_name [demo_backend ''a'', remote])" by (simp add: remote_def demo_backend_def)
  have u: "\<forall>(b, body) \<in> set [(demo_backend ''a'', ''S device'')]. b \<in> set [demo_backend ''a'']" by simp
  from rejected_backend_never_listed [OF s d u] show ?thesis by (intro exI [of _ s']) (auto simp: demo_backend_def)
qed

end
