(* ===== verification/Tenant.thy ===== *)
theory Tenant
  imports Registry
begin

text \<open>
  The multi-tenant registry of src/tenant.rs: the devices shared by all users, the private
  devices each user's agent published, and the view of one user. The \<^verbatim>\<open>broadcast\<close> sender is
  the count of notifications. \<open>debug_assert!\<close> is compiled out of release builds; its condition
  is the predicate \<open>agent_devices_ok\<close>.

  The locale \<open>tenant_store\<close> is the contract the daemon relies on: what each operation does to
  a user's view. Non-interference between users is proved from the contract alone.
\<close>

section \<open>Definitions\<close>

type_synonym Uid = u32

record TenantRegistry =
  tr_shared :: DeviceSnapshot
  tr_private :: "Uid \<rightharpoonup> DeviceSnapshot"
  tr_notified :: nat

definition TenantRegistry_new :: TenantRegistry where
  "TenantRegistry_new = \<lparr>tr_shared = empty_snapshot, tr_private = Map.empty, tr_notified = 0\<rparr>"

definition notify_if :: "bool \<Rightarrow> TenantRegistry \<Rightarrow> TenantRegistry" where
  "notify_if changed t = (if changed then t\<lparr>tr_notified := Suc (tr_notified t)\<rparr> else t)"

definition update_shared :: "DeviceSnapshot \<Rightarrow> TenantRegistry \<Rightarrow> TenantRegistry" where
  "update_shared snap t =
     (let changed = devices (tr_shared t) \<noteq> devices snap in notify_if changed (t\<lparr>tr_shared := snap\<rparr>))"

definition update_shared_from_lists :: "(BackendConfig \<times> string) list \<Rightarrow> TenantRegistry \<Rightarrow> TenantRegistry" where
  "update_shared_from_lists lsts t = update_shared (merge_device_lists lsts) t"

definition agent_devices_ok :: "DeviceSnapshot \<Rightarrow> bool" where
  "agent_devices_ok snap \<longleftrightarrow> (\<forall>d \<in> set (devices snap). route_id d \<noteq> None \<and> pair_code d = None)"

definition update_agent_devices :: "Uid \<Rightarrow> DeviceSnapshot \<Rightarrow> TenantRegistry \<Rightarrow> TenantRegistry" where
  "update_agent_devices uid snap t =
     (let changed = unwrap_or True (map_option (\<lambda>prev. devices prev \<noteq> devices snap) (tr_private t uid))
      in notify_if changed (t\<lparr>tr_private := (tr_private t)(uid \<mapsto> snap)\<rparr>))"

definition remove_agent :: "Uid \<Rightarrow> TenantRegistry \<Rightarrow> TenantRegistry" where
  "remove_agent uid t =
     (if tr_private t uid \<noteq> None then notify_if True (t\<lparr>tr_private := (tr_private t)(uid := None)\<rparr>) else t)"

definition snapshot_for :: "Uid \<Rightarrow> TenantRegistry \<Rightarrow> DeviceSnapshot" where
  "snapshot_for uid t =
     (let ds = devices (tr_shared t) in
      \<lparr>devices = (case tr_private t uid of None \<Rightarrow> ds | Some p \<Rightarrow> ds @ devices p)\<rparr>)"

definition snapshot_shared :: "TenantRegistry \<Rightarrow> DeviceSnapshot" where
  "snapshot_shared t = tr_shared t"

definition has_agent :: "Uid \<Rightarrow> TenantRegistry \<Rightarrow> bool" where
  "has_agent uid t \<longleftrightarrow> tr_private t uid \<noteq> None"

text \<open>The operations as data, to speak about arbitrary interleavings of the poller and the
  agents' read loops.\<close>

datatype tenant_op =
    OpShared "(BackendConfig \<times> string) list"
  | OpAgent Uid DeviceSnapshot
  | OpRemove Uid

primrec run_op :: "tenant_op \<Rightarrow> TenantRegistry \<Rightarrow> TenantRegistry" where
  "run_op (OpShared lsts) = update_shared_from_lists lsts"
| "run_op (OpAgent uid snap) = update_agent_devices uid snap"
| "run_op (OpRemove uid) = remove_agent uid"

text \<open>The operations that concern a user: those on the shared list and the user's own.\<close>

primrec concerns :: "Uid \<Rightarrow> tenant_op \<Rightarrow> bool" where
  "concerns u (OpShared lsts) = True"
| "concerns u (OpAgent uid snap) = (uid = u)"
| "concerns u (OpRemove uid) = (uid = u)"

section \<open>The contract\<close>

locale tenant_store =
  fixes run :: "'op \<Rightarrow> 't \<Rightarrow> 't"
    and about :: "'u \<Rightarrow> 'op \<Rightarrow> bool"
    and own :: "'u \<Rightarrow> 't \<Rightarrow> 'v"
    and pub :: "'t \<Rightarrow> 'p"
  assumes about_local: "about u op \<Longrightarrow> own u t = own u t' \<Longrightarrow> pub t = pub t'
      \<Longrightarrow> own u (run op t) = own u (run op t') \<and> pub (run op t) = pub (run op t')"
    and others: "\<not> about u op \<Longrightarrow> own u (run op t) = own u t \<and> pub (run op t) = pub t"
begin

text \<open>Two stores a user cannot tell apart stay so under any operations, even when the
  operations of other users are left out on one side.\<close>

lemma noninterference:
  "own u t = own u t' \<Longrightarrow> pub t = pub t' \<Longrightarrow>
     own u (fold run ops t) = own u (fold run (filter (about u) ops) t')
     \<and> pub (fold run ops t) = pub (fold run (filter (about u) ops) t')"
proof (induction ops arbitrary: t t')
  case (Cons op ops)
  show ?case
  proof (cases "about u op")
    case True
    then show ?thesis using about_local [OF True Cons.prems] Cons.IH by simp
  next
    case False
    then show ?thesis using others [OF False, of t] Cons.IH [of "run op t" t'] Cons.prems by simp
  qed
qed simp

end

lemma notify_if_sel [simp]:
  "tr_shared (notify_if b t) = tr_shared t" "tr_private (notify_if b t) = tr_private t"
  by (simp_all add: notify_if_def)

lemma notify_if_count [simp]: "tr_notified (notify_if b t) = (if b then Suc (tr_notified t) else tr_notified t)"
  by (simp add: notify_if_def)

lemmas tenant_defs = update_shared_from_lists_def update_shared_def update_agent_devices_def
  remove_agent_def Let_def

interpretation tenants: tenant_store run_op concerns "\<lambda>u t. tr_private t u" tr_shared
proof unfold_locales
  fix u op and t t' :: TenantRegistry
  assume "concerns u op" "tr_private t u = tr_private t' u" "tr_shared t = tr_shared t'"
  then show "tr_private (run_op op t) u = tr_private (run_op op t') u \<and> tr_shared (run_op op t) = tr_shared (run_op op t')"
    by (cases op) (auto simp: tenant_defs)
next
  fix u op and t :: TenantRegistry
  assume "\<not> concerns u op"
  then show "tr_private (run_op op t) u = tr_private t u \<and> tr_shared (run_op op t) = tr_shared t"
    by (cases op) (auto simp: tenant_defs)
qed

lemma snapshot_for_cong:
  "tr_private t u = tr_private t' u \<Longrightarrow> tr_shared t = tr_shared t' \<Longrightarrow> snapshot_for u t = snapshot_for u t'"
  by (simp add: snapshot_for_def)

text \<open>The specification in the source: shared devices followed by the user's own.\<close>

lemma snapshot_for_eq:
  "devices (snapshot_for u t) = devices (tr_shared t) @ (case tr_private t u of None \<Rightarrow> [] | Some p \<Rightarrow> devices p)"
  by (simp add: snapshot_for_def Let_def split: option.split)

lemma view_change_notifies:
  "snapshot_for u (run_op op t) \<noteq> snapshot_for u t \<Longrightarrow> tr_notified (run_op op t) = Suc (tr_notified t)"
  by (cases op) (auto simp: tenant_defs snapshot_for_def split: option.splits if_splits)

lemma notified_mono: "tr_notified t \<le> tr_notified (fold run_op ops t)"
proof (induction ops arbitrary: t)
  case (Cons op ops)
  have "tr_notified t \<le> tr_notified (run_op op t)" by (cases op) (auto simp: tenant_defs)
  with Cons [of "run_op op t"] show ?case by simp
qed simp

section \<open>Properties\<close>

text \<open>Tenant isolation. After any interleaving of registry operations the view of a user is
  the same as if all operations of other users' agents had never happened.\<close>

theorem tenant_isolation:
  "snapshot_for u (fold run_op ops t) = snapshot_for u (fold run_op (filter (concerns u) ops) t)"
  using tenants.noninterference [of t u t ops] by (intro snapshot_for_cong) auto

text \<open>No missed wake-ups. If a user's view differs before and after a sequence of operations,
  at least one notification was sent in between; so a tracking client that re-reads its view on
  every notification ends up with the current one.\<close>

theorem tenant_change_notified:
  assumes "snapshot_for u (fold run_op ops t) \<noteq> snapshot_for u t"
  shows "tr_notified t < tr_notified (fold run_op ops t)"
  using assms
proof (induction ops arbitrary: t)
  case (Cons op ops)
  show ?case
  proof (cases "snapshot_for u (run_op op t) = snapshot_for u t")
    case True
    then have "tr_notified (run_op op t) < tr_notified (fold run_op ops (run_op op t))"
      using Cons.IH [of "run_op op t"] Cons.prems by simp
    moreover have "tr_notified t \<le> tr_notified (run_op op t)" using notified_mono [of t "[op]"] by simp
    ultimately show ?thesis by simp
  next
    case False
    from view_change_notifies [OF this] notified_mono [of "run_op op t" ops] show ?thesis by simp
  qed
qed simp

theorem tenant_change_notified_witness:
  "tr_notified TenantRegistry_new < tr_notified (fold run_op [OpAgent 7 demo_snapshot, OpAgent 9 empty_snapshot] TenantRegistry_new)"
  by (rule tenant_change_notified [of 7])
    (simp add: TenantRegistry_new_def tenant_defs snapshot_for_def demo_snapshot_def empty_snapshot_def)

end
