(* ===== verification/Ipc.thy ===== *)
theory Ipc
  imports Tenant
begin

text \<open>
  The agent/daemon protocol of src/ipc.rs: big-endian length, type byte, payload. The JSON
  encoding of control messages is the \<^verbatim>\<open>serde_json\<close> library's; its encoder and decoder for each
  message type are the fields of the argument \<open>js\<close>, and \<open>json_ok\<close> is the documented fact that
  a derived decoder inverts the derived encoder.

  The framing interprets the locale \<open>framed\<close>, so that sequences of messages are read back in
  order.
\<close>

section \<open>Definitions\<close>

definition DEFAULT_CONTROL_ABSTRACT :: string where
  "DEFAULT_CONTROL_ABSTRACT = ''adb-hubd''"

definition PROTOCOL_VERSION :: u32 where
  "PROTOCOL_VERSION = 1"

datatype MsgType =
    MtRegisterAgent | MtDeviceSnapshot | MtDeviceSnapshotChanged | MtOpenPrivateStream
  | MtOpenResult | MtStreamData | MtStreamClose | MtPing | MtPong

primrec MsgType_u8 :: "MsgType \<Rightarrow> u8" where
  "MsgType_u8 MtRegisterAgent = 1"
| "MsgType_u8 MtDeviceSnapshot = 2"
| "MsgType_u8 MtDeviceSnapshotChanged = 3"
| "MsgType_u8 MtOpenPrivateStream = 4"
| "MsgType_u8 MtOpenResult = 5"
| "MsgType_u8 MtStreamData = 6"
| "MsgType_u8 MtStreamClose = 7"
| "MsgType_u8 MtPing = 8"
| "MsgType_u8 MtPong = 9"

definition MsgType_from_u8 :: "u8 \<Rightarrow> MsgType option" where
  "MsgType_from_u8 v =
     (if v = 1 then Some MtRegisterAgent
      else if v = 2 then Some MtDeviceSnapshot
      else if v = 3 then Some MtDeviceSnapshotChanged
      else if v = 4 then Some MtOpenPrivateStream
      else if v = 5 then Some MtOpenResult
      else if v = 6 then Some MtStreamData
      else if v = 7 then Some MtStreamClose
      else if v = 8 then Some MtPing
      else if v = 9 then Some MtPong
      else None)"

record SanitizedDevice =
  sd_public_serial :: string
  sd_upstream_serial :: string
  sd_state :: string
  sd_extras :: string
  sd_backend_name :: string
  sd_route_id :: string

record RegisterAgent =
  ra_version :: u32
  ra_capabilities :: "string list"
  ra_instance_token :: string

record DeviceSnapshotMsg =
  ds_generation :: u64
  ds_devices :: "SanitizedDevice list"

record OpenPrivateStream =
  op_stream_id :: u32
  op_route_id :: string
  op_service :: string

record OpenResult =
  or_stream_id :: u32
  or_ok :: bool
  or_fail_reason :: "string option"

record StreamClose =
  sc_stream_id :: u32
  sc_reason :: string

datatype IpcMessage =
    MRegisterAgent RegisterAgent
  | MDeviceSnapshot DeviceSnapshotMsg
  | MDeviceSnapshotChanged DeviceSnapshotMsg
  | MOpenPrivateStream OpenPrivateStream
  | MOpenResult OpenResult
  | MStreamData u32 bytes
  | MStreamClose StreamClose
  | MPing
  | MPong

text \<open>The JSON library, per message type.\<close>

record json =
  j_register :: "RegisterAgent \<Rightarrow> string + bytes"
  j_snapshot :: "DeviceSnapshotMsg \<Rightarrow> string + bytes"
  j_open :: "OpenPrivateStream \<Rightarrow> string + bytes"
  j_result :: "OpenResult \<Rightarrow> string + bytes"
  j_close :: "StreamClose \<Rightarrow> string + bytes"
  p_register :: "bytes \<Rightarrow> string + RegisterAgent"
  p_snapshot :: "bytes \<Rightarrow> string + DeviceSnapshotMsg"
  p_open :: "bytes \<Rightarrow> string + OpenPrivateStream"
  p_result :: "bytes \<Rightarrow> string + OpenResult"
  p_close :: "bytes \<Rightarrow> string + StreamClose"

definition invalid_data :: "string \<Rightarrow> io_error" where
  "invalid_data msg = IoErr InvalidData msg"

text \<open>\<^verbatim>\<open>to_json\<close> and \<^verbatim>\<open>from_json\<close>: the library call with its error mapped.\<close>

definition to_json :: "('a \<Rightarrow> string + bytes) \<Rightarrow> 'a \<Rightarrow> io_error + bytes" where
  "to_json f v = map_err invalid_data (f v)"

definition from_json :: "(bytes \<Rightarrow> string + 'a) \<Rightarrow> bytes \<Rightarrow> io_error + 'a" where
  "from_json f payload = map_err invalid_data (f payload)"

text \<open>\<^verbatim>\<open>u32::to_be_bytes\<close> and \<^verbatim>\<open>u32::from_be_bytes\<close>.\<close>

definition be32 :: "u32 \<Rightarrow> bytes" where
  "be32 w = map (\<lambda>k. char_of (unat w div 256 ^ k mod 256)) [3, 2, 1, 0]"

definition from_be32 :: "bytes \<Rightarrow> u32" where
  "from_be32 b = word_of_nat (foldl (\<lambda>a c. a * 256 + byte_val c) 0 b)"

definition encode_message :: "json \<Rightarrow> IpcMessage \<Rightarrow> io_error + MsgType \<times> bytes" where
  "encode_message js msg =
     (let tag = (\<lambda>ty r. bind_r r (\<lambda>b. Inr (ty, b))) in
      case msg of
        MRegisterAgent m \<Rightarrow> tag MtRegisterAgent (to_json (j_register js) m)
      | MDeviceSnapshot m \<Rightarrow> tag MtDeviceSnapshot (to_json (j_snapshot js) m)
      | MDeviceSnapshotChanged m \<Rightarrow> tag MtDeviceSnapshotChanged (to_json (j_snapshot js) m)
      | MOpenPrivateStream m \<Rightarrow> tag MtOpenPrivateStream (to_json (j_open js) m)
      | MOpenResult m \<Rightarrow> tag MtOpenResult (to_json (j_result js) m)
      | MStreamData stream_id data \<Rightarrow> Inr (MtStreamData, be32 stream_id @ data)
      | MStreamClose m \<Rightarrow> tag MtStreamClose (to_json (j_close js) m)
      | MPing \<Rightarrow> Inr (MtPing, [])
      | MPong \<Rightarrow> Inr (MtPong, []))"

definition decode_message :: "json \<Rightarrow> MsgType \<Rightarrow> bytes \<Rightarrow> io_error + IpcMessage" where
  "decode_message js ty payload =
     (case ty of
        MtRegisterAgent \<Rightarrow> bind_r (from_json (p_register js) payload) (\<lambda>m. Inr (MRegisterAgent m))
      | MtDeviceSnapshot \<Rightarrow> bind_r (from_json (p_snapshot js) payload) (\<lambda>m. Inr (MDeviceSnapshot m))
      | MtDeviceSnapshotChanged \<Rightarrow> bind_r (from_json (p_snapshot js) payload) (\<lambda>m. Inr (MDeviceSnapshotChanged m))
      | MtOpenPrivateStream \<Rightarrow> bind_r (from_json (p_open js) payload) (\<lambda>m. Inr (MOpenPrivateStream m))
      | MtOpenResult \<Rightarrow> bind_r (from_json (p_result js) payload) (\<lambda>m. Inr (MOpenResult m))
      | MtStreamData \<Rightarrow>
          (if length payload < 4 then Inl (IoErr InvalidData ''StreamData too short'')
           else Inr (MStreamData (from_be32 (take 4 payload)) (drop 4 payload)))
      | MtStreamClose \<Rightarrow> bind_r (from_json (p_close js) payload) (\<lambda>m. Inr (MStreamClose m))
      | MtPing \<Rightarrow> Inr MPing
      | MtPong \<Rightarrow> Inr MPong)"

definition byte_char :: "u8 \<Rightarrow> char" where
  "byte_char v = char_of (unat v)"

definition write_message :: "json \<Rightarrow> IpcMessage \<Rightarrow> (conn, unit) act" where
  "write_message js msg =
     bind_a (lift_r (encode_message js msg)) (\<lambda>(ty, payload).
     let len = (word_of_nat (1 + length payload) :: u32) in
     then_a (write_all (be32 len))
    (then_a (write_all [byte_char (MsgType_u8 ty)])
    (then_a (write_all payload) flush)))"

definition MAX_FRAME :: nat where
  "MAX_FRAME = 16 * 1024 * 1024"

definition read_message :: "json \<Rightarrow> (conn, IpcMessage) act" where
  "read_message js =
     bind_a (read_exact 4) (\<lambda>len_buf.
     let len = unat (from_be32 len_buf) in
     if len = 0 then throw (IoErr InvalidData ''empty IPC frame'')
     else if len > MAX_FRAME then throw (IoErr InvalidData (''IPC frame too large: '' @ dec len))
     else
     bind_a (read_exact len) (\<lambda>body.
     bind_a (lift_r (ok_or (MsgType_from_u8 (word_of_nat (byte_val (hd body))))
               (IoErr InvalidData (''unknown IPC type '' @ dec (byte_val (hd body)))))) (\<lambda>ty.
     lift_r (decode_message js ty (tl body)))))"

definition sanitized_to_snapshot :: "SanitizedDevice list \<Rightarrow> DeviceSnapshot" where
  "sanitized_to_snapshot ds =
     \<lparr>devices = map (\<lambda>d.
        \<lparr>public_serial = sd_public_serial d, upstream_serial = sd_upstream_serial d,
         dev_state = sd_state d, extras = sd_extras d, backend_name = sd_backend_name d,
         backend_addr = localhost 0, pair_code = None, route_id = Some (sd_route_id d)\<rparr>) ds\<rparr>"

section \<open>Integers in big-endian order\<close>

lemma length_be32 [simp]: "length (be32 w) = 4"
  by (simp add: be32_def)

lemma four_digits:
  fixes n :: nat
  assumes "n < 2 ^ 32"
  shows "((n div 256 ^ 3 mod 256 * 256 + n div 256 ^ 2 mod 256) * 256 + n div 256 mod 256) * 256 + n mod 256 = n"
proof -
  define a where "a = n div 256"
  define b where "b = a div 256"
  define c where "c = b div 256"
  have e: "n div 256 ^ 2 = b" "n div 256 ^ 3 = c"
    by (simp_all add: a_def b_def c_def div_mult2_eq [symmetric])
  have "c < 256" using assms by (simp add: a_def b_def c_def div_mult2_eq [symmetric] less_mult_imp_div_less)
  moreover have "b = c * 256 + b mod 256" "a = b * 256 + a mod 256" "n = a * 256 + n mod 256"
    by (simp_all add: a_def b_def c_def)
  ultimately show ?thesis unfolding e a_def [symmetric] by simp
qed

lemma from_be32_be32 [simp]: "from_be32 (be32 w) = w"
proof -
  have "unat w < 2 ^ LENGTH(32)" by (rule unsigned_less)
  then have "unat w < 2 ^ 32" by simp
  moreover from this have "unat w div 256 ^ 3 mod 256 = unat w div 256 ^ 3" by (simp add: less_mult_imp_div_less)
  moreover note four_digits [OF \<open>unat w < 2 ^ 32\<close>]
  ultimately have "foldl (\<lambda>a c. a * 256 + byte_val c) 0 (be32 w) = unat w" by (simp add: be32_def of_char_of)
  then show ?thesis unfolding from_be32_def by simp
qed

lemma MsgType_from_to [simp]: "MsgType_from_u8 (MsgType_u8 ty) = Some ty"
  by (cases ty) (simp_all add: MsgType_from_u8_def)

lemma byte_char_val [simp]: "byte_val (byte_char v) = unat v"
proof -
  have "unat v < 2 ^ LENGTH(8)" by (rule unsigned_less)
  then show ?thesis by (simp add: byte_char_def of_char_of)
qed

section \<open>Framing\<close>

definition ipc_frame :: "json \<Rightarrow> IpcMessage \<Rightarrow> bytes" where
  "ipc_frame js msg = (case encode_message js msg of
     Inl _ \<Rightarrow> [] | Inr (ty, payload) \<Rightarrow> be32 (word_of_nat (1 + length payload)) @ [byte_char (MsgType_u8 ty)] @ payload)"

definition fits_ipc :: "json \<Rightarrow> IpcMessage \<Rightarrow> bool" where
  "fits_ipc js msg = (case encode_message js msg of
     Inl _ \<Rightarrow> False | Inr (ty, payload) \<Rightarrow> 1 + length payload \<le> MAX_FRAME \<and> decode_message js ty payload = Inr msg)"

text \<open>What the JSON library is relied on for.\<close>

definition json_ok :: "json \<Rightarrow> bool" where
  "json_ok js \<longleftrightarrow>
     (\<forall>m b. j_register js m = Inr b \<longrightarrow> p_register js b = Inr m)
   \<and> (\<forall>m b. j_snapshot js m = Inr b \<longrightarrow> p_snapshot js b = Inr m)
   \<and> (\<forall>m b. j_open js m = Inr b \<longrightarrow> p_open js b = Inr m)
   \<and> (\<forall>m b. j_result js m = Inr b \<longrightarrow> p_result js b = Inr m)
   \<and> (\<forall>m b. j_close js m = Inr b \<longrightarrow> p_close js b = Inr m)"

lemma decode_encode:
  assumes "json_ok js" "encode_message js msg = Inr (ty, payload)"
  shows "decode_message js ty payload = Inr msg"
  using assms
  by (cases msg) (auto simp: encode_message_def decode_message_def json_ok_def to_json_def from_json_def bind_r_Inr_iff)

lemma fits_ipc_json:
  "json_ok js \<Longrightarrow> encode_message js msg = Inr (ty, payload) \<Longrightarrow> 1 + length payload \<le> MAX_FRAME \<Longrightarrow> fits_ipc js msg"
  by (simp add: fits_ipc_def decode_encode)

lemma unat_small32: "n \<le> MAX_FRAME \<Longrightarrow> unat (word_of_nat n :: u32) = n"
  by (simp add: unat_of_nat MAX_FRAME_def)

lemma read_message_frame:
  assumes "fits_ipc js msg" "rx c = ipc_frame js msg @ r"
  shows "read_message js c = (Inr msg, c\<lparr>rx := r\<rparr>)"
proof -
  obtain ty payload where e: "encode_message js msg = Inr (ty, payload)" "1 + length payload \<le> MAX_FRAME"
    "decode_message js ty payload = Inr msg"
    using assms(1) by (auto simp: fits_ipc_def split: sum.splits)
  have u: "unat (word_of_nat (1 + length payload) :: u32) = Suc (length payload)"
    using unat_small32 [OF e(2)] by simp
  have "rx c = be32 (word_of_nat (1 + length payload)) @ (byte_char (MsgType_u8 ty) # payload) @ r"
    using assms(2) e(1) by (simp add: ipc_frame_def)
  then have r1: "read_exact 4 c = (Inr (be32 (word_of_nat (1 + length payload))), c\<lparr>rx := (byte_char (MsgType_u8 ty) # payload) @ r\<rparr>)"
    by (intro read_exact_append) simp_all
  have r2: "read_exact (Suc (length payload)) (c\<lparr>rx := (byte_char (MsgType_u8 ty) # payload) @ r\<rparr>)
    = (Inr (byte_char (MsgType_u8 ty) # payload), c\<lparr>rx := r\<rparr>)"
    by (subst read_exact_append [of _ "byte_char (MsgType_u8 ty) # payload" r]) simp_all
  show ?thesis
    unfolding read_message_def using e(2,3) r1 r2 u
    by (simp add: bind_a_def Let_def del: of_nat_Suc)
qed

interpretation ipc: framed "ipc_frame js" "read_message js" "fits_ipc js" for js
  by unfold_locales (rule read_message_frame)

lemma write_message_tx:
  assumes "tx_room c = None" "encode_message js msg = Inr (ty, payload)"
  shows "write_message js msg c = (Inr (), c\<lparr>tx := tx c @ ipc_frame js msg\<rparr>)"
  using assms by (simp add: write_message_def bind_a_def then_a_def write_all_unlimited ipc_frame_def Let_def)

fun write_messages :: "json \<Rightarrow> IpcMessage list \<Rightarrow> (conn, unit) act" where
  "write_messages js [] = ret ()"
| "write_messages js (m # ms) = then_a (write_message js m) (write_messages js ms)"

lemma write_messages_tx:
  assumes "tx_room c = None" "\<forall>m \<in> set ms. fits_ipc js m"
  shows "write_messages js ms c = (Inr (), c\<lparr>tx := tx c @ concat (map (ipc_frame js) ms)\<rparr>)"
  using assms
proof (induction ms arbitrary: c)
  case (Cons m ms)
  obtain ty payload where "encode_message js m = Inr (ty, payload)"
    using Cons.prems(2) by (auto simp: fits_ipc_def split: sum.splits)
  from write_message_tx [OF Cons.prems(1) this] Cons show ?case by (simp add: then_a_def bind_a_def)
qed simp

lemma sanitized_agent_ok: "agent_devices_ok (sanitized_to_snapshot ds)"
  by (auto simp: agent_devices_ok_def sanitized_to_snapshot_def)

section \<open>Properties\<close>

text \<open>C36: Message streams round-trip. Messages written one after another on a connection are read
  by the peer as exactly those messages in that order, with nothing left over, provided the JSON
  library inverts itself and each frame respects the reader's 16 MiB limit.\<close>

theorem ipc_stream_roundtrip:
  assumes "json_ok js"
    and "\<forall>m \<in> set ms. \<exists>ty p. encode_message js m = Inr (ty, p) \<and> 1 + length p \<le> MAX_FRAME"
  shows "\<exists>c. write_messages js ms (open_conn []) = (Inr (), c)
    \<and> read_frames (read_message js) (length ms) (open_conn (tx c)) = (Inr ms, open_conn [])"
proof -
  have f: "\<forall>m \<in> set ms. fits_ipc js m" using assms fits_ipc_json by blast
  let ?c = "(open_conn [])\<lparr>tx := concat (map (ipc_frame js) ms)\<rparr>"
  have w: "write_messages js ms (open_conn []) = (Inr (), ?c)"
    using write_messages_tx [OF _ f, of "open_conn []"] by simp
  have "read_frames (read_message js) (length ms) (open_conn (tx ?c)) = (Inr ms, (open_conn (tx ?c))\<lparr>rx := []\<rparr>)"
    using f by (intro ipc.read_all) (simp_all add: list_all_iff)
  then have "read_frames (read_message js) (length ms) (open_conn (tx ?c)) = (Inr ms, open_conn [])"
    by (simp add: open_conn_def)
  with w show ?thesis by blast
qed

text \<open>A codec for the witnesses: stream-close messages as raw bytes, nothing else.\<close>

definition demo_json :: json where
  "demo_json = \<lparr>j_register = \<lambda>_. Inl [], j_snapshot = \<lambda>_. Inl [], j_open = \<lambda>_. Inl [], j_result = \<lambda>_. Inl [],
     j_close = \<lambda>m. Inr (be32 (sc_stream_id m) @ sc_reason m),
     p_register = \<lambda>_. Inl [], p_snapshot = \<lambda>_. Inl [], p_open = \<lambda>_. Inl [], p_result = \<lambda>_. Inl [],
     p_close = \<lambda>b. Inr \<lparr>sc_stream_id = from_be32 (take 4 b), sc_reason = drop 4 b\<rparr>\<rparr>"

theorem ipc_stream_roundtrip_witness:
  "\<exists>c. write_messages demo_json [MStreamData 7 ''abc'', MStreamClose \<lparr>sc_stream_id = 7, sc_reason = ''bye''\<rparr>, MPing] (open_conn []) = (Inr (), c)
    \<and> read_frames (read_message demo_json) 3 (open_conn (tx c))
      = (Inr [MStreamData 7 ''abc'', MStreamClose \<lparr>sc_stream_id = 7, sc_reason = ''bye''\<rparr>, MPing], open_conn [])"
proof -
  have "json_ok demo_json" by (simp add: json_ok_def demo_json_def)
  moreover have "\<forall>m \<in> set [MStreamData 7 ''abc'', MStreamClose \<lparr>sc_stream_id = 7, sc_reason = ''bye''\<rparr>, MPing].
      \<exists>ty p. encode_message demo_json m = Inr (ty, p) \<and> 1 + length p \<le> MAX_FRAME"
    by (simp add: encode_message_def demo_json_def to_json_def MAX_FRAME_def)
  ultimately show ?thesis using ipc_stream_roundtrip by (fastforce simp: numeral_3_eq_3)
qed

end
