(* ===== verification/Fs.thy ===== *)
theory Fs
  imports Rust_Io
begin

text \<open>
  The part of \<^verbatim>\<open>std::fs\<close> and \<^verbatim>\<open>std::path\<close> the configuration code uses. A file system maps
  paths to file nodes; every mutating call may fail at an arbitrary point (\<open>fs_left\<close> counts
  the calls that still succeed, \<open>fs_torn\<close> says how much of a failing write reaches the file),
  so a statement over all file systems covers a crash or an error between any two calls.
\<close>

section \<open>Files\<close>

record fnode =
  fn_text :: bytes
  fn_mode :: nat
  fn_mtime :: "nat option"

record fsys =
  fs_files :: "string \<Rightarrow> fnode option"
  fs_now :: "nat option"
  fs_new_mode :: nat
  fs_left :: "nat option"
  fs_torn :: "nat option"
  fs_err :: io_error

definition fs_try :: "(fsys \<Rightarrow> fsys) \<Rightarrow> (fsys \<Rightarrow> fsys) \<Rightarrow> (fsys, unit) act" where
  "fs_try done failed fs =
     (case fs_left fs of
        None \<Rightarrow> (Inr (), done fs)
      | Some 0 \<Rightarrow> (Inl (fs_err fs), failed fs)
      | Some (Suc n) \<Rightarrow> (Inr (), (done fs)\<lparr>fs_left := Some n\<rparr>))"

text \<open>Creating or truncating a file keeps the mode of an existing one.\<close>

definition fs_put :: "string \<Rightarrow> bytes \<Rightarrow> fsys \<Rightarrow> fsys" where
  "fs_put p b fs = fs\<lparr>fs_files := (fs_files fs)(p \<mapsto>
     \<lparr>fn_text = b,
      fn_mode = (case fs_files fs p of None \<Rightarrow> fs_new_mode fs | Some n \<Rightarrow> fn_mode n),
      fn_mtime = fs_now fs\<rparr>)\<rparr>"

definition fs_write :: "string \<Rightarrow> bytes \<Rightarrow> (fsys, unit) act" where
  "fs_write p b = fs_try (fs_put p b)
     (\<lambda>fs. case fs_torn fs of None \<Rightarrow> fs | Some k \<Rightarrow> fs_put p (take k b) fs)"

definition fs_create_dir_all :: "(fsys, unit) act" where
  "fs_create_dir_all = fs_try id id"

definition not_found :: io_error where
  "not_found = IoErr NotFound ''No such file or directory (os error 2)''"

definition fs_set_mode :: "string \<Rightarrow> nat \<Rightarrow> (fsys, unit) act" where
  "fs_set_mode p m fs =
     (case fs_files fs p of
        None \<Rightarrow> (Inl not_found, fs)
      | Some n \<Rightarrow> fs_try (\<lambda>fs. fs\<lparr>fs_files := (fs_files fs)(p \<mapsto> n\<lparr>fn_mode := m\<rparr>)\<rparr>) id fs)"

definition fs_rename :: "string \<Rightarrow> string \<Rightarrow> (fsys, unit) act" where
  "fs_rename a b fs =
     (case fs_files fs a of
        None \<Rightarrow> (Inl not_found, fs)
      | Some n \<Rightarrow> fs_try (\<lambda>fs. fs\<lparr>fs_files := (fs_files fs)(a := None, b \<mapsto> n)\<rparr>) id fs)"

definition fs_is_file :: "fsys \<Rightarrow> string \<Rightarrow> bool" where
  "fs_is_file fs p \<longleftrightarrow> fs_files fs p \<noteq> None"

text \<open>\<^verbatim>\<open>metadata(p).ok().and_then(|m| m.modified().ok())\<close> and \<^verbatim>\<open>read_to_string\<close>.\<close>

definition fs_mtime :: "fsys \<Rightarrow> string \<Rightarrow> nat option" where
  "fs_mtime fs p = Option.bind (fs_files fs p) fn_mtime"

definition fs_read :: "fsys \<Rightarrow> string \<Rightarrow> io_error + string" where
  "fs_read fs p =
     (case fs_files fs p of
        None \<Rightarrow> Inl not_found
      | Some n \<Rightarrow> ok_or (from_utf8 (fn_text n)) (IoErr InvalidData ''stream did not contain valid UTF-8''))"

section \<open>Paths\<close>

text \<open>A path is its text; it names a file when its last component is not empty and is
  neither the current nor the parent directory.\<close>

definition file_name :: "string \<Rightarrow> string" where
  "file_name p = rev (takeWhile (\<lambda>c. c \<noteq> CHR ''/'') (rev p))"

definition path_dir :: "string \<Rightarrow> string" where
  "path_dir p = rev (dropWhile (\<lambda>c. c \<noteq> CHR ''/'') (rev p))"

definition names_file :: "string \<Rightarrow> bool" where
  "names_file p \<longleftrightarrow> file_name p \<notin> {'''', ''.'', ''..''}"

text \<open>The part before the last dot, or all of it when there is none or nothing before it.\<close>

definition file_stem :: "string \<Rightarrow> string" where
  "file_stem n =
     (case split_once (CHR ''.'') (rev n) of
        None \<Rightarrow> n
      | Some (_, before) \<Rightarrow> (if before = [] then n else rev before))"

definition with_extension :: "string \<Rightarrow> string \<Rightarrow> string" where
  "with_extension p ext =
     (if names_file p then path_dir p @ file_stem (file_name p) @ ''.'' @ ext else p)"

section \<open>Lemmas\<close>

lemma path_split: "path_dir p @ file_name p = p"
proof -
  have "rev (path_dir p @ file_name p) = rev p"
    by (simp add: path_dir_def file_name_def)
  then show ?thesis by (rule rev_is_rev_conv [THEN iffD1])
qed

lemma with_extension_fresh:
  assumes "names_file p"
  shows "with_extension p ''toml.tmp'' \<noteq> p"
proof
  assume "with_extension p ''toml.tmp'' = p"
  with assms have "path_dir p @ file_stem (file_name p) @ ''.toml.tmp'' = path_dir p @ file_name p"
    by (simp add: with_extension_def path_split)
  then have e: "file_name p = file_stem (file_name p) @ ''.toml.tmp''" by simp
  show False
  proof (cases "file_stem (file_name p) = file_name p")
    case True
    then show False using arg_cong [OF e, of length] by simp
  next
    case False
    then obtain a b where ab: "split_once (CHR ''.'') (rev (file_name p)) = Some (a, b)" "file_stem (file_name p) = rev b"
      by (auto simp: file_stem_def split: option.splits if_splits)
    then have "rev (file_name p) = a @ CHR ''.'' # b" "CHR ''.'' \<notin> set a" by (simp_all add: split_once_Some_iff)
    moreover from e ab(2) have "rev (file_name p) = rev ''.toml.tmp'' @ b"
      by (metis rev_append rev_rev_ident)
    ultimately have "a @ [CHR ''.''] = rev ''.toml.tmp''" by simp
    then have "a = rev ''toml.tmp''" by simp
    with \<open>CHR ''.'' \<notin> set a\<close> show False by simp
  qed
qed

lemma fs_try_result:
  "fs_try d f fs = (r, fs') \<Longrightarrow>
     (r = Inr () \<and> (fs' = d fs \<or> (\<exists>n. fs' = (d fs)\<lparr>fs_left := Some n\<rparr>))) \<or> (\<exists>e. r = Inl e) \<and> fs' = f fs"
  by (auto simp: fs_try_def split: option.splits nat.splits)

lemma fs_write_result:
  "fs_write p b fs = (r, fs') \<Longrightarrow> (\<forall>q. q \<noteq> p \<longrightarrow> fs_files fs' q = fs_files fs q) \<and>
     (r = Inr () \<longrightarrow> (\<exists>n. fs_files fs' p = Some n \<and> fn_text n = b))"
  unfolding fs_write_def
  by (drule fs_try_result) (auto simp: fs_put_def split: option.splits)

lemma fs_set_mode_result:
  "fs_set_mode p m fs = (r, fs') \<Longrightarrow> (\<forall>q. q \<noteq> p \<longrightarrow> fs_files fs' q = fs_files fs q) \<and>
     (r = Inr () \<longrightarrow> (\<exists>n. fs_files fs p = Some n \<and> fs_files fs' p = Some (n\<lparr>fn_mode := m\<rparr>)))"
  unfolding fs_set_mode_def
  by (auto split: option.splits dest!: fs_try_result)

lemma fs_rename_result:
  "fs_rename a b fs = (r, fs') \<Longrightarrow>
     (r = Inr () \<and> (\<exists>n. fs_files fs a = Some n \<and> fs_files fs' = (fs_files fs)(a := None, b \<mapsto> n)))
     \<or> ((\<exists>e. r = Inl e) \<and> fs_files fs' = fs_files fs)"
  unfolding fs_rename_def
  by (auto split: option.splits dest!: fs_try_result)

lemma fs_create_dir_all_result:
  "fs_create_dir_all fs = (r, fs') \<Longrightarrow> fs_files fs' = fs_files fs"
  unfolding fs_create_dir_all_def by (auto dest!: fs_try_result)

end
