(* ===== verification/Config_Store.thy ===== *)
theory Config_Store
  imports Registry Fs
begin

text \<open>
  Configuration files on disk: saving (\<^verbatim>\<open>save_file\<close> of src/config.rs and src/proxy_config.rs),
  the proxy's policy file, and the two policies that are reloaded when the file's
  modification time changes (\<^verbatim>\<open>ReloadableHubPolicy\<close>, \<^verbatim>\<open>ReloadableProxyPolicy\<close>). The
  TOML serializer \<open>ser\<close> and parser \<open>toml\<close> are arguments.

  The locale \<open>reloadable\<close> states the contract of an mtime-driven cache; both policies
  interpret it, and inherit that caching is equivalent to reloading every time.
\<close>

type_synonym hub_toml = "string \<Rightarrow> string + RawToml"

section \<open>Saving\<close>

text \<open>The owner-only mode, octal 600.\<close>

definition mode_600 :: nat where
  "mode_600 = 6 * 64"

definition to_toml_string :: "(TomlFile \<Rightarrow> string + string) \<Rightarrow> HubConfig \<Rightarrow> ConfigError + string" where
  "to_toml_string ser c = map_err TomlSer (ser (to_toml_file c))"

definition HubConfig_save_file ::
  "(TomlFile \<Rightarrow> string + string) \<Rightarrow> string \<Rightarrow> HubConfig \<Rightarrow> fsys \<Rightarrow> (ConfigError + unit) \<times> fsys" where
  "HubConfig_save_file ser path c fs =
     (case fs_create_dir_all fs of
        (Inl e, fs1) \<Rightarrow> (Inl (ConfigIo e), fs1)
      | (Inr _, fs1) \<Rightarrow>
          (case to_toml_string ser c of
             Inl e \<Rightarrow> (Inl e, fs1)
           | Inr text \<Rightarrow>
               (let tmp = with_extension path ''toml.tmp'' in
                case then_a (fs_write tmp text)
                       (then_a (fs_set_mode tmp mode_600) (fs_rename tmp path)) fs1 of
                  (Inl e, fs2) \<Rightarrow> (Inl (ConfigIo e), fs2)
                | (Inr _, fs2) \<Rightarrow> (Inr (), fs2))))"

definition load_legacy_file :: "(string \<Rightarrow> io_error + string) \<Rightarrow> string \<Rightarrow> ConfigError + HubConfig" where
  "load_legacy_file read path = bind_r (map_err ConfigIo (read path)) from_legacy_adbproxy"

section \<open>The hub policy\<close>

record HubPolicySnapshot =
  hp_devices :: DevicePolicyTable
  hp_backends :: "string \<rightharpoonup> bool"

definition device_enabled :: "HubPolicySnapshot \<Rightarrow> string \<Rightarrow> bool" where
  "device_enabled p serial = is_enabled (hp_devices p) serial"

definition backend_enabled :: "HubPolicySnapshot \<Rightarrow> string \<Rightarrow> bool" where
  "backend_enabled p name = unwrap_or True (hp_backends p name)"

definition filter_snapshot :: "HubPolicySnapshot \<Rightarrow> DeviceSnapshot \<Rightarrow> DeviceSnapshot" where
  "filter_snapshot p snap =
     \<lparr>devices = filter (\<lambda>d. backend_enabled p (backend_name d) \<and> device_enabled p (public_serial d))
                  (devices snap)\<rparr>"

record HubPolicyCache =
  hpc_mtime :: "nat option"
  hpc_policy :: HubPolicySnapshot

record ReloadableHubPolicy =
  rhp_path :: "string option"
  rhp_static :: HubPolicySnapshot
  rhp_cache :: HubPolicyCache

text \<open>\<^verbatim>\<open>collect\<close> into a \<^verbatim>\<open>HashMap\<close>: a later entry replaces an earlier one.\<close>

definition policy_of_config :: "HubConfig \<Rightarrow> HubPolicySnapshot" where
  "policy_of_config c =
     \<lparr>hp_devices = hc_devices c,
      hp_backends = map_of (rev (map (\<lambda>b. (bc_name b, bc_enabled b)) (hc_backends c)))\<rparr>"

definition load_hub_policy_file ::
  "(string \<Rightarrow> string + RawToml) \<Rightarrow> fsys \<Rightarrow> string \<Rightarrow> ConfigError + HubPolicySnapshot" where
  "load_hub_policy_file toml fs path =
     bind_r (HubConfig_load_file toml (fs_read fs) path) (\<lambda>cfg. Inr (policy_of_config cfg))"

definition ReloadableHubPolicy_from_config ::
  "(string \<Rightarrow> string + RawToml) \<Rightarrow> fsys \<Rightarrow> HubConfig \<Rightarrow> ReloadableHubPolicy" where
  "ReloadableHubPolicy_from_config toml fs config =
     (let static = policy_of_config config;
          path = hc_config_path config;
          mp = (case path of
                  Some p \<Rightarrow>
                    (if fs_is_file fs p then
                       (fs_mtime fs p,
                        (case load_hub_policy_file toml fs p of Inl _ \<Rightarrow> static | Inr q \<Rightarrow> q))
                     else (None, static))
                | None \<Rightarrow> (None, static))
      in \<lparr>rhp_path = path, rhp_static = static,
          rhp_cache = \<lparr>hpc_mtime = fst mp, hpc_policy = snd mp\<rparr>\<rparr>)"

text \<open>\<^verbatim>\<open>refresh\<close> returns the policy in force and the updated cache.\<close>

definition ReloadableHubPolicy_refresh ::
  "(string \<Rightarrow> string + RawToml) \<Rightarrow> fsys \<Rightarrow> ReloadableHubPolicy \<Rightarrow> HubPolicySnapshot \<times> ReloadableHubPolicy" where
  "ReloadableHubPolicy_refresh toml fs r =
     (case rhp_path r of
        None \<Rightarrow> (rhp_static r, r)
      | Some path \<Rightarrow>
          (let guard = rhp_cache r;
               mtime = fs_mtime fs path;
               guard' = (if mtime \<noteq> hpc_mtime guard then
                           (case load_hub_policy_file toml fs path of
                              Inr policy \<Rightarrow> guard\<lparr>hpc_mtime := mtime, hpc_policy := policy\<rparr>
                            | Inl _ \<Rightarrow> guard\<lparr>hpc_mtime := mtime\<rparr>)
                         else guard)
           in (hpc_policy guard', r\<lparr>rhp_cache := guard'\<rparr>)))"

section \<open>The proxy's policy file\<close>

datatype ProxyConfigError = PxIo io_error | PxTomlDe string | PxTomlSer string

record ProxyFileConfig =
  pf_devices :: DevicePolicyTable

definition ProxyFileConfig_default :: ProxyFileConfig where
  "ProxyFileConfig_default = \<lparr>pf_devices = DevicePolicyTable_default\<rparr>"

text \<open>The parser yields the \<^verbatim>\<open>[[device]]\<close> entries of the document.\<close>

definition ProxyFileConfig_from_toml_str ::
  "(string \<Rightarrow> string + RawDevice list option) \<Rightarrow> string \<Rightarrow> ProxyConfigError + ProxyFileConfig" where
  "ProxyFileConfig_from_toml_str toml text =
     bind_r (map_err PxTomlDe (toml text)) (\<lambda>raw.
       Inr \<lparr>pf_devices = from_entries
              (map (\<lambda>d. \<lparr>dp_serial = rd_serial d, dp_enabled = unwrap_or True (rd_enabled d)\<rparr>)
                (unwrap_or [] raw))\<rparr>)"

definition ProxyFileConfig_load_file ::
  "(string \<Rightarrow> string + RawDevice list option) \<Rightarrow> fsys \<Rightarrow> string \<Rightarrow> ProxyConfigError + ProxyFileConfig" where
  "ProxyFileConfig_load_file toml fs path =
     (if \<not> fs_is_file fs path then Inr ProxyFileConfig_default
      else bind_r (map_err PxIo (fs_read fs path)) (ProxyFileConfig_from_toml_str toml))"

definition ProxyFileConfig_to_toml_string ::
  "(DevicePolicyEntry list \<Rightarrow> string + string) \<Rightarrow> ProxyFileConfig \<Rightarrow> ProxyConfigError + string" where
  "ProxyFileConfig_to_toml_string ser c =
     (let ds = to_disabled_entries (pf_devices c) in
      if ds = [] then Inr [] else map_err PxTomlSer (ser ds))"

definition ProxyFileConfig_save_file ::
  "(DevicePolicyEntry list \<Rightarrow> string + string) \<Rightarrow> string \<Rightarrow> ProxyFileConfig \<Rightarrow> fsys
     \<Rightarrow> (ProxyConfigError + unit) \<times> fsys" where
  "ProxyFileConfig_save_file ser path c fs =
     (case fs_create_dir_all fs of
        (Inl e, fs1) \<Rightarrow> (Inl (PxIo e), fs1)
      | (Inr _, fs1) \<Rightarrow>
          (case ProxyFileConfig_to_toml_string ser c of
             Inl e \<Rightarrow> (Inl e, fs1)
           | Inr text \<Rightarrow>
               (let tmp = with_extension path ''toml.tmp'' in
                case then_a (fs_write tmp text) (fs_rename tmp path) fs1 of
                  (Inl e, fs2) \<Rightarrow> (Inl (PxIo e), fs2)
                | (Inr _, fs2) \<Rightarrow> (Inr (), fs2))))"

definition ProxyFileConfig_set_device_enabled :: "string \<Rightarrow> bool \<Rightarrow> ProxyFileConfig \<Rightarrow> ProxyFileConfig" where
  "ProxyFileConfig_set_device_enabled serial en c = c\<lparr>pf_devices := set_enabled serial en (pf_devices c)\<rparr>"

record PolicyCache =
  pc_mtime :: "nat option"
  pc_table :: DevicePolicyTable

record ReloadableProxyPolicy =
  rpp_path :: string
  rpp_cache :: PolicyCache

text \<open>\<^verbatim>\<open>load_file(p).unwrap_or_default().devices\<close>\<close>

definition load_table :: "(string \<Rightarrow> string + RawDevice list option) \<Rightarrow> fsys \<Rightarrow> string \<Rightarrow> DevicePolicyTable" where
  "load_table toml fs path =
     pf_devices (unwrap_or ProxyFileConfig_default (ok (ProxyFileConfig_load_file toml fs path)))"

definition ReloadableProxyPolicy_new ::
  "(string \<Rightarrow> string + RawDevice list option) \<Rightarrow> fsys \<Rightarrow> string \<Rightarrow> ReloadableProxyPolicy" where
  "ReloadableProxyPolicy_new toml fs path =
     \<lparr>rpp_path = path, rpp_cache = \<lparr>pc_mtime = fs_mtime fs path, pc_table = load_table toml fs path\<rparr>\<rparr>"

definition ReloadableProxyPolicy_refresh ::
  "(string \<Rightarrow> string + RawDevice list option) \<Rightarrow> fsys \<Rightarrow> ReloadableProxyPolicy
     \<Rightarrow> DevicePolicyTable \<times> ReloadableProxyPolicy" where
  "ReloadableProxyPolicy_refresh toml fs r =
     (let guard = rpp_cache r;
          mtime = fs_mtime fs (rpp_path r);
          guard' = (if mtime \<noteq> pc_mtime guard then
                      \<lparr>pc_mtime = mtime, pc_table = load_table toml fs (rpp_path r)\<rparr>
                    else guard)
      in (pc_table guard', r\<lparr>rpp_cache := guard'\<rparr>))"

definition ReloadableProxyPolicy_is_enabled ::
  "(string \<Rightarrow> string + RawDevice list option) \<Rightarrow> fsys \<Rightarrow> string \<Rightarrow> ReloadableProxyPolicy
     \<Rightarrow> bool \<times> ReloadableProxyPolicy" where
  "ReloadableProxyPolicy_is_enabled toml fs serial r =
     (case ReloadableProxyPolicy_refresh toml fs r of (t, r') \<Rightarrow> (is_enabled t serial, r'))"

section \<open>The contract of an mtime cache\<close>

text \<open>The time stamps are honest along a sequence of observed file systems when a file whose
  stamp did not change since the last look would also load to the policy in force.\<close>

fun honest :: "('f \<Rightarrow> nat option) \<Rightarrow> ('f \<Rightarrow> 'p \<Rightarrow> 'p) \<Rightarrow> nat option \<Rightarrow> 'p \<Rightarrow> 'f list \<Rightarrow> bool" where
  "honest seen reload st p [] = True"
| "honest seen reload st p (f # fs) \<longleftrightarrow>
     (seen f = st \<longrightarrow> reload f p = p) \<and> honest seen reload (seen f) (reload f p) fs"

locale reloadable =
  fixes seen :: "'c \<Rightarrow> 'f \<Rightarrow> nat option"
    and stamp :: "'c \<Rightarrow> nat option"
    and cur :: "'c \<Rightarrow> 'p"
    and reload :: "'c \<Rightarrow> 'f \<Rightarrow> 'p \<Rightarrow> 'p"
    and step :: "'f \<Rightarrow> 'c \<Rightarrow> 'c"
  assumes step_stamp: "stamp (step f c) = seen c f"
    and step_cur: "cur (step f c) = (if seen c f \<noteq> stamp c then reload c f (cur c) else cur c)"
    and step_seen: "seen (step f c) = seen c"
    and step_reload: "reload (step f c) = reload c"
begin

lemma cached_eq_reload:
  "honest (seen c) (reload c) (stamp c) (cur c) fs \<Longrightarrow> cur (fold step fs c) = fold (reload c) fs (cur c)"
proof (induction fs arbitrary: c)
  case (Cons f fs)
  have cur: "cur (step f c) = reload c f (cur c)"
    using Cons.prems by (auto simp: step_cur)
  have "honest (seen (step f c)) (reload (step f c)) (stamp (step f c)) (cur (step f c)) fs"
    using Cons.prems by (simp add: cur step_stamp step_seen step_reload)
  from Cons.IH [OF this] show ?case by (simp add: cur step_reload)
qed simp

text \<open>Once the stamp is current, nothing happens until it changes.\<close>

lemma step_idle: "cur (step f (step f c)) = cur (step f c)"
  by (simp add: step_cur step_stamp step_seen)

end

text \<open>The two caches, in the locale's terms.\<close>

definition hub_seen :: "ReloadableHubPolicy \<Rightarrow> fsys \<Rightarrow> nat option" where
  "hub_seen r fs = (case rhp_path r of None \<Rightarrow> hpc_mtime (rhp_cache r) | Some p \<Rightarrow> fs_mtime fs p)"

definition hub_cur :: "ReloadableHubPolicy \<Rightarrow> HubPolicySnapshot" where
  "hub_cur r = (case rhp_path r of None \<Rightarrow> rhp_static r | Some _ \<Rightarrow> hpc_policy (rhp_cache r))"

text \<open>Loading keeps the last good policy.\<close>

definition hub_reload :: "(string \<Rightarrow> string + RawToml) \<Rightarrow> ReloadableHubPolicy \<Rightarrow> fsys \<Rightarrow> HubPolicySnapshot \<Rightarrow> HubPolicySnapshot" where
  "hub_reload toml r fs p = (case rhp_path r of None \<Rightarrow> p
     | Some path \<Rightarrow> (case load_hub_policy_file toml fs path of Inr q \<Rightarrow> q | Inl _ \<Rightarrow> p))"

interpretation hubpol: reloadable hub_seen "\<lambda>r. hpc_mtime (rhp_cache r)" hub_cur "hub_reload toml"
  "\<lambda>fs r. snd (ReloadableHubPolicy_refresh toml fs r)" for toml
  by unfold_locales
    (auto simp: hub_seen_def hub_cur_def hub_reload_def ReloadableHubPolicy_refresh_def Let_def fun_eq_iff
      split: option.splits sum.splits)

lemma hub_refresh_fst: "fst (ReloadableHubPolicy_refresh toml fs r) = hub_cur (snd (ReloadableHubPolicy_refresh toml fs r))"
  by (simp add: hub_cur_def ReloadableHubPolicy_refresh_def Let_def split: option.splits)

text \<open>Loading the proxy policy forgets the previous one.\<close>

interpretation pxpol: reloadable "\<lambda>r fs. fs_mtime fs (rpp_path r)" "\<lambda>r. pc_mtime (rpp_cache r)"
  "\<lambda>r. pc_table (rpp_cache r)" "\<lambda>r fs _. load_table toml fs (rpp_path r)"
  "\<lambda>fs r. snd (ReloadableProxyPolicy_refresh toml fs r)" for toml
  by unfold_locales (auto simp: ReloadableProxyPolicy_refresh_def Let_def)

section \<open>Saving is atomic\<close>

lemma write_mode_rename:
  assumes "then_a (fs_write tmp b) (then_a (fs_set_mode tmp m) (fs_rename tmp p)) fs = (r, fs')" "tmp \<noteq> p"
  shows "(\<forall>q. q \<noteq> p \<longrightarrow> q \<noteq> tmp \<longrightarrow> fs_files fs' q = fs_files fs q)
    \<and> (if r = Inr () then \<exists>n. fs_files fs' p = Some n \<and> fn_text n = b \<and> fn_mode n = m
       else fs_files fs' p = fs_files fs p)"
proof -
  obtain r1 fs1 where w: "fs_write tmp b fs = (r1, fs1)" by fastforce
  note W = fs_write_result [OF w]
  show ?thesis
  proof (cases r1)
    case (Inl e)
    with w assms W show ?thesis by (auto simp: then_a_Pair)
  next
    case (Inr u)
    then obtain n where n: "fs_files fs1 tmp = Some n" "fn_text n = b" using W by auto
    obtain r2 fs2 where s: "fs_set_mode tmp m fs1 = (r2, fs2)" by fastforce
    note S = fs_set_mode_result [OF s]
    show ?thesis
    proof (cases r2)
      case (Inl e)
      with w s Inr assms W S show ?thesis by (auto simp: then_a_Pair)
    next
      case r2: (Inr v)
      then have n2: "fs_files fs2 tmp = Some (n\<lparr>fn_mode := m\<rparr>)" using S n by auto
      obtain r3 fs3 where t: "fs_rename tmp p fs2 = (r3, fs3)" by fastforce
      have "r = r3" "fs' = fs3" using assms(1) w s t Inr r2 by (auto simp: then_a_Pair)
      with fs_rename_result [OF t] W S n n2 assms(2) show ?thesis by auto
    qed
  qed
qed

lemma save_file_effect:
  assumes "names_file path" "HubConfig_save_file ser path c fs = (r, fs')"
  shows "(\<forall>q. q \<noteq> path \<longrightarrow> q \<noteq> with_extension path ''toml.tmp'' \<longrightarrow> fs_files fs' q = fs_files fs q)
    \<and> (if r = Inr () then \<exists>n. fs_files fs' path = Some n \<and> ser (to_toml_file c) = Inr (fn_text n) \<and> fn_mode n = mode_600
       else fs_files fs' path = fs_files fs path)"
proof -
  obtain r1 fs1 where d: "fs_create_dir_all fs = (r1, fs1)" by fastforce
  have f1: "fs_files fs1 = fs_files fs" by (rule fs_create_dir_all_result [OF d])
  let ?tmp = "with_extension path ''toml.tmp''"
  show ?thesis
  proof (cases "\<exists>u text. r1 = Inr u \<and> ser (to_toml_file c) = Inr text")
    case False
    with assms(2) d f1 show ?thesis
      by (cases r1; cases "ser (to_toml_file c)") (auto simp: HubConfig_save_file_def to_toml_string_def)
  next
    case True
    then obtain u body where t: "r1 = Inr u" "ser (to_toml_file c) = Inr body" by blast
    obtain r2 fs2 where w: "then_a (fs_write ?tmp body) (then_a (fs_set_mode ?tmp mode_600) (fs_rename ?tmp path)) fs1 = (r2, fs2)"
      by fastforce
    have r: "(r = Inr () \<longleftrightarrow> r2 = Inr ()) \<and> fs' = fs2"
      using assms(2) d t w by (cases r2) (auto simp: HubConfig_save_file_def to_toml_string_def Let_def)
    from write_mode_rename [OF w with_extension_fresh [OF assms(1)]] r f1 t(2)
    show ?thesis by (auto split: if_splits)
  qed
qed

text \<open>C34: Saving the hub configuration is atomic and owner-only. Whatever call fails, and however
  much of a failed write reaches the disk, the configuration file is either untouched (the call
  reports an error) or holds exactly the serialized text with mode 600 (the call succeeds); no
  file other than it and its temporary file changes.\<close>

theorem save_file_atomic:
  assumes "names_file path" "HubConfig_save_file ser path c fs = (r, fs')"
  shows "(\<forall>q. q \<noteq> path \<longrightarrow> q \<noteq> with_extension path ''toml.tmp'' \<longrightarrow> fs_files fs' q = fs_files fs q)
    \<and> (if r = Inr () then \<exists>n. fs_files fs' path = Some n \<and> ser (to_toml_file c) = Inr (fn_text n) \<and> fn_mode n = mode_600
       else fs_files fs' path = fs_files fs path)"
  using assms by (rule save_file_effect)

definition demo_fs :: "nat option \<Rightarrow> fsys" where
  "demo_fs left = \<lparr>fs_files = Map.empty, fs_now = Some 1, fs_new_mode = 6 * 64 + 4 * 8 + 4, fs_left = left,
     fs_torn = Some 2, fs_err = IoErr OtherKind ''disk full''\<rparr>"

lemma names_file_demo [simp]: "names_file ''c.toml''"
  by (simp add: names_file_def file_name_def)

lemma demo_tmp [simp]: "with_extension ''c.toml'' ''toml.tmp'' = ''c.toml.tmp''"
  by code_simp

theorem save_file_atomic_witness:
  "fs_files (snd (HubConfig_save_file (\<lambda>_. Inr ''text'') ''c.toml'' local_only (demo_fs (Some 1)))) ''c.toml'' = None"
proof -
  let ?s = "HubConfig_save_file (\<lambda>_. Inr ''text'') ''c.toml'' local_only (demo_fs (Some 1))"
  have s: "?s = (fst ?s, snd ?s)" by simp
  have "fst ?s = Inl (ConfigIo (IoErr OtherKind ''disk full''))"
    by (simp add: HubConfig_save_file_def fs_create_dir_all_def fs_try_def demo_fs_def to_toml_string_def
        fs_write_def then_a_def bind_a_def)
  with save_file_atomic [OF names_file_demo s] show ?thesis by (simp add: demo_fs_def)
qed

text \<open>The owner-only mode comes too late for the temporary file: after the write and before the
  mode change (and for good, when that call fails) the temporary file holds the whole configuration,
  pair codes included, with the mode the process gives to new files.\<close>

theorem save_exposes_temporary:
  "let fs0 = fs\<lparr>fs_left := Some 2, fs_files := (fs_files fs)(with_extension path ''toml.tmp'' := None)\<rparr>;
       (r, fs') = HubConfig_save_file (\<lambda>_. Inr text) path c fs0
   in r = Inl (ConfigIo (fs_err fs)) \<and>
      fs_files fs' (with_extension path ''toml.tmp'')
        = Some \<lparr>fn_text = text, fn_mode = fs_new_mode fs, fn_mtime = fs_now fs\<rparr>"
  by (simp add: HubConfig_save_file_def fs_create_dir_all_def fs_try_def to_toml_string_def Let_def
      fs_write_def fs_set_mode_def fs_put_def then_a_def bind_a_def numeral_2_eq_2)

section \<open>Saving and loading\<close>

lemma save_ok_read:
  assumes "names_file path" "HubConfig_save_file ser path c fs = (Inr (), fs')"
    "ser (to_toml_file c) = Inr text" "utf8_valid text"
  shows "fs_read fs' path = Inr text"
  using save_file_effect [OF assms(1,2)] assms(3,4)
  by (auto simp: fs_read_def from_utf8_def)

text \<open>C35: A saved configuration loads back. When the call that saves a valid configuration (with
  addresses that print and parse back) succeeds, loading the file gives the same settings and
  backends, and a device policy with the same verdicts. About the TOML library only this is
  assumed: that parsing the text it produced for this document gives the document back.\<close>

theorem save_load_roundtrip:
  assumes "hub_wf c" "addr_ok (hc_listen c)" "\<forall>b \<in> set (hc_backends c). addr_ok (bc_addr b)"
    and "hc_poll_interval c < 2 ^ 64" "names_file path"
    and "HubConfig_save_file ser path c fs = (Inr (), fs')"
    and toml: "ser (to_toml_file c) = Inr text" "utf8_valid text" "toml text = Inr raw" "with_defaults raw = to_toml_file c"
  shows "\<exists>c'. HubConfig_load_file toml (fs_read fs') path = Inr c'
    \<and> c'\<lparr>hc_devices := hc_devices c, hc_config_path := hc_config_path c\<rparr> = c
    \<and> is_enabled (hc_devices c') = is_enabled (hc_devices c) \<and> hc_config_path c' = Some path"
proof -
  have rd: "fs_read fs' path = Inr text" by (rule save_ok_read [OF assms(5,6) toml(1,2)])
  obtain c1 where c1: "from_toml_file (to_toml_file c) = Inr c1"
    "c1\<lparr>hc_devices := hc_devices c, hc_config_path := hc_config_path c\<rparr> = c"
    "is_enabled (hc_devices c1) = is_enabled (hc_devices c)"
    using from_to_toml_file [OF assms(1-4)] by blast
  have "HubConfig_load_file toml (fs_read fs') path = Inr (c1\<lparr>hc_config_path := Some path\<rparr>)"
    using rd toml c1(1) by (simp add: HubConfig_load_file_def HubConfig_from_toml_str_def)
  then show ?thesis using c1(2,3) by (auto intro!: exI [of _ "c1\<lparr>hc_config_path := Some path\<rparr>"])
qed

definition raw_of :: "TomlFile \<Rightarrow> RawToml" where
  "raw_of t = \<lparr>rt_listen = Some (tf_listen t), rt_poll_interval_ms = Some (tf_poll_interval_ms t),
     rt_adb_version = Some (tf_adb_version t), rt_include_local = Some (tf_include_local t),
     rt_local_adb_port = Some (tf_local_adb_port t),
     rt_backend = Some (map (\<lambda>b. \<lparr>rb_name = tb_name b, rb_addr = tb_addr b, rb_pair_code = tb_pair_code b,
                                  rb_enabled = Some (tb_enabled b)\<rparr>) (tf_backend t)),
     rt_device = Some (map (\<lambda>d. \<lparr>rd_serial = dp_serial d, rd_enabled = Some (dp_enabled d)\<rparr>) (tf_device t))\<rparr>"

lemma with_defaults_raw_of: "with_defaults (raw_of t) = t"
  by (cases t) (simp add: with_defaults_def raw_of_def comp_def map_idI)

theorem save_load_roundtrip_witness:
  "\<exists>fs' c'. HubConfig_save_file (\<lambda>_. Inr ''x'') ''c.toml'' local_only (demo_fs None) = (Inr (), fs')
     \<and> HubConfig_load_file (\<lambda>_. Inr (raw_of (to_toml_file local_only))) (fs_read fs') ''c.toml'' = Inr c'
     \<and> hc_config_path c' = Some ''c.toml''"
proof -
  have s: "fst (HubConfig_save_file (\<lambda>_. Inr ''x'') ''c.toml'' local_only (demo_fs None)) = Inr ()"
    by (simp add: HubConfig_save_file_def fs_create_dir_all_def fs_try_def demo_fs_def to_toml_string_def
        fs_write_def fs_put_def fs_set_mode_def fs_rename_def then_a_def bind_a_def)
  then obtain fs' where fs': "HubConfig_save_file (\<lambda>_. Inr ''x'') ''c.toml'' local_only (demo_fs None) = (Inr (), fs')"
    by (metis prod.collapse)
  have "hub_wf local_only"
    by (simp add: hub_wf_def local_only_def listen_addr_def default_local_adb_port_def default_poll_ms_def wf_intros)
  moreover have "addr_ok (hc_listen local_only)" "\<forall>b \<in> set (hc_backends local_only). addr_ok (bc_addr b)"
    "hc_poll_interval local_only < 2 ^ 64"
    by (simp_all add: local_only_def listen_addr_def default_poll_ms_def)
  moreover have "utf8_valid ''x''" by (rule utf8_valid_ascii) (simp add: ascii_def)
  ultimately show ?thesis
    using save_load_roundtrip [OF _ _ _ _ names_file_demo fs' _ _ _ with_defaults_raw_of, of "''x''" "\<lambda>_. Inr (raw_of (to_toml_file local_only))"] fs'
    by blast
qed

section \<open>Reloading\<close>

text \<open>C37: The hub policy cache is equivalent to reloading the file on every look, keeping the last
  policy that could be loaded: after any sequence of observed file systems with honest time stamps
  the policy in force is the fold of "load, or keep what was there". A broken or missing file never
  changes the policy.\<close>

theorem hub_policy_keeps_last_good:
  assumes "rhp_path r = Some path"
    and "honest (\<lambda>fs. fs_mtime fs path) (hub_reload toml r) (hpc_mtime (rhp_cache r)) (hub_cur r) fss"
  shows "hub_cur (fold (\<lambda>fs r. snd (ReloadableHubPolicy_refresh toml fs r)) fss r)
    = fold (\<lambda>fs p. case load_hub_policy_file toml fs path of Inr q \<Rightarrow> q | Inl _ \<Rightarrow> p) fss (hub_cur r)"
proof -
  have "hub_seen r = (\<lambda>fs. fs_mtime fs path)" using assms(1) by (simp add: hub_seen_def fun_eq_iff)
  moreover have "hub_reload toml r = (\<lambda>fs p. case load_hub_policy_file toml fs path of Inr q \<Rightarrow> q | Inl _ \<Rightarrow> p)"
    using assms(1) by (simp add: hub_reload_def fun_eq_iff)
  ultimately show ?thesis using hubpol.cached_eq_reload [of r toml fss] assms(2) by simp
qed

text \<open>The proxy policy has the opposite failure mode: under the same condition its table after
  any sequence of looks is what the file loads to at the last one, and a file that cannot be read
  or parsed counts as an empty table, so that every device is enabled.\<close>

theorem proxy_policy_fails_open:
  assumes "honest (\<lambda>fs. fs_mtime fs (rpp_path r)) (\<lambda>fs _. load_table toml fs (rpp_path r))
      (pc_mtime (rpp_cache r)) (pc_table (rpp_cache r)) (fss @ [fs])"
    and "ProxyFileConfig_load_file toml fs (rpp_path r) = Inl e"
  shows "fst (ReloadableProxyPolicy_is_enabled toml fs serial
      (fold (\<lambda>fs r. snd (ReloadableProxyPolicy_refresh toml fs r)) fss r))"
proof -
  let ?r = "fold (\<lambda>fs r. snd (ReloadableProxyPolicy_refresh toml fs r)) fss r"
  have "pc_table (rpp_cache (snd (ReloadableProxyPolicy_refresh toml fs ?r))) = load_table toml fs (rpp_path r)"
    using pxpol.cached_eq_reload [of r toml "fss @ [fs]"] assms(1) by simp
  then have "fst (ReloadableProxyPolicy_refresh toml fs ?r) = load_table toml fs (rpp_path r)"
    by (simp add: ReloadableProxyPolicy_refresh_def Let_def split: if_splits)
  then show ?thesis
    using assms(2) by (simp add: ReloadableProxyPolicy_is_enabled_def load_table_def
        ProxyFileConfig_default_def case_prod_beta)
qed

definition file_fs :: "string \<Rightarrow> nat \<Rightarrow> fsys" where
  "file_fs body t = (demo_fs None)\<lparr>fs_files := [''c.toml'' \<mapsto> \<lparr>fn_text = body, fn_mode = mode_600, fn_mtime = Some t\<rparr>]\<rparr>"

text \<open>A parser for the witnesses: an empty document, or one that disables the device \<open>A1\<close>.\<close>

definition demo_toml :: "string \<Rightarrow> string + RawDevice list option" where
  "demo_toml s = (if s = ''off'' then Inr (Some [\<lparr>rd_serial = ''A1'', rd_enabled = Some False\<rparr>])
     else if s = [] then Inr None else Inl ''expected table'')"

lemma read_file_fs: "ascii body \<Longrightarrow> fs_read (file_fs body t) ''c.toml'' = Inr body"
  by (simp add: fs_read_def file_fs_def from_utf8_def utf8_valid_ascii)

theorem proxy_policy_fails_open_witness:
  "fst (ReloadableProxyPolicy_is_enabled demo_toml (file_fs ''bad'' 2) ''A1''
     (ReloadableProxyPolicy_new demo_toml (file_fs ''off'' 1) ''c.toml''))
   \<and> \<not> is_enabled (pc_table (rpp_cache (ReloadableProxyPolicy_new demo_toml (file_fs ''off'' 1) ''c.toml''))) ''A1''"
proof -
  let ?r = "ReloadableProxyPolicy_new demo_toml (file_fs ''off'' 1) ''c.toml''"
  have off: "ProxyFileConfig_load_file demo_toml (file_fs ''off'' 1) ''c.toml''
      = Inr \<lparr>pf_devices = from_entries [\<lparr>dp_serial = ''A1'', dp_enabled = False\<rparr>]\<rparr>"
    using read_file_fs [of "''off''" 1] by (simp add: ProxyFileConfig_load_file_def ProxyFileConfig_from_toml_str_def
        demo_toml_def ascii_def fs_is_file_def file_fs_def)
  have bad: "ProxyFileConfig_load_file demo_toml (file_fs ''bad'' 2) (rpp_path ?r) = Inl (PxTomlDe ''expected table'')"
    using read_file_fs [of "''bad''" 2] by (simp add: ReloadableProxyPolicy_new_def ProxyFileConfig_load_file_def
        ProxyFileConfig_from_toml_str_def demo_toml_def ascii_def fs_is_file_def file_fs_def)
  have "honest (\<lambda>fs. fs_mtime fs (rpp_path ?r)) (\<lambda>fs _. load_table demo_toml fs (rpp_path ?r))
      (pc_mtime (rpp_cache ?r)) (pc_table (rpp_cache ?r)) ([] @ [file_fs ''bad'' 2])"
    by (simp add: ReloadableProxyPolicy_new_def fs_mtime_def file_fs_def)
  from proxy_policy_fails_open [OF this bad, of "''A1''"] off show ?thesis
    by (simp add: ReloadableProxyPolicy_new_def load_table_def is_enabled_iff entries_from_entries)
qed

theorem hub_policy_keeps_last_good_witness:
  "hub_cur (snd (ReloadableHubPolicy_refresh (\<lambda>_. Inl ''expected table'') (file_fs ''bad'' 2)
      \<lparr>rhp_path = Some ''c.toml'', rhp_static = policy_of_config local_only,
       rhp_cache = \<lparr>hpc_mtime = Some 1, hpc_policy = policy_of_config (set_device_enabled ''A1'' False local_only)\<rparr>\<rparr>))
   = policy_of_config (set_device_enabled ''A1'' False local_only)"
proof -
  let ?r = "\<lparr>rhp_path = Some ''c.toml'', rhp_static = policy_of_config local_only,
       rhp_cache = \<lparr>hpc_mtime = Some 1, hpc_policy = policy_of_config (set_device_enabled ''A1'' False local_only)\<rparr>\<rparr>"
  let ?toml = "\<lambda>_ :: string. Inl ''expected table'' :: string + RawToml"
  have l: "load_hub_policy_file ?toml (file_fs ''bad'' 2) ''c.toml'' = Inl (TomlDe ''expected table'')"
    using read_file_fs [of "''bad''" 2]
    by (simp add: load_hub_policy_file_def HubConfig_load_file_def HubConfig_from_toml_str_def ascii_def)
  have "honest (\<lambda>fs. fs_mtime fs ''c.toml'') (hub_reload ?toml ?r) (hpc_mtime (rhp_cache ?r)) (hub_cur ?r) [file_fs ''bad'' 2]"
    by (simp add: fs_mtime_def file_fs_def)
  from hub_policy_keeps_last_good [OF _ this] l show ?thesis by (simp add: hub_cur_def)
qed

end
