(* ===== verification/Unix_Socket.thy ===== *)
theory Unix_Socket
  imports Rust_Io
begin

text \<open>
  Abstract Unix-domain sockets as src/agent.rs and src/daemon.rs make them with raw system calls: the
  address is a NUL byte and the name, and the name must leave room for it in \<^verbatim>\<open>sun_path\<close> (108 bytes on
  Linux). What the calls themselves yield is an argument.
\<close>

definition SUN_PATH :: nat where
  "SUN_PATH = 108"

definition abstract_addr :: "string \<Rightarrow> io_error + bytes" where
  "abstract_addr name =
     (if SUN_PATH \<le> length name + 1 then Inl (IoErr InvalidInput ''abstract socket name too long'')
      else Inr (CHR 0x00 # name))"

text \<open>\<open>made\<close> is the result of \<^verbatim>\<open>socket\<close> and \<open>connect\<close> that of \<^verbatim>\<open>connect\<close> to an address.\<close>

definition abstract_connect :: "io_error + unit \<Rightarrow> (bytes \<Rightarrow> io_error + 'c) \<Rightarrow> string \<Rightarrow> io_error + 'c" where
  "abstract_connect made connect name = bind_r made (\<lambda>_. bind_r (abstract_addr name) connect)"

text \<open>The writes to \<^verbatim>\<open>sun_path\<close> stay in the array, and different names have different addresses.\<close>

lemma abstract_addr_fits: "abstract_addr name = Inr a \<Longrightarrow> length a < SUN_PATH"
  by (auto simp: abstract_addr_def split: if_splits)

lemma abstract_addr_inj: "abstract_addr a = Inr x \<Longrightarrow> abstract_addr b = Inr x \<Longrightarrow> a = b"
  by (auto simp: abstract_addr_def split: if_splits)

lemma abstract_addr_short [simp]: "length name < 107 \<Longrightarrow> abstract_addr name = Inr (CHR 0x00 # name)"
  by (simp add: abstract_addr_def SUN_PATH_def)

end
