(* ===== verification/Agent.thy ===== *)
theory Agent
  imports Backend Ipc Config_Store Unix_Socket
begin

text \<open>
  The per-user agent, src/agent.rs: polling the user's backends and publishing a sanitised device
  list to the daemon, the route table that resolves route ids to addresses and pair codes, and the
  streams opened on the daemon's request. The session's client connection \<open>cl\<close> is the control
  connection to the daemon; \<open>dialer\<close> gives the connections to backends. A spawned stream task
  owns its upstream connection and the queue of its \<^verbatim>\<open>mpsc\<close> channel.
\<close>

section \<open>State\<close>

record AgentConfig =
  ac_config_path :: string
  ac_control_abstract :: string
  ac_control_path :: "string option"
  ac_poll_interval :: nat
  ac_inline_backends :: "HubConfig option"
  ac_connect_retries :: nat
  ac_connect_retry_delay :: nat

record RouteEntry =
  re_addr :: SocketAddr
  re_pair_code :: "string option"
  re_upstream_serial :: string

record stream_task =
  tk_id :: u32
  tk_up :: conn
  tk_queue :: "bytes list"

text \<open>\<open>a_streams\<close> is the table of senders: stream id to the task at the other end; an ended task
  leaves \<open>None\<close> behind.\<close>

record asess = sess +
  a_routes :: "string \<rightharpoonup> RouteEntry"
  a_streams :: "u32 \<rightharpoonup> nat"
  a_tasks :: "stream_task option list"
  a_compat :: "string \<times> string set"
  a_generation :: u64
  a_polling :: bool
  a_running :: bool

definition send :: "json \<Rightarrow> IpcMessage \<Rightarrow> ('x sess_scheme, unit) act" where
  "send js m = on_client (write_message js m)"

section \<open>Polling and publishing\<close>

definition backends_fingerprint :: "BackendConfig list \<Rightarrow> string" where
  "backends_fingerprint bs =
     join ''|'' (map (\<lambda>b. bc_name b @ ''@'' @ addr_string (bc_addr b) @ ''#'' @ unwrap_or [] (bc_pair_code b)) bs)"

definition ConfigError_display :: "ConfigError \<Rightarrow> string" where
  "ConfigError_display e = (case e of
     ConfigIo err \<Rightarrow> ''io error: '' @ err_msg err
   | Invalid m \<Rightarrow> ''invalid config: '' @ m
   | TomlDe m \<Rightarrow> ''toml parse error: '' @ m
   | TomlSer m \<Rightarrow> ''toml serialize error: '' @ m)"

text \<open>The configuration of one round: the live file when there is one, else the inline backends,
  else nothing.\<close>

definition agent_config :: "hub_toml \<Rightarrow> fsys \<Rightarrow> AgentConfig \<Rightarrow> io_error + HubConfig" where
  "agent_config toml fs config =
     (let path = ac_config_path config in
      case ac_inline_backends config of
        Some inl \<Rightarrow>
          Inr (if fs_is_file fs path
               then (case HubConfig_load_file toml (fs_read fs) path of Inr c \<Rightarrow> c | Inl _ \<Rightarrow> inl)
               else inl)
      | None \<Rightarrow>
          (if fs_is_file fs path
           then map_err (\<lambda>e. IoErr InvalidData (ConfigError_display e)) (HubConfig_load_file toml (fs_read fs) path)
           else Inr local_only))"

definition agent_hub :: "HubConfig \<Rightarrow> HubConfig" where
  "agent_hub c = c\<lparr>hc_include_local := False, hc_backends := filter bc_enabled (hc_backends c)\<rparr>"

text \<open>The cached version gate: it is asked again only when the fingerprint changes.\<close>

definition gate_names :: "BackendConfig list \<Rightarrow> (asess, string set) act" where
  "gate_names enabled s =
     (let fp = backends_fingerprint enabled in
      if fst (a_compat s) \<noteq> fp then
        bind_a (filter_compatible_backends enabled)
          (\<lambda>compatible s. let names = set (map bc_name compatible) in (Inr names, s\<lparr>a_compat := (fp, names)\<rparr>)) s
      else (Inr (snd (a_compat s)), s))"

fun poll_lists :: "string set \<Rightarrow> BackendConfig list \<Rightarrow> ('x sess_scheme, (BackendConfig \<times> string) list) act" where
  "poll_lists names [] = ret []"
| "poll_lists names (b # bs) =
     bind_a (if bc_name b \<notin> names then ret [] else fetch_or_empty b) (\<lambda>body.
     bind_a (poll_lists names bs) (\<lambda>rest. ret ((b, body) # rest)))"

definition route_key :: "DeviceEntry \<Rightarrow> string" where
  "route_key d = backend_name d @ '':'' @ upstream_serial d"

definition route_of :: "DeviceEntry \<Rightarrow> RouteEntry" where
  "route_of d = \<lparr>re_addr = backend_addr d, re_pair_code = pair_code d, re_upstream_serial = upstream_serial d\<rparr>"

definition sanitize :: "DeviceEntry \<Rightarrow> SanitizedDevice" where
  "sanitize d = \<lparr>sd_public_serial = public_serial d, sd_upstream_serial = upstream_serial d, sd_state = dev_state d,
     sd_extras = extras d, sd_backend_name = backend_name d, sd_route_id = route_key d\<rparr>"

definition route_table :: "DeviceEntry list \<Rightarrow> string \<rightharpoonup> RouteEntry" where
  "route_table ds = fold (\<lambda>d m. m(route_key d \<mapsto> route_of d)) ds Map.empty"

definition snapshot_message :: "bool \<Rightarrow> u64 \<Rightarrow> DeviceEntry list \<Rightarrow> IpcMessage" where
  "snapshot_message changed gen ds =
     (let msg = \<lparr>ds_generation = gen, ds_devices = map sanitize ds\<rparr>
      in if changed then MDeviceSnapshotChanged msg else MDeviceSnapshot msg)"

definition publish_routes :: "json \<Rightarrow> bool \<Rightarrow> DeviceEntry list \<Rightarrow> (asess, unit) act" where
  "publish_routes js changed ds s =
     (let gen = a_generation s + 1 in
      send js (snapshot_message changed gen ds) (s\<lparr>a_routes := route_table ds, a_generation := gen\<rparr>))"

text \<open>One round for a loaded configuration: \<open>fs0\<close> is the file system when the policy object is
  made, \<open>fs1\<close> the one after the backends were polled.\<close>

definition agent_round :: "hub_toml \<Rightarrow> json \<Rightarrow> fsys \<Rightarrow> fsys \<Rightarrow> bool \<Rightarrow> HubConfig \<Rightarrow> (asess, unit) act" where
  "agent_round toml js fs0 fs1 changed loaded =
     (let hub_cfg = agent_hub loaded;
          policy = ReloadableHubPolicy_from_config toml fs0 hub_cfg;
          enabled = enabled_backends hub_cfg
      in bind_a (gate_names enabled) (\<lambda>names.
         bind_a (poll_lists names enabled) (\<lambda>lsts.
         publish_routes js changed
           (devices (filter_snapshot (fst (ReloadableHubPolicy_refresh toml fs1 policy)) (merge_device_lists lsts))))))"

definition refresh_and_publish ::
  "hub_toml \<Rightarrow> json \<Rightarrow> AgentConfig \<Rightarrow> fsys \<Rightarrow> fsys \<Rightarrow> bool \<Rightarrow> (asess, unit) act" where
  "refresh_and_publish toml js config fs0 fs1 changed =
     bind_a (lift_r (agent_config toml fs0 config)) (agent_round toml js fs0 fs1 changed)"

section \<open>Streams\<close>

definition open_result :: "u32 \<Rightarrow> string option \<Rightarrow> IpcMessage" where
  "open_result i reason = MOpenResult \<lparr>or_stream_id = i, or_ok = (reason = None), or_fail_reason = reason\<rparr>"

text \<open>Registering the sender and spawning the stream's task.\<close>

definition spawn_stream :: "u32 \<Rightarrow> conn \<Rightarrow> (asess, unit) act" where
  "spawn_stream i up s =
     (Inr (), s\<lparr>a_streams := (a_streams s)(i \<mapsto> length (a_tasks s)),
               a_tasks := a_tasks s @ [Some \<lparr>tk_id = i, tk_up = up, tk_queue = []\<rparr>]\<rparr>)"

definition open_private_stream :: "json \<Rightarrow> OpenPrivateStream \<Rightarrow> (asess, unit) act" where
  "open_private_stream js req s =
     (let i = op_stream_id req in
      case a_routes s (op_route_id req) of
        None \<Rightarrow> send js (open_result i (Some ''unknown route_id'')) s
      | Some route \<Rightarrow>
          try_a (dial (re_addr route)) (\<lambda>r. case r of
            Inl err \<Rightarrow> send js (open_result i (Some (''connect: '' @ err_msg err)))
          | Inr upstream \<Rightarrow>
              (case (case re_pair_code route of None \<Rightarrow> ret () upstream | Some k \<Rightarrow> authenticate_stream k upstream) of
                 (Inl err, _) \<Rightarrow> send js (open_result i (Some (''auth failed: '' @ err_msg err)))
               | (Inr _, up1) \<Rightarrow>
                   on_up (write_service (op_service req)) up1 (\<lambda>_ up2.
                   then_a (send js (open_result i None)) (spawn_stream i up2)))) s)"

text \<open>\<^verbatim>\<open>tx.send(data)\<close> on the channel of a stream; it fails silently when the task is gone.\<close>

definition enqueue :: "nat \<Rightarrow> bytes \<Rightarrow> asess \<Rightarrow> asess" where
  "enqueue j data s =
     (if j < length (a_tasks s) then
        s\<lparr>a_tasks := (a_tasks s)[j := map_option (\<lambda>t. t\<lparr>tk_queue := tk_queue t @ [data]\<rparr>) (a_tasks s ! j)]\<rparr>
      else s)"

definition handle_daemon_message :: "json \<Rightarrow> IpcMessage \<Rightarrow> (asess, unit) act" where
  "handle_daemon_message js msg s =
     (case msg of
        MPing \<Rightarrow> send js MPong s
      | MPong \<Rightarrow> (Inr (), s)
      | MOpenPrivateStream req \<Rightarrow> open_private_stream js req s
      | MStreamData i data \<Rightarrow>
          (Inr (), case a_streams s i of Some j \<Rightarrow> enqueue j data s | None \<Rightarrow> s)
      | MStreamClose c \<Rightarrow> (Inr (), s\<lparr>a_streams := (a_streams s)(sc_stream_id c := None)\<rparr>)
      | _ \<Rightarrow> (Inr (), s))"

text \<open>The task of a stream: one chunk from the channel to the upstream, one read (of at most 64 KiB)
  from the upstream to the daemon, and its end, when either direction is over.\<close>

definition task_end :: "json \<Rightarrow> nat \<Rightarrow> u32 \<Rightarrow> asess \<Rightarrow> asess" where
  "task_end js j i s =
     snd (send js (MStreamClose \<lparr>sc_stream_id = i, sc_reason = ''closed''\<rparr>)
            (s\<lparr>a_tasks := (a_tasks s)[j := None], a_streams := (a_streams s)(i := None)\<rparr>))"

definition task_to_up :: "json \<Rightarrow> nat \<Rightarrow> asess \<Rightarrow> asess" where
  "task_to_up js j s =
     (case (if j < length (a_tasks s) then a_tasks s ! j else None) of
        None \<Rightarrow> s
      | Some t \<Rightarrow>
          (case tk_queue t of
             [] \<Rightarrow> (if a_streams s (tk_id t) \<noteq> Some j then task_end js j (tk_id t) s else s)
           | data # q \<Rightarrow>
               (case write_all data (tk_up t) of
                  (Inl _, _) \<Rightarrow> task_end js j (tk_id t) s
                | (Inr _, up) \<Rightarrow> s\<lparr>a_tasks := (a_tasks s)[j := Some (t\<lparr>tk_up := up, tk_queue := q\<rparr>)]\<rparr>)))"

definition read_size :: "nat \<Rightarrow> nat" where
  "read_size n = min (max 1 n) (64 * 1024)"

definition task_from_up :: "json \<Rightarrow> nat \<Rightarrow> nat \<Rightarrow> asess \<Rightarrow> asess" where
  "task_from_up js n j s =
     (case (if j < length (a_tasks s) then a_tasks s ! j else None) of
        None \<Rightarrow> s
      | Some t \<Rightarrow>
          (let k = read_size n; data = take k (rx (tk_up t)) in
           if data = [] then task_end js j (tk_id t) s
           else let s1 = s\<lparr>a_tasks := (a_tasks s)[j := Some (t\<lparr>tk_up := (tk_up t)\<lparr>rx := drop k (rx (tk_up t))\<rparr>\<rparr>)]\<rparr> in
             (case send js (MStreamData (tk_id t) data) s1 of
                (Inl _, s2) \<Rightarrow> task_end js j (tk_id t) s2
              | (Inr _, s2) \<Rightarrow> s2)))"

section \<open>The agent's loops\<close>

text \<open>Registration and the first snapshot, whose failure is only logged.\<close>

definition random_token :: "(nat \<Rightarrow> u8) \<Rightarrow> string" where
  "random_token rng = concat (map (\<lambda>i. pad0 2 (hex (unat (rng i)))) [0..<16])"

definition agent_start :: "hub_toml \<Rightarrow> json \<Rightarrow> AgentConfig \<Rightarrow> (nat \<Rightarrow> u8) \<Rightarrow> fsys \<Rightarrow> fsys \<Rightarrow> (asess, unit) act" where
  "agent_start toml js config rng fs0 fs1 =
     then_a (send js (MRegisterAgent \<lparr>ra_version = PROTOCOL_VERSION, ra_capabilities = [''devices'', ''streams''],
                                      ra_instance_token = random_token rng\<rparr>))
       (try_a (refresh_and_publish toml js config fs0 fs1 False) (\<lambda>_. ret ()))"

text \<open>The poller ends at its first failed round; the message loop ends, and aborts the poller, when
  reading from the daemon fails; a failure in handling a message is only logged.\<close>

definition agent_poll :: "hub_toml \<Rightarrow> json \<Rightarrow> AgentConfig \<Rightarrow> fsys \<Rightarrow> fsys \<Rightarrow> asess \<Rightarrow> asess" where
  "agent_poll toml js config fs0 fs1 s =
     (if a_polling s then
        (case refresh_and_publish toml js config fs0 fs1 True s of
           (Inr _, s') \<Rightarrow> s'
         | (Inl _, s') \<Rightarrow> s'\<lparr>a_polling := False\<rparr>)
      else s)"

definition agent_message :: "json \<Rightarrow> asess \<Rightarrow> asess" where
  "agent_message js s =
     (if a_running s then
        (case on_client (read_message js) s of
           (Inl _, s') \<Rightarrow> s'\<lparr>a_polling := False, a_running := False\<rparr>
         | (Inr msg, s') \<Rightarrow> snd (handle_daemon_message js msg s'))
      else s)"

datatype agent_event =
    EvPoll fsys fsys
  | EvMessage
  | EvToUp nat
  | EvFromUp nat nat

fun agent_step :: "hub_toml \<Rightarrow> json \<Rightarrow> AgentConfig \<Rightarrow> agent_event \<Rightarrow> asess \<Rightarrow> asess" where
  "agent_step toml js config (EvPoll fs0 fs1) s = agent_poll toml js config fs0 fs1 s"
| "agent_step toml js config EvMessage s = agent_message js s"
| "agent_step toml js config (EvToUp j) s = task_to_up js j s"
| "agent_step toml js config (EvFromUp n j) s = task_from_up js n j s"

section \<open>Connecting to the daemon\<close>

text \<open>\<open>unix p\<close> and \<open>abstract_sock n\<close> are the results of connecting to a filesystem and an abstract
  socket; every attempt has its own.\<close>

definition connect_control :: "(string \<Rightarrow> io_error + 'c) \<Rightarrow> (string \<Rightarrow> io_error + 'c) \<Rightarrow> AgentConfig \<Rightarrow> io_error + 'c" where
  "connect_control unix abstract_sock config =
     (case ac_control_path config of
        Some path \<Rightarrow> unix path
      | None \<Rightarrow>
          (case abstract_sock (ac_control_abstract config) of
             Inr c \<Rightarrow> Inr c
           | Inl err \<Rightarrow> (case unix ''/tmp/adb-hubd.sock'' of Inr c \<Rightarrow> Inr c | Inl _ \<Rightarrow> Inl err)))"

fun retry_from :: "(nat \<Rightarrow> io_error + 'c) \<Rightarrow> nat list \<Rightarrow> io_error option \<Rightarrow> io_error + 'c" where
  "retry_from attempt [] last_err = Inl (unwrap_or (IoErr ConnectionRefused ''control socket unavailable'') last_err)"
| "retry_from attempt (n # ns) last_err = (case attempt n of Inr c \<Rightarrow> Inr c | Inl err \<Rightarrow> retry_from attempt ns (Some err))"

definition connect_control_with_retry ::
  "(nat \<Rightarrow> string \<Rightarrow> io_error + 'c) \<Rightarrow> (nat \<Rightarrow> string \<Rightarrow> io_error + 'c) \<Rightarrow> AgentConfig \<Rightarrow> io_error + 'c" where
  "connect_control_with_retry unix abstract_sock config =
     retry_from (\<lambda>n. connect_control (unix n) (abstract_sock n) config) [0..<Suc (ac_connect_retries config)] None"

text \<open>Best effort: the configuration is made owner-only when group or others have any permission.\<close>

definition ensure_owner_only_config :: "string \<Rightarrow> fsys \<Rightarrow> fsys" where
  "ensure_owner_only_config path fs =
     (case fs_files fs path of
        None \<Rightarrow> fs
      | Some n \<Rightarrow> (if fn_mode n mod 64 \<noteq> 0 then snd (fs_set_mode path mode_600 fs) else fs))"

section \<open>Routes\<close>

lemma route_table_snoc: "route_table (ds @ [d]) = (route_table ds)(route_key d \<mapsto> route_of d)"
  by (simp add: route_table_def)

text \<open>Devices with the same route id must agree on where it leads; then every route id resolves.\<close>

definition keys_agree :: "DeviceEntry list \<Rightarrow> bool" where
  "keys_agree ds \<longleftrightarrow> (\<forall>d \<in> set ds. \<forall>e \<in> set ds. route_key d = route_key e \<longrightarrow> route_of d = route_of e)"

lemma route_table_resolves: "keys_agree ds \<Longrightarrow> d \<in> set ds \<Longrightarrow> route_table ds (route_key d) = Some (route_of d)"
proof (induction ds rule: rev_induct)
  case (snoc e ds)
  have a: "keys_agree ds" using snoc.prems(1) unfolding keys_agree_def by (metis UnCI set_append)
  show ?case
  proof (cases "route_key d = route_key e")
    case True
    with snoc.prems have "route_of d = route_of e" unfolding keys_agree_def by (metis in_set_conv_decomp)
    then show ?thesis by (metis True fun_upd_same route_table_snoc)
  next
    case False
    then have "d \<in> set ds" using snoc.prems(2) by auto
    from snoc.IH [OF a this] False show ?thesis by (simp add: route_table_snoc)
  qed
qed simp

lemma split_at_colon:
  assumes "a @ '':'' @ x = b @ '':'' @ y" "CHR '':'' \<notin> set a" "CHR '':'' \<notin> set b"
  shows "a = b \<and> x = y"
proof -
  have "split_once (CHR '':'') (a @ '':'' @ x) = Some (a, x)" using assms(2) by (simp add: split_once_Some_iff)
  moreover have "split_once (CHR '':'') (b @ '':'' @ y) = Some (b, y)" using assms(3) by (simp add: split_once_Some_iff)
  ultimately show ?thesis unfolding assms(1) by (metis option.inject prod.inject)
qed

text \<open>What a device of a merged list says about its backend.\<close>

definition from_backend :: "BackendConfig \<Rightarrow> DeviceEntry \<Rightarrow> bool" where
  "from_backend b d \<longleftrightarrow> backend_name d = bc_name b \<and> backend_addr d = bc_addr b \<and> pair_code d = bc_pair_code b"

definition plain_names :: "BackendConfig list \<Rightarrow> bool" where
  "plain_names bs \<longleftrightarrow> distinct (map bc_name bs) \<and> (\<forall>b \<in> set bs. CHR '':'' \<notin> set (bc_name b))"

lemma routes_agree:
  assumes "plain_names bs" "b \<in> set bs" "c \<in> set bs" "from_backend b d" "from_backend c e" "route_key d = route_key e"
  shows "route_of d = route_of e"
proof -
  have "bc_name b = bc_name c \<and> upstream_serial d = upstream_serial e"
    using assms split_at_colon [of "bc_name b" "upstream_serial d" "bc_name c" "upstream_serial e"]
    by (simp add: plain_names_def route_key_def from_backend_def)
  moreover from this have "b = c" using assms(1-3) by (auto simp: plain_names_def distinct_map inj_on_def)
  ultimately show ?thesis using assms(4,5) by (simp add: route_of_def from_backend_def)
qed

lemma filtered_from_backend:
  assumes "d \<in> set (devices (filter_snapshot p (merge_device_lists lsts)))"
  shows "\<exists>b body. (b, body) \<in> set lsts \<and> body \<noteq> [] \<and> from_backend b d"
  using assms merge_entry_from_row [of d lsts] by (auto simp: filter_snapshot_def from_backend_def)

section \<open>Polling\<close>

text \<open>Everything but the count of connection attempts and the cached gate.\<close>

definition agent_core :: "'x asess_scheme \<Rightarrow> conn \<times> (string \<rightharpoonup> RouteEntry) \<times> (u32 \<rightharpoonup> nat) \<times> stream_task option list \<times> u64" where
  "agent_core s = (cl s, a_routes s, a_streams s, a_tasks s, a_generation s)"

interpretation core: dial_blind agent_core
  by unfold_locales (simp add: agent_core_def)

interpretation gate: dial_blind "\<lambda>s. (agent_core s, a_compat s)"
  by unfold_locales (simp add: agent_core_def)

lemma keeps_gate: "keeps agent_core (gate_names bs)"
proof (unfold keeps_def, rule allI)
  fix s :: asess
  have "agent_core (snd (filter_compatible_backends bs s)) = agent_core s"
    by (rule core.keeps_filter [unfolded keeps_def, THEN spec])
  then show "agent_core (snd (gate_names bs s)) = agent_core s"
    by (auto simp: gate_names_def Let_def bind_a_def agent_core_def split: prod.split sum.split)
qed

lemma keeps_poll_lists: "keeps (\<lambda>s. (agent_core s, a_compat s)) (poll_lists names bs)"
proof (induction bs)
  case (Cons b bs)
  show ?case unfolding poll_lists.simps by (intro keeps_rules gate.keeps_fetch Cons.IH)
qed (simp only: poll_lists.simps keeps_ret)

lemma poll_lists_result:
  "poll_lists names bs s = (Inr lsts, s') \<Longrightarrow> map fst lsts = bs \<and> (\<forall>(b, body) \<in> set lsts. body \<noteq> [] \<longrightarrow> bc_name b \<in> names)"
proof (induction bs arbitrary: s lsts)
  case (Cons b bs)
  then obtain body s1 rest where r: "poll_lists names bs s1 = (Inr rest, s')" "lsts = (b, body) # rest"
    and h: "(if bc_name b \<notin> names then ret [] else fetch_or_empty b) s = (Inr body, s1)"
    by (auto simp: bind_a_cong_result)
  from Cons.IH [OF r(1)] r(2) h show ?case by (auto split: if_splits)
qed simp

lemma gate_names_result:
  assumes "gate_names enabled s = (Inr names, s')"
  shows "a_compat s' = (backends_fingerprint enabled, names)
    \<and> (fst (a_compat s) = backends_fingerprint enabled \<longrightarrow> names = snd (a_compat s))"
  using assms by (auto simp: gate_names_def Let_def bind_a_def prod_eq_iff split: prod.splits sum.splits if_splits)

text \<open>What the backends answer, as data: the outcome of a connection attempt determines what a device query yields,
  every query is one attempt, and a backend outside the gate is not asked.\<close>

definition ask_devices :: "BackendConfig \<Rightarrow> (conn, bytes) act" where
  "ask_devices b = then_a (case bc_pair_code b of None \<Rightarrow> ret () | Some k \<Rightarrow> authenticate_stream k)
     (then_a (write_service ''host:devices-l'') read_okay_payload)"

definition answer_of :: "BackendConfig \<Rightarrow> io_error + conn \<Rightarrow> string" where
  "answer_of b r = (case r of Inl _ \<Rightarrow> []
     | Inr up \<Rightarrow> (case fst (ask_devices b up) of Inl _ \<Rightarrow> [] | Inr body \<Rightarrow> utf8_lossy body))"

primrec answers :: "(nat \<Rightarrow> SocketAddr \<Rightarrow> io_error + conn) \<Rightarrow> string set \<Rightarrow> nat \<Rightarrow> BackendConfig list \<Rightarrow> (BackendConfig \<times> string) list" where
  "answers net names n [] = []"
| "answers net names n (b # bs) =
     (if bc_name b \<in> names then (b, answer_of b (net n (bc_addr b))) # answers net names (Suc n) bs
      else (b, []) # answers net names n bs)"

lemma fetch_or_empty_answer:
  "fetch_or_empty b s = (Inr (answer_of b (dialer s (dials s) (bc_addr b))), s\<lparr>dials := Suc (dials s)\<rparr>)"
proof (cases "dialer s (dials s) (bc_addr b)")
  case (Inl e)
  then show ?thesis
    by (simp add: fetch_or_empty_def fetch_devices_l_def query_def backend_connect_def try_a_def bind_a_def dial_def answer_of_def)
next
  case (Inr up)
  obtain r u1 where a: "(case bc_pair_code b of None \<Rightarrow> ret () | Some k \<Rightarrow> authenticate_stream k) up = (r, u1)" by force
  obtain w u2 where w: "write_service ''host:devices-l'' u1 = (w, u2)" by force
  obtain p u3 where p: "read_okay_payload u2 = (p, u3)" by force
  show ?thesis
  proof (cases r)
    case (Inl e)
    with Inr a show ?thesis
      by (cases "bc_pair_code b") (auto simp: fetch_or_empty_def fetch_devices_l_def query_def backend_connect_def try_a_def
          bind_a_def dial_def answer_of_def ask_devices_def then_a_def on_up_def)
  next
    case r: (Inr x)
    with Inr a w p show ?thesis
      by (cases "bc_pair_code b"; cases w; cases p) (auto simp: fetch_or_empty_def fetch_devices_l_def query_def backend_connect_def
          try_a_def bind_a_def dial_def answer_of_def ask_devices_def then_a_def on_up_def)
  qed
qed

lemma poll_lists_answers: "fst (poll_lists names bs s) = Inr (answers (dialer s) names (dials s) bs)"
proof (induction bs arbitrary: s)
  case (Cons b bs)
  show ?case
  proof (cases "bc_name b \<in> names")
    case True
    with Cons.IH [of "s\<lparr>dials := Suc (dials s)\<rparr>"] show ?thesis
      by (cases "poll_lists names bs (s\<lparr>dials := Suc (dials s)\<rparr>)") (simp add: bind_a_def fetch_or_empty_answer)
  next
    case False
    with Cons.IH [of s] show ?thesis by (cases "poll_lists names bs s") (simp add: bind_a_def)
  qed
qed simp

interpretation network: dial_blind dialer
  by unfold_locales simp

text \<open>The list a round publishes, from the configuration it loaded: the names the gate lets through (the
  cached ones, or those found by asking now), the answers of these backends, merged, and the policy then in force.\<close>

definition hub_fp :: "HubConfig \<Rightarrow> string" where
  "hub_fp c = backends_fingerprint (enabled_backends (agent_hub c))"

definition round_names :: "HubConfig \<Rightarrow> asess \<Rightarrow> string set" where
  "round_names c s = (if fst (a_compat s) = hub_fp c then snd (a_compat s)
     else bc_name ` set (projr (fst (filter_compatible_backends (enabled_backends c) s))))"

definition round_answers :: "HubConfig \<Rightarrow> asess \<Rightarrow> (BackendConfig \<times> string) list" where
  "round_answers c s = answers (dialer s) (round_names c s)
     (if fst (a_compat s) = hub_fp c then dials s else dials (snd (filter_compatible_backends (enabled_backends c) s)))
     (enabled_backends c)"

definition round_list :: "hub_toml \<Rightarrow> HubConfig \<Rightarrow> fsys \<Rightarrow> fsys \<Rightarrow> asess \<Rightarrow> DeviceEntry list" where
  "round_list toml c fs0 fs1 s =
     devices (filter_snapshot (fst (ReloadableHubPolicy_refresh toml fs1 (ReloadableHubPolicy_from_config toml fs0 (agent_hub c))))
       (merge_device_lists (round_answers c s)))"

lemma enabled_agent_hub: "enabled_backends (agent_hub c) = enabled_backends c"
  by (simp add: enabled_backends_def agent_hub_def)

lemma hub_fp_eq: "hub_fp c = backends_fingerprint (enabled_backends c)"
  by (simp add: hub_fp_def enabled_agent_hub)

lemma gate_names_round:
  assumes "gate_names (enabled_backends c) s = (Inr names, s1)"
  shows "names = round_names c s \<and> dialer s1 = dialer s
    \<and> dials s1 = (if fst (a_compat s) = hub_fp c then dials s else dials (snd (filter_compatible_backends (enabled_backends c) s)))"
proof (cases "fst (a_compat s) = hub_fp c")
  case False
  obtain r s2 where f: "filter_compatible_backends (enabled_backends c) s = (r, s2)" by force
  with keepsD [OF network.keeps_filter f] assms False show ?thesis
    by (auto simp: gate_names_def Let_def bind_a_def round_names_def hub_fp_eq split: sum.splits)
qed (use assms in \<open>auto simp: gate_names_def round_names_def hub_fp_eq\<close>)

text \<open>One successful round, step by step.\<close>

lemma agent_round_result:
  assumes "agent_round toml js fs0 fs1 changed c s = (Inr (), s')"
  shows "map fst (round_answers c s) = enabled_backends c"
    and "\<forall>(b, body) \<in> set (round_answers c s). body \<noteq> [] \<longrightarrow> bc_name b \<in> round_names c s"
    and "a_compat s' = (hub_fp c, round_names c s)"
    and "a_routes s' = route_table (round_list toml c fs0 fs1 s)"
    and "a_generation s' = a_generation s + 1"
    and "write_message js (snapshot_message changed (a_generation s + 1) (round_list toml c fs0 fs1 s)) (cl s) = (Inr (), cl s')"
proof -
  let ?en = "enabled_backends c"
  let ?pol = "fst (ReloadableHubPolicy_refresh toml fs1 (ReloadableHubPolicy_from_config toml fs0 (agent_hub c)))"
  obtain names s1 where g: "gate_names ?en s = (Inr names, s1)"
    and r: "bind_a (poll_lists names ?en) (\<lambda>lsts. publish_routes js changed (devices (filter_snapshot ?pol (merge_device_lists lsts)))) s1
      = (Inr (), s')"
    using assms by (auto simp: agent_round_def Let_def enabled_agent_hub bind_a_cong_result)
  obtain lsts s2 where l: "poll_lists names ?en s1 = (Inr lsts, s2)"
    and w: "publish_routes js changed (devices (filter_snapshot ?pol (merge_device_lists lsts))) s2 = (Inr (), s')"
    using r by (auto simp: bind_a_cong_result)
  have k: "agent_core s2 = agent_core s" "a_compat s2 = a_compat s1"
    using keepsD [OF keeps_gate g] keepsD [OF keeps_poll_lists l] by simp_all
  have n: "names = round_names c s" "lsts = round_answers c s"
    using gate_names_round [OF g] poll_lists_answers [of names ?en s1] l by (simp_all add: round_answers_def)
  have w': "publish_routes js changed (round_list toml c fs0 fs1 s) s2 = (Inr (), s')"
    using w unfolding n(2) round_list_def .
  show "map fst (round_answers c s) = ?en" "\<forall>(b, body) \<in> set (round_answers c s). body \<noteq> [] \<longrightarrow> bc_name b \<in> round_names c s"
    using poll_lists_result [OF l] unfolding n by simp_all
  show "a_compat s' = (hub_fp c, round_names c s)" "a_routes s' = route_table (round_list toml c fs0 fs1 s)"
    "a_generation s' = a_generation s + 1"
    "write_message js (snapshot_message changed (a_generation s + 1) (round_list toml c fs0 fs1 s)) (cl s) = (Inr (), cl s')"
    using w' k gate_names_result [OF g] n(1)
    by (auto simp: publish_routes_def Let_def send_def on_client_def agent_core_def hub_fp_eq split: prod.splits)
qed

lemma write_message_Inr_tx:
  "write_message js m c = (Inr u, c') \<Longrightarrow> tx c' = tx c @ ipc_frame js m"
  by (auto simp: write_message_def bind_a_cong_result then_a_result ipc_frame_def Let_def dest!: write_all_Inr)

text \<open>A successful round with plain backend names: what is sent, and that it agrees with the route table.\<close>

lemma refresh_published:
  assumes "refresh_and_publish toml js config fs0 fs1 changed s = (Inr (), s')" "agent_config toml fs0 config = Inr c"
    and "plain_names (hc_backends c)"
  defines "ds \<equiv> round_list toml c fs0 fs1 s"
  shows "write_message js (snapshot_message changed (a_generation s + 1) ds) (cl s) = (Inr (), cl s')"
    and "a_routes s' = route_table ds" and "keys_agree ds" and "a_generation s' = a_generation s + 1"
    and "\<forall>d \<in> set ds. \<exists>b \<in> set (enabled_backends c). from_backend b d \<and> bc_name b \<in> round_names c s"
proof -
  have r: "agent_round toml js fs0 fs1 changed c s = (Inr (), s')"
    using assms(1,2) by (simp add: refresh_and_publish_def bind_a_def)
  note R = agent_round_result [OF r]
  show src: "\<forall>d \<in> set ds. \<exists>b \<in> set (enabled_backends c). from_backend b d \<and> bc_name b \<in> round_names c s"
  proof
    fix d assume "d \<in> set ds"
    from filtered_from_backend [OF this [unfolded ds_def round_list_def]] obtain b body where
      b: "(b, body) \<in> set (round_answers c s)" "body \<noteq> []" "from_backend b d" by blast
    then have "b \<in> set (map fst (round_answers c s))" by force
    with b R(2) show "\<exists>b \<in> set (enabled_backends c). from_backend b d \<and> bc_name b \<in> round_names c s"
      unfolding R(1) by blast
  qed
  then show "keys_agree ds"
    unfolding keys_agree_def using routes_agree [OF assms(3)] by (metis enabled_backends_def filter_is_subset subsetD)
  show "write_message js (snapshot_message changed (a_generation s + 1) ds) (cl s) = (Inr (), cl s')"
    "a_routes s' = route_table ds" "a_generation s' = a_generation s + 1"
    using R(4-6) by (simp_all add: ds_def)
qed

section \<open>Properties\<close>

text \<open>C11: What an agent publishes. A successful round writes exactly one message to the daemon, with the next generation
  number, and the devices in it are, in this order, those that the policy in force enables among the merge of what the enabled backends
  of the configuration answered: a backend outside the version gate, one that cannot be reached and one whose query fails count
  as empty, every other one as the list it sent. Each published device comes from one of these backends, and its route id resolves in
  the agent's route table to that backend's address and pair code and to the device's own serial (when backend names are distinct and
  hold no colon).\<close>

theorem agent_publishes_routes:
  assumes "refresh_and_publish toml js config fs0 fs1 changed s = (Inr (), s')" "agent_config toml fs0 config = Inr c"
    and "plain_names (hc_backends c)"
  shows "let policy = fst (ReloadableHubPolicy_refresh toml fs1 (ReloadableHubPolicy_from_config toml fs0 (agent_hub c)));
      n = (if fst (a_compat s) = hub_fp c then dials s else dials (snd (filter_compatible_backends (enabled_backends c) s)));
      rows = answers (dialer s) (round_names c s) n (enabled_backends c);
      ds = filter (\<lambda>d. backend_enabled policy (backend_name d) \<and> device_enabled policy (public_serial d))
        (devices (merge_device_lists rows)) in
    tx (cl s') = tx (cl s) @ ipc_frame js (snapshot_message changed (a_generation s + 1) ds)
    \<and> a_generation s' = a_generation s + 1 \<and> map fst rows = enabled_backends c
    \<and> (\<forall>d \<in> set ds. \<exists>b \<in> set (enabled_backends c). backend_name d = bc_name b \<and> bc_name b \<in> round_names c s
         \<and> a_routes s' (sd_route_id (sanitize d))
             = Some \<lparr>re_addr = bc_addr b, re_pair_code = bc_pair_code b, re_upstream_serial = upstream_serial d\<rparr>)"
proof -
  note P = refresh_published [OF assms]
  have r: "agent_round toml js fs0 fs1 changed c s = (Inr (), s')"
    using assms(1,2) by (simp add: refresh_and_publish_def bind_a_def)
  have "\<forall>d \<in> set (round_list toml c fs0 fs1 s). a_routes s' (route_key d) = Some (route_of d)"
    using route_table_resolves [OF P(3)] P(2) by simp
  then have "\<forall>d \<in> set (round_list toml c fs0 fs1 s). \<exists>b \<in> set (enabled_backends c). backend_name d = bc_name b \<and> bc_name b \<in> round_names c s
         \<and> a_routes s' (sd_route_id (sanitize d))
             = Some \<lparr>re_addr = bc_addr b, re_pair_code = bc_pair_code b, re_upstream_serial = upstream_serial d\<rparr>"
    using P(5) by (fastforce simp: sanitize_def route_of_def from_backend_def)
  then show ?thesis
    using write_message_Inr_tx [OF P(1)] P(4) agent_round_result(1) [OF r]
    unfolding Let_def by (simp only: round_list_def round_answers_def filter_snapshot_def DeviceSnapshot.select_convs simp_thms)
qed

definition demo_asess :: asess where
  "demo_asess = \<lparr>cl = open_conn [], dialer = (\<lambda>_ _. Inr (open_conn (okay_reply ''S1 device''))), dials = 0, spliced = [],
     a_routes = Map.empty, a_streams = Map.empty, a_tasks = [], a_compat = ([], {}), a_generation = 0,
     a_polling = True, a_running = True\<rparr>"

definition demo_agent :: AgentConfig where
  "demo_agent = \<lparr>ac_config_path = ''c.toml'', ac_control_abstract = ''adb-hubd'', ac_control_path = None, ac_poll_interval = 1000,
     ac_inline_backends = Some (local_only\<lparr>hc_backends := [demo_backend ''a'']\<rparr>), ac_connect_retries = 50, ac_connect_retry_delay = 100\<rparr>"

definition demo_js :: json where
  "demo_js = demo_json\<lparr>j_snapshot := \<lambda>m. Inr (concat (map sd_route_id (ds_devices m))),
     j_result := \<lambda>r. Inr (be32 (or_stream_id r) @ unwrap_or [] (or_fail_reason r))\<rparr>"

lemma demo_fetch:
  "fetch_or_empty (demo_backend n) (demo_asess\<lparr>cl := x, a_compat := c\<rparr>) = (Inr ''S1 device'', demo_asess\<lparr>cl := x, a_compat := c, dials := 1\<rparr>)"
proof -
  let ?up = "(open_conn (okay_reply ''S1 device''))\<lparr>tx := packet ''host:devices-l''\<rparr>"
  have w: "write_service v c = (Inr (), c\<lparr>tx := tx c @ packet v\<rparr>)" if "tx_room c = None" for v c
    using that by (simp add: write_service_def write_packet_unlimited)
  have r: "read_okay_payload ?up = (Inr ''S1 device'', ?up\<lparr>rx := []\<rparr>)"
    by (rule read_okay_payload_okay) (simp_all add: fits16_def)
  have "utf8_lossy ''S1 device'' = ''S1 device''"
    by (intro utf8_lossy_valid utf8_valid_ascii) (simp add: ascii_def)
  then show ?thesis
    by (simp add: fetch_or_empty_def fetch_devices_l_def query_def backend_connect_def bind_a_def dial_def demo_asess_def
        demo_backend_def try_a_def on_up_def w r)
qed

lemma demo_asess_open: "demo_asess\<lparr>cl := open_conn [], a_compat := c\<rparr> = demo_asess\<lparr>a_compat := c\<rparr>"
  by (simp add: demo_asess_def)

lemma bind_lift: "bind_a (lift_r (Inr x)) f = f x"
  by (simp add: bind_a_def fun_eq_iff)

lemma ex_result: "fst x = Inr () \<Longrightarrow> \<exists>s'. x = (Inr (), s')"
  by (cases x) simp

text \<open>The demo agent's round: one backend without a pair code, one device.\<close>

lemma demo_round:
  "\<exists>s'. refresh_and_publish (\<lambda>_. Inl []) demo_js demo_agent (demo_fs None) (demo_fs None) changed demo_asess = (Inr (), s')"
proof -
  have e: "enabled_backends (agent_hub (local_only\<lparr>hc_backends := [demo_backend ''a'']\<rparr>)) = [demo_backend ''a'']"
    by (simp add: enabled_backends_def agent_hub_def demo_backend_def)
  have c: "agent_config (\<lambda>_. Inl []) (demo_fs None) demo_agent = Inr (local_only\<lparr>hc_backends := [demo_backend ''a'']\<rparr>)"
    by (simp add: agent_config_def Let_def demo_agent_def fs_is_file_def demo_fs_def)
  let ?fp = "backends_fingerprint [demo_backend ''a'']"
  have "?fp \<noteq> []" by (simp add: backends_fingerprint_def demo_backend_def)
  then have g: "gate_names [demo_backend ''a''] demo_asess = (Inr {''a''}, demo_asess\<lparr>a_compat := (?fp, {''a''})\<rparr>)"
    by (simp add: gate_names_def Let_def demo_asess_def bind_a_def) (simp add: demo_backend_def)
  have p: "poll_lists {''a''} [demo_backend ''a''] (demo_asess\<lparr>a_compat := (?fp, {''a''})\<rparr>)
      = (Inr [(demo_backend ''a'', ''S1 device'')], demo_asess\<lparr>a_compat := (?fp, {''a''}), dials := 1\<rparr>)"
    using demo_fetch [of "''a''" "(?fp, {''a''})" "open_conn []"] demo_asess_open by (simp add: bind_a_def) (simp add: demo_backend_def)
  have w: "fst (publish_routes demo_js changed ds (demo_asess\<lparr>a_compat := x, dials := 1\<rparr>)) = Inr ()" for ds x
    by (cases changed) (simp_all add: publish_routes_def Let_def send_def on_client_def write_message_def snapshot_message_def encode_message_def
        demo_js_def to_json_def bind_a_def then_a_def demo_asess_def write_all_unlimited)
  show ?thesis
    by (simp only: refresh_and_publish_def c bind_lift agent_round_def Let_def e bind_a_Pair(1) [where m = "gate_names [demo_backend ''a'']", OF g] bind_a_Pair(1) [where m = "poll_lists {''a''} [demo_backend ''a'']", OF p] ex_result [OF w])
qed

text \<open>The list that round publishes.\<close>

abbreviation "demo_hub \<equiv> local_only\<lparr>hc_backends := [demo_backend ''a'']\<rparr>"

definition demo_list :: "DeviceEntry list" where
  "demo_list = [mk_entry ''S1'' (demo_backend ''a'', ''S1'', ''device'', [])]"

lemma demo_config: "agent_config (\<lambda>_. Inl []) (demo_fs None) demo_agent = Inr demo_hub" "plain_names (hc_backends demo_hub)"
  by (simp_all add: agent_config_def Let_def demo_agent_def fs_is_file_def demo_fs_def plain_names_def demo_backend_def)

lemma demo_enabled: "enabled_backends demo_hub = [demo_backend ''a'']"
  by (simp add: enabled_backends_def demo_backend_def)

lemma demo_filtered:
  "devices (filter_snapshot (fst (ReloadableHubPolicy_refresh (\<lambda>_. Inl []) (demo_fs None)
     (ReloadableHubPolicy_from_config (\<lambda>_. Inl []) (demo_fs None) (agent_hub demo_hub)))) (merge_device_lists [(demo_backend ''a'', ''S1 device'')]))
   = demo_list"
proof -
  have m: "merge_device_lists [(demo_backend ''a'', ''S1 device'')] = \<lparr>devices = demo_list\<rparr>"
    unfolding demo_list_def by code_simp
  have q: "fst (ReloadableHubPolicy_refresh (\<lambda>_. Inl []) (demo_fs None) (ReloadableHubPolicy_from_config (\<lambda>_. Inl []) (demo_fs None) (agent_hub demo_hub)))
      = policy_of_config (agent_hub demo_hub)"
    by (simp add: ReloadableHubPolicy_refresh_def ReloadableHubPolicy_from_config_def Let_def agent_hub_def local_only_def)
  have "backend_enabled (policy_of_config (agent_hub demo_hub)) ''a'' = True" "device_enabled (policy_of_config (agent_hub demo_hub)) ''S1'' = True"
    by code_simp+
  then show ?thesis unfolding m q by (simp add: filter_snapshot_def demo_list_def mk_entry_def) (simp add: demo_backend_def)
qed

lemma demo_round_list:
  "round_list (\<lambda>_. Inl []) demo_hub (demo_fs None) (demo_fs None) (demo_asess\<lparr>cl := x\<rparr>) = demo_list"
proof -
  let ?s = "demo_asess\<lparr>cl := x\<rparr>"
  have "hub_fp demo_hub \<noteq> []" unfolding hub_fp_eq demo_enabled by (simp add: backends_fingerprint_def demo_backend_def)
  then have f: "fst (a_compat ?s) \<noteq> hub_fp demo_hub" by (simp add: demo_asess_def)
  have k: "filter_compatible_backends [demo_backend ''a''] ?s = (Inr [demo_backend ''a''], ?s)"
    by (simp add: bind_a_def demo_backend_def)
  have n: "round_names demo_hub ?s = {''a''}" using f by (simp add: round_names_def demo_enabled k) (simp add: demo_backend_def)
  have "answer_of (demo_backend ''a'') (dialer ?s (dials ?s) (bc_addr (demo_backend ''a''))) = ''S1 device''"
    using demo_fetch [of "''a''" "a_compat demo_asess" x] fetch_or_empty_answer [of "demo_backend ''a''" ?s] by (simp add: demo_asess_def)
  then have "answers (dialer ?s) {''a''} (dials ?s) [demo_backend ''a''] = [(demo_backend ''a'', ''S1 device'')]"
    by simp (simp add: demo_backend_def)
  then have "round_answers demo_hub ?s = [(demo_backend ''a'', ''S1 device'')]"
    unfolding round_answers_def n if_not_P [OF f] demo_enabled k snd_conv .
  then show ?thesis unfolding round_list_def by (simp only: demo_filtered)
qed

theorem agent_publishes_routes_witness:
  "\<exists>s'. refresh_and_publish (\<lambda>_. Inl []) demo_js demo_agent (demo_fs None) (demo_fs None) False demo_asess = (Inr (), s')
     \<and> tx (cl s') = ipc_frame demo_js (snapshot_message False 1 demo_list)
     \<and> a_routes s' ''a:S1'' = Some \<lparr>re_addr = localhost 5038, re_pair_code = None, re_upstream_serial = ''S1''\<rparr>"
proof -
  obtain s' where r: "refresh_and_publish (\<lambda>_. Inl []) demo_js demo_agent (demo_fs None) (demo_fs None) False demo_asess = (Inr (), s')"
    using demo_round by blast
  have L: "round_list (\<lambda>_. Inl []) demo_hub (demo_fs None) (demo_fs None) demo_asess = demo_list"
    using demo_round_list [of "cl demo_asess"] by (simp add: demo_asess_def)
  note P = agent_publishes_routes [OF r demo_config, unfolded Let_def, folded round_answers_def]
  have F: "filter (\<lambda>d. backend_enabled p (backend_name d) \<and> device_enabled p (public_serial d)) (devices m) = devices (filter_snapshot p m)" for p m
    by (simp add: filter_snapshot_def)
  note P2 = P [unfolded F, folded round_list_def, unfolded L]
  have d: "\<forall>d \<in> set demo_list. sd_route_id (sanitize d) = ''a:S1'' \<and> upstream_serial d = ''S1''" "demo_list \<noteq> []"
    by (simp_all add: demo_list_def mk_entry_def demo_backend_def sanitize_def route_key_def)
  have b: "\<forall>b \<in> set (enabled_backends demo_hub). bc_addr b = localhost 5038 \<and> bc_pair_code b = None"
    by (simp add: demo_enabled) (simp add: demo_backend_def)
  have z: "tx (cl demo_asess) = []" "a_generation demo_asess = 0" by (simp_all add: demo_asess_def)
  have "tx (cl s') = ipc_frame demo_js (snapshot_message False 1 demo_list)" using P2 z by simp
  moreover obtain e where "e \<in> set demo_list" using d(2) by (meson last_in_set)
  then have "a_routes s' ''a:S1'' = Some \<lparr>re_addr = localhost 5038, re_pair_code = None, re_upstream_serial = ''S1''\<rparr>"
    using P2 d(1) b by fastforce
  ultimately show ?thesis using r by blast
qed

text \<open>The version gate is sticky. As long as the backends of the configuration stay the same, a backend
  that the cached gate left out (for instance because it could not be reached when the gate was asked)
  is never published, and the cache does not change.\<close>

theorem agent_gate_sticky:
  assumes "refresh_and_publish toml js config fs0 fs1 changed s = (Inr (), s')" "agent_config toml fs0 config = Inr c"
    and "fst (a_compat s) = hub_fp c"
  shows "a_compat s' = a_compat s
    \<and> (\<exists>ds. tx (cl s') = tx (cl s) @ ipc_frame js (snapshot_message changed (a_generation s + 1) ds)
         \<and> backend_name ` set ds \<subseteq> snd (a_compat s))"
proof -
  have r: "agent_round toml js fs0 fs1 changed c s = (Inr (), s')"
    using assms(1,2) by (simp add: refresh_and_publish_def bind_a_def)
  note R = agent_round_result [OF r]
  have n: "round_names c s = snd (a_compat s)" using assms(3) by (simp add: round_names_def)
  have "backend_name ` set (round_list toml c fs0 fs1 s) \<subseteq> round_names c s"
  proof (rule image_subsetI)
    fix d assume "d \<in> set (round_list toml c fs0 fs1 s)"
    from filtered_from_backend [OF this [unfolded round_list_def]] R(2) show "backend_name d \<in> round_names c s"
      by (fastforce simp: from_backend_def)
  qed
  then show ?thesis using write_message_Inr_tx [OF R(6)] R(3) n assms(3) by (auto simp: prod_eq_iff)
qed

theorem agent_gate_sticky_witness:
  "\<exists>s1 s2. refresh_and_publish (\<lambda>_. Inl []) demo_js demo_agent (demo_fs None) (demo_fs None) False (demo_asess\<lparr>a_compat := s1\<rparr>) = (Inr (), s2)
     \<and> snd s1 = {} \<and> a_compat s2 = s1"
proof -
  let ?c = "local_only\<lparr>hc_backends := [demo_backend ''a'']\<rparr>"
  let ?s = "demo_asess\<lparr>a_compat := (hub_fp ?c, {})\<rparr>"
  have c: "agent_config (\<lambda>_. Inl []) (demo_fs None) demo_agent = Inr ?c"
    by (simp add: agent_config_def Let_def demo_agent_def fs_is_file_def demo_fs_def)
  have e0: "enabled_backends ?c = [demo_backend ''a'']" by (simp add: enabled_backends_def demo_backend_def)
  then have e: "enabled_backends (agent_hub ?c) = [demo_backend ''a'']" by (simp add: enabled_agent_hub)
  have w: "fst (publish_routes demo_js False ds ?s) = Inr ()" for ds
    by (simp add: publish_routes_def Let_def send_def on_client_def write_message_def snapshot_message_def encode_message_def
        demo_js_def to_json_def bind_a_def then_a_def demo_asess_def write_all_unlimited)
  have g: "gate_names [demo_backend ''a''] ?s = (Inr {}, ?s)"
    by (simp add: gate_names_def Let_def hub_fp_eq e0)
  have p: "poll_lists {} [demo_backend ''a''] ?s = (Inr [(demo_backend ''a'', [])], ?s)"
    by (simp add: bind_a_def)
  have "\<exists>s2. refresh_and_publish (\<lambda>_. Inl []) demo_js demo_agent (demo_fs None) (demo_fs None) False ?s = (Inr (), s2)"
    by (simp only: refresh_and_publish_def c bind_lift agent_round_def Let_def e bind_a_Pair(1) [where m = "gate_names [demo_backend ''a'']", OF g] bind_a_Pair(1) [where m = "poll_lists {} [demo_backend ''a'']", OF p] ex_result [OF w])
  then obtain s2 where r: "refresh_and_publish (\<lambda>_. Inl []) demo_js demo_agent (demo_fs None) (demo_fs None) False ?s = (Inr (), s2)" by blast
  have "fst (a_compat ?s) = hub_fp ?c" by simp
  from agent_gate_sticky [OF r c this] have "a_compat s2 = a_compat ?s" by blast
  then show ?thesis by (intro exI [of _ "(hub_fp ?c, {})"] exI [of _ s2] conjI r) simp_all
qed

section \<open>The poller and the streams\<close>

lemma poll_stopped:
  assumes "\<not> a_polling s" "\<forall>e \<in> set evs. \<exists>f g. e = EvPoll f g"
  shows "fold (agent_step toml js config) evs s = s"
  using assms(2)
proof (induction evs)
  case (Cons e evs)
  then obtain f g where "e = EvPoll f g" by auto
  then have "agent_step toml js config e s = s" using assms(1) by (simp add: agent_poll_def)
  with Cons show ?case by simp
qed simp

text \<open>One bad look ends polling for good. When the configuration file cannot be read or does not
  validate at one poll (and there is no inline configuration), no later poll publishes anything, however
  the file is repaired: the daemon keeps the last device list for as long as the agent runs.\<close>

theorem agent_poller_stops:
  assumes "ac_inline_backends config = None" "fs_is_file fs0 (ac_config_path config)"
    and "HubConfig_load_file toml (fs_read fs0) (ac_config_path config) = Inl e"
    and "\<forall>e \<in> set evs. \<exists>f g. e = EvPoll f g"
  shows "cl (fold (agent_step toml js config) (EvPoll fs0 fs1 # evs) s) = cl s"
proof (cases "a_polling s")
  case True
  have "agent_config toml fs0 config = Inl (IoErr InvalidData (ConfigError_display e))"
    using assms(1-3) by (simp add: agent_config_def Let_def)
  then have "agent_step toml js config (EvPoll fs0 fs1) s = s\<lparr>a_polling := False\<rparr>"
    using True by (simp add: agent_poll_def refresh_and_publish_def bind_a_def)
  then show ?thesis using poll_stopped [OF _ assms(4), of "s\<lparr>a_polling := False\<rparr>"] by simp
next
  case False
  have "\<forall>e \<in> set (EvPoll fs0 fs1 # evs). \<exists>f g. e = EvPoll f g" using assms(4) by simp
  from poll_stopped [OF False this] show ?thesis by simp
qed

theorem agent_poller_stops_witness:
  "cl (fold (agent_step (\<lambda>_. Inl ''bad'') demo_js (demo_agent\<lparr>ac_inline_backends := None\<rparr>))
     [EvPoll (file_fs ''?'' 1) (file_fs ''?'' 1), EvPoll (demo_fs None) (demo_fs None)] demo_asess) = cl demo_asess"
proof -
  let ?a = "demo_agent\<lparr>ac_inline_backends := None\<rparr>"
  have f: "fs_is_file (file_fs ''?'' 1) (ac_config_path ?a)" by (simp add: fs_is_file_def file_fs_def demo_agent_def)
  have "fs_read (file_fs ''?'' 1) ''c.toml'' = Inr ''?''"
    by (simp add: fs_read_def file_fs_def from_utf8_def utf8_valid_ascii ascii_def)
  then have l: "HubConfig_load_file (\<lambda>_. Inl ''bad'') (fs_read (file_fs ''?'' 1)) (ac_config_path ?a) = Inl (TomlDe ''bad'')"
    by (simp add: HubConfig_load_file_def HubConfig_from_toml_str_def demo_agent_def)
  show ?thesis by (rule agent_poller_stops [OF _ f l]) simp_all
qed

text \<open>What a send leaves alone.\<close>

lemma send_keeps [simp]:
  "a_streams (snd (send js m s)) = a_streams s" "a_tasks (snd (send js m s)) = a_tasks s"
  "a_routes (snd (send js m s)) = a_routes s"
  by (simp_all add: send_def on_client_def split: prod.split)

text \<open>Opening a stream. Asked to open a route it knows, whose backend accepts the connection and the
  pair code, the agent answers with success and starts a task on a connection that has been sent
  exactly the authentication (if the route has a code) and the requested service.\<close>

theorem agent_opens_stream:
  assumes "a_routes s (op_route_id req) = Some r" "dialer s (dials s) (re_addr r) = Inr up" "tx_room up = None"
    and "rx up = (if re_pair_code r = None then [] else ''OKAY'') @ rest"
    and "tx_room (cl s) = None" "encode_message js (open_result (op_stream_id req) None) = Inr (ty, payload)"
  shows "handle_daemon_message js (MOpenPrivateStream req) s =
    (Inr (), s\<lparr>dials := Suc (dials s),
       cl := (cl s)\<lparr>tx := tx (cl s) @ ipc_frame js (open_result (op_stream_id req) None)\<rparr>,
       a_streams := (a_streams s)(op_stream_id req \<mapsto> length (a_tasks s)),
       a_tasks := a_tasks s @ [Some \<lparr>tk_id = op_stream_id req,
         tk_up = up\<lparr>tx := tx up @ upstream_prelude (re_pair_code r) (op_service req), rx := rest\<rparr>, tk_queue = []\<rparr>]\<rparr>)"
proof -
  let ?c = "(cl s)\<lparr>tx := tx (cl s) @ ipc_frame js (open_result (op_stream_id req) None)\<rparr>"
  have w: "write_message js (open_result (op_stream_id req) None) (cl s) = (Inr (), ?c)"
    by (rule write_message_tx [OF assms(5,6)])
  have ws: "write_service v c = (Inr (), c\<lparr>tx := tx c @ packet v\<rparr>)" if "tx_room c = None" for v c
    using that by (simp add: write_service_def write_packet_unlimited)
  show ?thesis
  proof (cases "re_pair_code r")
    case None
    then have "rx up = rest" using assms(4) by simp
    then show ?thesis
      using assms(1-3) None w
      by (simp add: handle_daemon_message_def open_private_stream_def Let_def try_a_def dial_def on_up_def ws then_a_def bind_a_def
          send_def on_client_def spawn_stream_def upstream_prelude_def)
  next
    case (Some k)
    then have "authenticate_stream k up = (Inr (), up\<lparr>rx := rest, tx := tx up @ packet (auth_service k)\<rparr>)"
      using assms(3,4) by (intro authenticate_stream_okay) simp_all
    then show ?thesis
      using assms(1-3) Some w
      by (simp add: handle_daemon_message_def open_private_stream_def Let_def try_a_def dial_def on_up_def ws then_a_def bind_a_def
          send_def on_client_def spawn_stream_def upstream_prelude_def)
  qed
qed

theorem agent_opens_stream_witness:
  "tx (tk_up (the (last (a_tasks (snd (handle_daemon_message demo_js
     (MOpenPrivateStream \<lparr>op_stream_id = 7, op_route_id = ''a:S1'', op_service = ''shell:ls''\<rparr>)
     (demo_asess\<lparr>a_routes := [''a:S1'' \<mapsto> \<lparr>re_addr = localhost 5038, re_pair_code = None, re_upstream_serial = ''S1''\<rparr>]\<rparr>)))))))
   = packet ''shell:ls''"
proof -
  let ?r = "\<lparr>re_addr = localhost 5038, re_pair_code = None, re_upstream_serial = ''S1''\<rparr>"
  let ?s = "demo_asess\<lparr>a_routes := [''a:S1'' \<mapsto> ?r]\<rparr>"
  let ?q = "\<lparr>op_stream_id = 7, op_route_id = ''a:S1'', op_service = ''shell:ls''\<rparr>"
  have a: "a_routes ?s (op_route_id ?q) = Some ?r" "dialer ?s (dials ?s) (re_addr ?r) = Inr (open_conn (okay_reply ''S1 device''))"
    "tx_room (open_conn (okay_reply ''S1 device'')) = None" "tx_room (cl ?s) = None"
    by (simp_all add: demo_asess_def)
  have b: "rx (open_conn (okay_reply ''S1 device'')) = (if re_pair_code ?r = None then [] else ''OKAY'') @ okay_reply ''S1 device''" by simp
  have c: "encode_message demo_js (open_result (op_stream_id ?q) None) = Inr (MtOpenResult, be32 7)"
    by (simp add: encode_message_def open_result_def demo_js_def to_json_def)
  show ?thesis using agent_opens_stream [OF a(1-3) b a(4) c] by (simp add: upstream_prelude_def)
qed

text \<open>Every registered sender leads to a live task of its own stream.\<close>

definition streams_ok :: "asess \<Rightarrow> bool" where
  "streams_ok s \<longleftrightarrow> (\<forall>i j. a_streams s i = Some j \<longrightarrow> j < length (a_tasks s) \<and> (\<exists>t. a_tasks s ! j = Some t \<and> tk_id t = i))"

lemma streams_ok_cong: "a_streams s = a_streams t \<Longrightarrow> a_tasks s = a_tasks t \<Longrightarrow> streams_ok s = streams_ok t"
  by (simp add: streams_ok_def)

lemma streams_okI:
  "(\<And>i j. a_streams s i = Some j \<Longrightarrow> j < length (a_tasks s) \<and> (\<exists>t. a_tasks s ! j = Some t \<and> tk_id t = i)) \<Longrightarrow> streams_ok s"
  by (simp add: streams_ok_def)

lemma streams_okD:
  "streams_ok s \<Longrightarrow> a_streams s i = Some j \<Longrightarrow> j < length (a_tasks s) \<and> (\<exists>t. a_tasks s ! j = Some t \<and> tk_id t = i)"
  by (simp add: streams_ok_def)

lemma streams_ok_spawn: "streams_ok s \<Longrightarrow> streams_ok (snd (spawn_stream i up s))"
proof (rule streams_okI)
  fix k j assume ok: "streams_ok s" and k: "a_streams (snd (spawn_stream i up s)) k = Some j"
  show "j < length (a_tasks (snd (spawn_stream i up s))) \<and> (\<exists>t. a_tasks (snd (spawn_stream i up s)) ! j = Some t \<and> tk_id t = k)"
  proof (cases "k = i")
    case True
    with k show ?thesis by (auto simp: spawn_stream_def)
  next
    case False
    with k have "a_streams s k = Some j" by (simp add: spawn_stream_def)
    from streams_okD [OF ok this] show ?thesis by (auto simp: spawn_stream_def nth_append)
  qed
qed

text \<open>Updating a task in place keeps its id.\<close>

lemma streams_ok_update:
  assumes "streams_ok s" "\<And>t. a_tasks s ! j = Some t \<Longrightarrow> \<exists>t'. x = Some t' \<and> tk_id t' = tk_id t"
  shows "streams_ok (s\<lparr>a_tasks := (a_tasks s)[j := x]\<rparr>)"
proof (rule streams_okI)
  fix i k assume "a_streams (s\<lparr>a_tasks := (a_tasks s)[j := x]\<rparr>) i = Some k"
  then have "a_streams s i = Some k" by simp
  from streams_okD [OF assms(1) this] assms(2)
  show "k < length (a_tasks (s\<lparr>a_tasks := (a_tasks s)[j := x]\<rparr>))
    \<and> (\<exists>t. a_tasks (s\<lparr>a_tasks := (a_tasks s)[j := x]\<rparr>) ! k = Some t \<and> tk_id t = i)"
    by (cases "k = j") auto
qed

lemma streams_ok_end:
  assumes "streams_ok s" "a_tasks s ! j = Some t" "tk_id t = i"
  shows "streams_ok (task_end js j i s)"
proof (rule streams_okI)
  fix k l assume "a_streams (task_end js j i s) k = Some l"
  then have k: "k \<noteq> i" "a_streams s k = Some l" by (auto simp: task_end_def split: if_splits)
  from streams_okD [OF assms(1) k(2)] have l: "l < length (a_tasks s)" "\<exists>t. a_tasks s ! l = Some t \<and> tk_id t = k" by simp_all
  then have "l \<noteq> j" using assms(2,3) k(1) by auto
  with l show "l < length (a_tasks (task_end js j i s)) \<and> (\<exists>t. a_tasks (task_end js j i s) ! l = Some t \<and> tk_id t = k)"
    by (simp add: task_end_def)
qed

lemma streams_ok_enqueue: "streams_ok s \<Longrightarrow> streams_ok (enqueue j data s)"
  unfolding enqueue_def by (auto intro!: streams_ok_update)

lemma open_cases:
  "(a_streams (snd (open_private_stream js req s)) = a_streams s \<and> a_tasks (snd (open_private_stream js req s)) = a_tasks s)
   \<or> (\<exists>up t. a_streams t = a_streams s \<and> a_tasks t = a_tasks s
        \<and> snd (open_private_stream js req s) = snd (spawn_stream (op_stream_id req) up t))"
proof (cases "a_routes s (op_route_id req)")
  case (Some r)
  let ?s = "s\<lparr>dials := Suc (dials s)\<rparr>"
  show ?thesis
  proof (cases "dialer s (dials s) (re_addr r)")
    case (Inl e)
    with Some show ?thesis by (simp add: open_private_stream_def Let_def try_a_def dial_def)
  next
    case (Inr up)
    obtain a up1 where a: "(case re_pair_code r of None \<Rightarrow> ret () up | Some k \<Rightarrow> authenticate_stream k up) = (a, up1)" by force
    show ?thesis
    proof (cases a)
      case (Inl e)
      with a Inr Some show ?thesis by (simp add: open_private_stream_def Let_def try_a_def dial_def)
    next
      case a1: (Inr u)
      obtain w up2 where w: "write_service (op_service req) up1 = (w, up2)" by force
      obtain x s2 where sd: "send js (open_result (op_stream_id req) None) ?s = (x, s2)" by force
      then have k: "a_streams s2 = a_streams s \<and> a_tasks s2 = a_tasks s"
        using send_keeps(1,2) [of js "open_result (op_stream_id req) None" ?s] by simp
      show ?thesis
      proof (cases "isl w \<or> isl x")
        case True
        with a1 a Inr Some w sd k show ?thesis
          by (cases w; cases x) (simp_all add: open_private_stream_def Let_def try_a_def dial_def on_up_def then_a_def bind_a_def)
      next
        case False
        with a1 a Inr Some w sd k show ?thesis
          by (cases w; cases x) (auto simp: open_private_stream_def Let_def try_a_def dial_def on_up_def then_a_def bind_a_def)
      qed
    qed
  qed
qed (simp add: open_private_stream_def Let_def)

lemma streams_ok_message: "streams_ok s \<Longrightarrow> streams_ok (snd (handle_daemon_message js msg s))"
proof (cases msg)
  case (MOpenPrivateStream req)
  assume ok: "streams_ok s"
  from open_cases [of js req s] show ?thesis
  proof
    assume "a_streams (snd (open_private_stream js req s)) = a_streams s \<and> a_tasks (snd (open_private_stream js req s)) = a_tasks s"
    with ok MOpenPrivateStream show ?thesis by (simp add: handle_daemon_message_def streams_ok_def)
  next
    assume "\<exists>up t. a_streams t = a_streams s \<and> a_tasks t = a_tasks s
        \<and> snd (open_private_stream js req s) = snd (spawn_stream (op_stream_id req) up t)"
    then obtain up t where "a_streams t = a_streams s" "a_tasks t = a_tasks s"
      "snd (open_private_stream js req s) = snd (spawn_stream (op_stream_id req) up t)" by blast
    with ok MOpenPrivateStream show ?thesis
      using streams_ok_spawn [of t] by (simp add: handle_daemon_message_def streams_ok_def)
  qed
next
  case (MStreamClose c)
  assume "streams_ok s"
  with MStreamClose show ?thesis by (auto simp: handle_daemon_message_def streams_ok_def)
qed (auto simp: handle_daemon_message_def streams_ok_enqueue split: option.split elim: iffD1 [OF streams_ok_cong, rotated -1])

lemma streams_ok_send: "streams_ok s \<Longrightarrow> streams_ok (snd (send js m s))"
  by (simp add: streams_ok_def)

lemma streams_ok_to_up: "streams_ok s \<Longrightarrow> streams_ok (task_to_up js j s)"
  by (auto simp: task_to_up_def intro: streams_ok_end streams_ok_update split: option.split list.split prod.split sum.split if_split)

lemma streams_ok_from_up:
  assumes ok: "streams_ok s"
  shows "streams_ok (task_from_up js n j s)"
proof (cases "j < length (a_tasks s) \<and> a_tasks s ! j \<noteq> None")
  case True
  then obtain t where t: "j < length (a_tasks s)" "a_tasks s ! j = Some t" by auto
  let ?k = "read_size n"
  let ?t = "t\<lparr>tk_up := (tk_up t)\<lparr>rx := drop ?k (rx (tk_up t))\<rparr>\<rparr>"
  let ?s = "s\<lparr>a_tasks := (a_tasks s)[j := Some ?t]\<rparr>"
  obtain r s2 where s2: "send js (MStreamData (tk_id t) (take ?k (rx (tk_up t)))) ?s = (r, s2)" by force
  have "streams_ok ?s" using t by (intro streams_ok_update ok) auto
  then have ok2: "streams_ok s2" using streams_ok_send [of ?s js "MStreamData (tk_id t) (take ?k (rx (tk_up t)))"] by (simp add: s2)
  have "a_tasks s2 = a_tasks ?s" using send_keeps(2) [of js "MStreamData (tk_id t) (take ?k (rx (tk_up t)))" ?s] by (simp add: s2)
  then have "a_tasks s2 ! j = Some ?t" using t by simp
  then have "streams_ok (task_end js j (tk_id t) s2)" by (rule streams_ok_end [OF ok2]) simp
  with ok2 streams_ok_end [OF ok t(2) refl] t s2 show ?thesis
    by (simp add: task_from_up_def Let_def split: sum.split)
qed (use ok in \<open>auto simp: task_from_up_def\<close>)

lemma keeps_refresh: "keeps (\<lambda>s. (a_streams s, a_tasks s)) (refresh_and_publish toml js config fs0 fs1 changed)"
proof -
  have a: "keeps (\<lambda>s. (a_streams s, a_tasks s)) m" if "keeps agent_core m" for m :: "(asess, 'b) act"
    using that by (auto simp: keeps_def agent_core_def)
  have b: "keeps (\<lambda>s. (a_streams s, a_tasks s)) m" if "keeps (\<lambda>s. (agent_core s, a_compat s)) m" for m :: "(asess, 'b) act"
    using that by (auto simp: keeps_def agent_core_def)
  have p: "keeps (\<lambda>s. (a_streams s, a_tasks s)) (publish_routes js changed ds)" for ds
    by (simp add: keeps_def publish_routes_def Let_def)
  show ?thesis
    unfolding refresh_and_publish_def agent_round_def Let_def
    by (intro keeps_bind keeps_ret a [OF keeps_gate] b [OF keeps_poll_lists] p)
qed

lemma streams_ok_poll: "streams_ok s \<Longrightarrow> streams_ok (agent_poll toml js config fs0 fs1 s)"
proof -
  assume ok: "streams_ok s"
  note k = keeps_refresh [of toml js config fs0 fs1 True]
  obtain r s' where s': "refresh_and_publish toml js config fs0 fs1 True s = (r, s')" by force
  from keepsD [OF k s'] ok s' show ?thesis by (simp add: agent_poll_def streams_ok_def split: sum.split)
qed

lemma streams_ok_run:
  assumes "streams_ok s"
  shows "streams_ok (fold (agent_step toml js config) evs s)"
  using assms
proof (induction evs arbitrary: s)
  case (Cons e evs)
  have "streams_ok (agent_step toml js config e s)"
  proof (cases e)
    case EvMessage
    obtain r c where r: "read_message js (cl s) = (r, c)" by force
    have "streams_ok (s\<lparr>cl := c\<rparr>)" using Cons.prems by (simp add: streams_ok_def)
    from streams_ok_message [OF this] Cons.prems r EvMessage show ?thesis
      by (simp add: agent_message_def on_client_def split: sum.split) (simp add: streams_ok_def)
  qed (use Cons.prems in \<open>simp_all add: streams_ok_to_up streams_ok_from_up streams_ok_poll\<close>)
  then show ?case using Cons.IH by simp
qed simp

text \<open>C12: Stream bookkeeping. In every state the agent can reach, each entry of its sender table leads to
  a live task, and to the task of that very stream id: data the daemon sends for one stream never enters
  another one's queue.\<close>

theorem agent_streams_ok:
  assumes "streams_ok s"
  shows "streams_ok (fold (agent_step toml js config) evs s)"
  using assms by (rule streams_ok_run)

theorem agent_streams_ok_witness:
  "streams_ok (fold (agent_step (\<lambda>_. Inl []) demo_js demo_agent)
     [EvPoll (demo_fs None) (demo_fs None), EvMessage, EvToUp 0] demo_asess)"
  by (rule agent_streams_ok) (simp add: streams_ok_def demo_asess_def)

end
