(* ===== verification/Relational.thy ===== *)
theory Relational
  imports Backend
begin

text \<open>
  Relational reasoning about effectful computations: \<open>related R Q m m'\<close> says that from states in
  relation \<open>R\<close> the computations \<open>m\<close> and \<open>m'\<close> fail with the same error or give results in relation
  \<open>Q\<close>, and end in states in relation \<open>R\<close> again. The rules follow the combinators, so a proof
  follows the two programs in step. The locale \<open>dial_relation\<close> is what a state relation has to
  satisfy for connections to backends; it carries the relation through the queries of backend.rs
  for two backends that differ in the letters of their pair codes.
\<close>

section \<open>Related computations\<close>

definition related :: "('s \<Rightarrow> 't \<Rightarrow> bool) \<Rightarrow> ('a \<Rightarrow> 'b \<Rightarrow> bool) \<Rightarrow> ('s, 'a) act \<Rightarrow> ('t, 'b) act \<Rightarrow> bool" where
  "related R Q m m' \<longleftrightarrow> (\<forall>s t. R s t \<longrightarrow> rel_sum (=) Q (fst (m s)) (fst (m' t)) \<and> R (snd (m s)) (snd (m' t)))"

lemma relatedI:
  "(\<And>s t. R s t \<Longrightarrow> rel_sum (=) Q (fst (m s)) (fst (m' t)) \<and> R (snd (m s)) (snd (m' t))) \<Longrightarrow> related R Q m m'"
  by (simp add: related_def)

lemma relatedD:
  "related R Q m m' \<Longrightarrow> R s t \<Longrightarrow> rel_sum (=) Q (fst (m s)) (fst (m' t)) \<and> R (snd (m s)) (snd (m' t))"
  by (simp add: related_def)

text \<open>The two possible outcomes of a pair of related computations.\<close>

lemma related_cases:
  assumes "related R Q m m'" "R s t"
  obtains (ok) x y s' t' where "m s = (Inr x, s')" "m' t = (Inr y, t')" "Q x y" "R s' t'"
    | (err) e s' t' where "m s = (Inl e, s')" "m' t = (Inl e, t')" "R s' t'"
proof -
  have r: "rel_sum (=) Q (fst (m s)) (fst (m' t))" "R (snd (m s)) (snd (m' t))" using relatedD [OF assms] by simp_all
  show thesis
  proof (cases "fst (m s)")
    case (Inl e)
    with r(1) have "fst (m' t) = Inl e" by (auto elim: rel_sum.cases)
    with Inl r(2) err show ?thesis by (metis prod.collapse)
  next
    case (Inr x)
    with r(1) obtain y where "fst (m' t) = Inr y" "Q x y" by (auto elim: rel_sum.cases)
    with Inr r(2) ok show ?thesis by (metis prod.collapse)
  qed
qed

lemma re_ret: "Q x y \<Longrightarrow> related R Q (ret x) (ret y)"
  by (simp add: related_def)

lemma re_throw: "related R Q (throw e) (throw e)"
  by (simp add: related_def)

lemma re_lift: "rel_sum (=) Q r r' \<Longrightarrow> related R Q (lift_r r) (lift_r r')"
  by (simp add: related_def)

lemma re_bind:
  assumes "related R P m m'" "\<And>x y. P x y \<Longrightarrow> related R Q (f x) (f' y)"
  shows "related R Q (bind_a m f) (bind_a m' f')"
proof (rule relatedI)
  fix s t assume "R s t"
  with assms(1) show "rel_sum (=) Q (fst (bind_a m f s)) (fst (bind_a m' f' t)) \<and> R (snd (bind_a m f s)) (snd (bind_a m' f' t))"
    by (cases rule: related_cases) (simp_all add: bind_a_Pair relatedD [OF assms(2)])
qed

lemma re_then: "related R P m m' \<Longrightarrow> related R Q n n' \<Longrightarrow> related R Q (then_a m n) (then_a m' n')"
  unfolding then_a_def by (rule re_bind)

lemma re_try:
  assumes "related R P m m'" "\<And>e. related R Q (f (Inl e)) (f' (Inl e))" "\<And>x y. P x y \<Longrightarrow> related R Q (f (Inr x)) (f' (Inr y))"
  shows "related R Q (try_a m f) (try_a m' f')"
proof (rule relatedI)
  fix s t assume "R s t"
  with assms(1) show "rel_sum (=) Q (fst (try_a m f s)) (fst (try_a m' f' t)) \<and> R (snd (try_a m f s)) (snd (try_a m' f' t))"
    by (cases rule: related_cases) (simp_all add: try_a_Pair relatedD [OF assms(2)] relatedD [OF assms(3)])
qed

lemma re_if: "(b \<Longrightarrow> related R Q m m') \<Longrightarrow> (\<not> b \<Longrightarrow> related R Q n n') \<Longrightarrow> related R Q (if b then m else n) (if b then m' else n')"
  by simp

lemma re_bind_eq:
  "related R (=) m m' \<Longrightarrow> (\<And>x. related R Q (f x) (f' x)) \<Longrightarrow> related R Q (bind_a m f) (bind_a m' f')"
  by (rule re_bind [where P = "(=)"]) auto

lemma re_then_eq: "related R (=) m m' \<Longrightarrow> related R Q n n' \<Longrightarrow> related R Q (then_a m n) (then_a m' n')"
  by (rule re_then)

lemmas re_rules = re_ret re_throw re_bind_eq re_then_eq re_if

section \<open>Connections\<close>

text \<open>Two connections that differ at most in what was sent on them.\<close>

definition alike :: "conn \<Rightarrow> conn \<Rightarrow> bool" where
  "alike c d \<longleftrightarrow> rx c = rx d \<and> rx_end c = rx_end d \<and> tx_room c = tx_room d \<and> tx_err c = tx_err d"

abbreviation conn_alike :: "(conn, 'a) act \<Rightarrow> (conn, 'a) act \<Rightarrow> bool" where
  "conn_alike \<equiv> related alike (=)"

lemma alike_refl [simp]: "alike c c"
  by (simp add: alike_def)

lemma ca_read_exact: "conn_alike (read_exact n) (read_exact n)"
  by (auto simp: related_def alike_def read_exact_def)

lemma ca_write_all: "length a = length b \<Longrightarrow> conn_alike (write_all a) (write_all b)"
  by (auto simp: related_def alike_def write_all_def split: option.splits)

lemma ca_flush: "conn_alike flush flush"
  by (simp add: related_def flush_def)

lemma ca_lift: "conn_alike (lift_r r) (lift_r r)"
  by (rule re_lift) (cases r; simp)

lemma ca_write_packet: "length a = length b \<Longrightarrow> conn_alike (write_packet a) (write_packet b)"
  unfolding write_packet_def by (auto intro!: re_then ca_write_all ca_flush)

lemma ca_read_packet: "conn_alike read_packet read_packet"
  unfolding read_packet_def by (intro re_rules ca_lift ca_read_exact refl)

lemma ca_auth:
  assumes "length k = length k'"
  shows "conn_alike (authenticate_stream k) (authenticate_stream k')"
  unfolding authenticate_stream_def write_service_def read_status_def
  by (intro re_rules ca_write_packet ca_read_packet ca_read_exact refl) (simp add: auth_service_def assms)

lemma ca_read_okay: "conn_alike read_okay_payload read_okay_payload"
  unfolding read_okay_payload_def read_status_def by (intro re_rules ca_read_packet ca_read_exact)

lemma ca_write_service: "conn_alike (write_service v) (write_service v)"
  unfolding write_service_def by (rule ca_write_packet) (rule refl)

lemma re_on_up:
  assumes "conn_alike m m'" "alike c d" "\<And>x u v. alike u v \<Longrightarrow> related R Q (k x u) (k' x v)"
  shows "related R Q (on_up m c k) (on_up m' d k')"
proof (rule relatedI)
  fix s t assume R: "R s t"
  from assms(1,2) show "rel_sum (=) Q (fst (on_up m c k s)) (fst (on_up m' d k' t)) \<and> R (snd (on_up m c k s)) (snd (on_up m' d k' t))"
    using R by (cases rule: related_cases) (simp_all add: on_up_Pair relatedD [OF assms(3)])
qed

section \<open>Backends\<close>

text \<open>Backends that differ in the letters of their pair codes only.\<close>

definition code_alike :: "string option \<Rightarrow> string option \<Rightarrow> bool" where
  "code_alike = rel_option (\<lambda>k k'. length k = length k')"

definition same_but_code :: "BackendConfig \<Rightarrow> BackendConfig \<Rightarrow> bool" where
  "same_but_code b c \<longleftrightarrow> bc_name b = bc_name c \<and> bc_addr b = bc_addr c \<and> bc_enabled b = bc_enabled c
     \<and> code_alike (bc_pair_code b) (bc_pair_code c)"

lemma code_alike_cases:
  assumes "code_alike a b"
  obtains "a = None" "b = None" | k k' where "a = Some k" "b = Some k'" "length k = length k'"
  using assms by (auto simp: code_alike_def elim: option.rel_cases)

locale dial_relation =
  fixes R :: "'x sess_scheme \<Rightarrow> 'y sess_scheme \<Rightarrow> bool"
  assumes R_net: "R s t \<Longrightarrow> dialer s = dialer t \<and> dials s = dials t"
    and R_dials: "R s t \<Longrightarrow> R (s\<lparr>dials := n\<rparr>) (t\<lparr>dials := n\<rparr>)"
begin

lemma re_dial: "related R (=) (dial a) (dial a)"
  using R_net R_dials by (simp add: related_def dial_def sum.rel_eq)

lemma re_connect: "code_alike c c' \<Longrightarrow> related R alike (backend_connect a c) (backend_connect a c')"
  unfolding backend_connect_def
proof (erule code_alike_cases)
  show "c = None \<Longrightarrow> c' = None \<Longrightarrow> related R alike (bind_a (dial a) (\<lambda>stream. case c of None \<Rightarrow> ret stream
      | Some k \<Rightarrow> on_up (authenticate_stream k) stream (\<lambda>_ st. ret st))) (bind_a (dial a) (\<lambda>stream. case c' of None \<Rightarrow> ret stream
      | Some k \<Rightarrow> on_up (authenticate_stream k) stream (\<lambda>_ st. ret st)))"
    by (simp only: option.case) (intro re_bind_eq re_dial re_ret alike_refl)
  show "c = Some k \<Longrightarrow> c' = Some k' \<Longrightarrow> length k = length k' \<Longrightarrow> related R alike (bind_a (dial a) (\<lambda>stream. case c of None \<Rightarrow> ret stream
      | Some k \<Rightarrow> on_up (authenticate_stream k) stream (\<lambda>_ st. ret st))) (bind_a (dial a) (\<lambda>stream. case c' of None \<Rightarrow> ret stream
      | Some k \<Rightarrow> on_up (authenticate_stream k) stream (\<lambda>_ st. ret st)))" for k k'
    by (simp only: option.case) (intro re_bind_eq re_dial re_on_up ca_auth alike_refl re_ret)
qed

lemma re_query:
  assumes "code_alike c c'"
  shows "related R (=) (query a c v) (query a c' v)"
  unfolding query_def
  by (rule re_bind [OF re_connect [OF assms]]) (intro re_on_up ca_write_service ca_read_okay re_ret refl, assumption+)

lemma re_fetch:
  assumes "same_but_code b c"
  shows "related R (=) (fetch_or_empty b) (fetch_or_empty c)"
proof -
  have "bc_addr b = bc_addr c" "code_alike (bc_pair_code b) (bc_pair_code c)" using assms by (simp_all add: same_but_code_def)
  then have "related R (=) (fetch_devices_l (bc_addr b) (bc_pair_code b)) (fetch_devices_l (bc_addr c) (bc_pair_code c))"
    unfolding fetch_devices_l_def by (auto intro!: re_bind_eq re_query re_ret simp del: act_unfold)
  then show ?thesis
    unfolding fetch_or_empty_def by (rule re_try) (simp_all only: sum.case re_ret)
qed

lemma re_check:
  assumes "code_alike c c'"
  shows "related R (=) (check_proxy_compat a c) (check_proxy_compat a c')"
proof -
  have "related R (=) (fetch_proxy_version a c) (fetch_proxy_version a c')"
    unfolding fetch_proxy_version_def using assms
    by (cases rule: code_alike_cases) (auto intro!: re_throw re_bind_eq re_query re_ret simp: code_alike_def simp del: act_unfold)
  then show ?thesis
    unfolding check_proxy_compat_def by (rule re_try) (auto intro: re_ret simp del: act_unfold)
qed

lemma re_filter:
  "list_all2 same_but_code bs cs \<Longrightarrow>
     related R (list_all2 same_but_code) (filter_compatible_backends bs) (filter_compatible_backends cs)"
proof (induction bs cs rule: list_all2_induct)
  case Nil
  show ?case unfolding filter_compatible_backends.simps by (rule re_ret) simp
next
  case (Cons b bs c cs)
  have b: "bc_addr b = bc_addr c" "code_alike (bc_pair_code b) (bc_pair_code c)" using Cons.hyps(1) by (simp_all add: same_but_code_def)
  then have n: "(bc_pair_code b = None) = (bc_pair_code c = None)" by (auto elim: code_alike_cases)
  show ?case
    unfolding filter_compatible_backends.simps n b(1)
    by (intro re_if re_bind_eq [OF re_check [OF b(2)]] re_bind [OF Cons.IH] re_ret) (simp_all add: Cons.hyps(1))
qed

end

end
