(* ===== verification/Agent_Secrecy.thy ===== *)
theory Agent_Secrecy
  imports Agent Relational
begin

text \<open>
  What the agent tells the daemon does not depend on the pair codes. Two agents whose configuration
  files and caches differ in the letters of pair codes only, and whose network answers alike, write
  the same bytes to the control connection, whatever the daemon asks and however polls and stream
  tasks interleave.
\<close>

section \<open>Device lists\<close>

text \<open>Device entries up to the pair code.\<close>

definition entry_alike :: "DeviceEntry \<Rightarrow> DeviceEntry \<Rightarrow> bool" where
  "entry_alike d e \<longleftrightarrow> e = d\<lparr>pair_code := pair_code e\<rparr> \<and> code_alike (pair_code d) (pair_code e)"

lemma entry_alike_sel:
  "entry_alike d e \<Longrightarrow> sanitize d = sanitize e \<and> backend_name d = backend_name e \<and> public_serial d = public_serial e
     \<and> route_key d = route_key e \<and> backend_addr d = backend_addr e \<and> code_alike (pair_code d) (pair_code e)"
  unfolding entry_alike_def by (cases e) (simp add: sanitize_def route_key_def)

definition row_alike :: "row \<Rightarrow> row \<Rightarrow> bool" where
  "row_alike = rel_prod same_but_code (=)"

lemma parse_body_alike:
  assumes "same_but_code b c"
  shows "list_all2 row_alike (parse_body (b, body)) (parse_body (c, body))"
proof -
  have "list_all2 row_alike (List.map_filter (\<lambda>line. map_option (\<lambda>(serial, st, ex). (b, serial, st, ex)) (parse_device_line line)) ls)
      (List.map_filter (\<lambda>line. map_option (\<lambda>(serial, st, ex). (c, serial, st, ex)) (parse_device_line line)) ls)" for ls
    using assms by (induction ls) (auto simp: map_filter_simps row_alike_def split: option.split)
  then show ?thesis by (simp add: parse_body_def)
qed

lemma parse_lists_alike:
  "list_all2 (rel_prod same_but_code (=)) lsts lsts' \<Longrightarrow> list_all2 row_alike (parse_lists lsts) (parse_lists lsts')"
  by (induction lsts lsts' rule: list_all2_induct) (auto simp: parse_lists_def intro!: list_all2_appendI parse_body_alike)

lemma serial_count_alike: "list_all2 row_alike rows rows' \<Longrightarrow> serial_count rows = serial_count rows'"
proof (rule ext)
  fix x assume "list_all2 row_alike rows rows'"
  then show "serial_count rows x = serial_count rows' x"
    by (induction rows rows' rule: list_all2_induct) (auto simp: serial_count_def row_alike_def)
qed

lemma merge_rows_alike:
  "list_all2 row_alike rows rows' \<Longrightarrow> list_all2 entry_alike (merge_rows c u n rows) (merge_rows c u n rows')"
proof (induction rows rows' arbitrary: u n rule: list_all2_induct)
  case (Cons r rs r' rs')
  obtain b v where r: "r = (b, v)" by (cases r)
  with Cons.hyps(1) obtain b' where r': "r' = (b', v)" "same_but_code b b'" by (cases r') (auto simp: row_alike_def)
  have p: "public_name c u n b x = public_name c u n b' x" for x using r'(2) by (simp add: public_name_def same_but_code_def Let_def)
  have "entry_alike (mk_entry q r) (mk_entry q r')" for q
    using r r' by (cases v) (simp add: entry_alike_def mk_entry_def same_but_code_def)
  with Cons.IH p show ?case by (simp add: Let_def r r'(1))
qed simp

lemma merge_alike:
  assumes "list_all2 (rel_prod same_but_code (=)) lsts lsts'"
  shows "list_all2 entry_alike (devices (merge_device_lists lsts)) (devices (merge_device_lists lsts'))"
proof -
  note r = parse_lists_alike [OF assms]
  from merge_rows_alike [OF r] serial_count_alike [OF r] show ?thesis by (simp add: merge_device_lists_def Let_def)
qed

lemma filter_alike:
  assumes "list_all2 (rel_prod same_but_code (=)) lsts lsts'"
  shows "list_all2 entry_alike (devices (filter_snapshot p (merge_device_lists lsts))) (devices (filter_snapshot p (merge_device_lists lsts')))"
proof -
  have "list_all2 entry_alike (filter P ds) (filter P es)"
    if "list_all2 entry_alike ds es" "\<And>d e. entry_alike d e \<Longrightarrow> P d = P e" for P ds es
    using that(1) by (induction ds es rule: list_all2_induct) (auto dest: that(2))
  from this [OF merge_alike [OF assms]] show ?thesis
    unfolding filter_snapshot_def DeviceSnapshot.select_convs by (metis (no_types, lifting) entry_alike_sel)
qed

lemma sanitize_alike: "list_all2 entry_alike ds es \<Longrightarrow> map sanitize ds = map sanitize es"
  by (induction ds es rule: list_all2_induct) (auto dest: entry_alike_sel)

lemma enabled_alike:
  "list_all2 same_but_code bs cs \<Longrightarrow> list_all2 same_but_code (filter bc_enabled bs) (filter bc_enabled cs)"
  by (induction bs cs rule: list_all2_induct) (auto simp: same_but_code_def)

lemma names_alike: "list_all2 same_but_code bs cs \<Longrightarrow> map bc_name bs = map bc_name cs"
  by (induction bs cs rule: list_all2_induct) (auto simp: same_but_code_def)

section \<open>Configurations\<close>

definition hub_alike :: "HubConfig \<Rightarrow> HubConfig \<Rightarrow> bool" where
  "hub_alike c d \<longleftrightarrow> list_all2 same_but_code (hc_backends c) (hc_backends d) \<and> hc_devices c = hc_devices d
     \<and> hc_config_path c = hc_config_path d"

lemma flags_alike:
  "list_all2 same_but_code bs cs \<Longrightarrow> map (\<lambda>b. (bc_name b, bc_enabled b)) bs = map (\<lambda>b. (bc_name b, bc_enabled b)) cs"
  by (induction bs cs rule: list_all2_induct) (auto simp: same_but_code_def)

lemma policy_alike: "hub_alike c d \<Longrightarrow> policy_of_config c = policy_of_config d"
  using flags_alike [of "hc_backends c" "hc_backends d"] by (simp add: policy_of_config_def hub_alike_def)

text \<open>Two file systems whose configuration files say the same but for the codes.\<close>

definition file_alike :: "hub_toml \<Rightarrow> string \<Rightarrow> fsys \<Rightarrow> fsys \<Rightarrow> bool" where
  "file_alike toml path fs fs' \<longleftrightarrow> fs_is_file fs path = fs_is_file fs' path \<and> fs_mtime fs path = fs_mtime fs' path
     \<and> rel_sum (=) hub_alike (HubConfig_load_file toml (fs_read fs) path) (HubConfig_load_file toml (fs_read fs') path)"

lemma load_policy_alike: "file_alike toml path fs fs' \<Longrightarrow> load_hub_policy_file toml fs path = load_hub_policy_file toml fs' path"
  by (auto simp: file_alike_def load_hub_policy_file_def policy_alike elim!: rel_sum.cases)

lemma from_config_alike:
  assumes "hub_alike c d" "\<And>path. hc_config_path c = Some path \<Longrightarrow> file_alike toml path fs fs'"
  shows "ReloadableHubPolicy_from_config toml fs c = ReloadableHubPolicy_from_config toml fs' d"
proof (cases "hc_config_path c")
  case None
  with assms(1) show ?thesis by (simp add: ReloadableHubPolicy_from_config_def policy_alike [OF assms(1)] hub_alike_def Let_def)
next
  case (Some path)
  then have d: "hc_config_path d = Some path" using assms(1) by (simp add: hub_alike_def)
  from load_policy_alike [OF assms(2) [OF Some]] assms(2) [OF Some] Some d show ?thesis
    by (simp add: ReloadableHubPolicy_from_config_def policy_alike [OF assms(1)] file_alike_def Let_def)
qed

lemma refresh_alike:
  assumes "\<And>path. rhp_path r = Some path \<Longrightarrow> file_alike toml path fs fs'"
  shows "fst (ReloadableHubPolicy_refresh toml fs r) = fst (ReloadableHubPolicy_refresh toml fs' r)"
proof (cases "rhp_path r")
  case (Some path)
  from load_policy_alike [OF assms [OF Some]] assms [OF Some] Some show ?thesis
    by (simp add: ReloadableHubPolicy_refresh_def Let_def file_alike_def)
qed (simp add: ReloadableHubPolicy_refresh_def)

section \<open>States\<close>

definition route_alike :: "RouteEntry \<Rightarrow> RouteEntry \<Rightarrow> bool" where
  "route_alike r q \<longleftrightarrow> re_addr r = re_addr q \<and> code_alike (re_pair_code r) (re_pair_code q)"

definition task_alike :: "stream_task \<Rightarrow> stream_task \<Rightarrow> bool" where
  "task_alike t u \<longleftrightarrow> tk_id t = tk_id u \<and> tk_queue t = tk_queue u \<and> alike (tk_up t) (tk_up u)"

text \<open>\<open>F\<close> pairs the fingerprints of the two agents' configurations.\<close>

definition agent_alike :: "(string \<times> string) set \<Rightarrow> asess \<Rightarrow> asess \<Rightarrow> bool" where
  "agent_alike F s t \<longleftrightarrow> cl s = cl t \<and> dialer s = dialer t \<and> dials s = dials t \<and> a_streams s = a_streams t
     \<and> a_generation s = a_generation t \<and> a_polling s = a_polling t \<and> a_running s = a_running t
     \<and> snd (a_compat s) = snd (a_compat t) \<and> (fst (a_compat s), fst (a_compat t)) \<in> F
     \<and> (\<forall>k. rel_option route_alike (a_routes s k) (a_routes t k))
     \<and> list_all2 (rel_option task_alike) (a_tasks s) (a_tasks t)"

definition one_one :: "('a \<times> 'b) set \<Rightarrow> bool" where
  "one_one F \<longleftrightarrow> (\<forall>(a, b) \<in> F. \<forall>(c, d) \<in> F. a = c \<longleftrightarrow> b = d)"

interpretation twin: dial_relation "agent_alike F" for F
  by unfold_locales (simp_all add: agent_alike_def)

abbreviation agents_alike :: "(string \<times> string) set \<Rightarrow> ('a \<Rightarrow> 'b \<Rightarrow> bool) \<Rightarrow> (asess, 'a) act \<Rightarrow> (asess, 'b) act \<Rightarrow> bool" where
  "agents_alike F \<equiv> related (agent_alike F)"

lemma re_send: "agents_alike F (=) (send js m) (send js m)"
  by (auto simp: related_def send_def on_client_def agent_alike_def sum.rel_eq split: prod.splits)

lemma re_gate_names:
  assumes "one_one F" "(backends_fingerprint bs, backends_fingerprint cs) \<in> F" "list_all2 same_but_code bs cs"
  shows "agents_alike F (=) (gate_names bs) (gate_names cs)"
proof (rule relatedI)
  fix s t assume R: "agent_alike F s t"
  then have hit: "(fst (a_compat s) \<noteq> backends_fingerprint bs) = (fst (a_compat t) \<noteq> backends_fingerprint cs)"
    using assms(1,2) by (auto simp: one_one_def agent_alike_def)
  show "rel_sum (=) (=) (fst (gate_names bs s)) (fst (gate_names cs t)) \<and> agent_alike F (snd (gate_names bs s)) (snd (gate_names cs t))"
  proof (cases "fst (a_compat t) \<noteq> backends_fingerprint cs")
    case True
    from twin.re_filter [OF assms(3)] R show ?thesis
    proof (cases rule: related_cases)
      case (ok x y s' t')
      then have "set (map bc_name x) = set (map bc_name y)" using names_alike by metis
      with ok True hit assms(2) show ?thesis
        by (simp add: gate_names_def Let_def bind_a_Pair) (simp add: agent_alike_def)
    next
      case (err e s' t')
      with True hit show ?thesis by (simp add: gate_names_def Let_def bind_a_Pair)
    qed
  next
    case False
    with hit R show ?thesis by (simp add: gate_names_def Let_def) (simp add: agent_alike_def)
  qed
qed

lemma re_poll_lists:
  "list_all2 same_but_code bs cs \<Longrightarrow>
     agents_alike F (list_all2 (rel_prod same_but_code (=))) (poll_lists names bs) (poll_lists names cs)"
proof (induction bs cs rule: list_all2_induct)
  case Nil
  show ?case unfolding poll_lists.simps by (rule re_ret) simp
next
  case (Cons b bs c cs)
  then have n: "bc_name b = bc_name c" by (simp add: same_but_code_def)
  show ?case
    unfolding poll_lists.simps n
    by (intro re_bind_eq re_if re_ret refl twin.re_fetch re_bind [OF Cons.IH]) (simp_all add: Cons.hyps)
qed

text \<open>Route tables of device lists that are alike.\<close>

lemma route_table_alike:
  "list_all2 entry_alike ds es \<Longrightarrow> rel_option route_alike (route_table ds k) (route_table es k)"
proof (induction es arbitrary: ds rule: rev_induct)
  case Nil
  then show ?case by (simp add: route_table_def)
next
  case (snoc e es)
  then obtain ds' d where d: "ds = ds' @ [d]" "list_all2 entry_alike ds' es" "entry_alike d e"
    by (auto simp: list_all2_append2 list_all2_Cons2)
  note ih = snoc.IH [OF d(2)]
  from entry_alike_sel [OF d(3)] have "route_alike (route_of d) (route_of e)" "route_key d = route_key e"
    by (simp_all add: route_alike_def route_of_def)
  with ih show ?case by (simp add: d(1) route_table_snoc)
qed

lemma re_publish:
  assumes "list_all2 entry_alike ds es"
  shows "agents_alike F (=) (publish_routes js changed ds) (publish_routes js changed es)"
proof (rule relatedI)
  fix s t assume R: "agent_alike F s t"
  let ?g = "a_generation s + 1"
  have "agent_alike F (s\<lparr>a_routes := route_table ds, a_generation := ?g\<rparr>) (t\<lparr>a_routes := route_table es, a_generation := ?g\<rparr>)"
    using R route_table_alike [OF assms] by (simp add: agent_alike_def)
  moreover have "snapshot_message changed ?g ds = snapshot_message changed ?g es"
    by (simp add: snapshot_message_def sanitize_alike [OF assms])
  ultimately show "rel_sum (=) (=) (fst (publish_routes js changed ds s)) (fst (publish_routes js changed es t))
    \<and> agent_alike F (snd (publish_routes js changed ds s)) (snd (publish_routes js changed es t))"
    using relatedD [OF re_send] R by (simp add: publish_routes_def Let_def agent_alike_def [of F s t])
qed

section \<open>Rounds\<close>

lemma agent_hub_alike: "hub_alike c d \<Longrightarrow> hub_alike (agent_hub c) (agent_hub d)"
  by (simp add: hub_alike_def agent_hub_def enabled_alike)

lemma hub_enabled_alike: "hub_alike c d \<Longrightarrow> list_all2 same_but_code (enabled_backends (agent_hub c)) (enabled_backends (agent_hub d))"
  by (simp add: hub_alike_def agent_hub_def enabled_backends_def enabled_alike)

lemma from_config_path: "rhp_path (ReloadableHubPolicy_from_config toml fs c) = hc_config_path c"
  by (simp add: ReloadableHubPolicy_from_config_def Let_def)

lemma re_round:
  assumes "one_one F" "(hub_fp c, hub_fp d) \<in> F" "hub_alike c d"
    and "\<And>path. hc_config_path c = Some path \<Longrightarrow> file_alike toml path fs0 gs0 \<and> file_alike toml path fs1 gs1"
  shows "agents_alike F (=) (agent_round toml js fs0 fs1 changed c) (agent_round toml js gs0 gs1 changed d)"
proof -
  have p: "hc_config_path (agent_hub c) = hc_config_path c" by (simp add: agent_hub_def)
  have "ReloadableHubPolicy_from_config toml fs0 (agent_hub c) = ReloadableHubPolicy_from_config toml gs0 (agent_hub d)"
    using assms(4) by (intro from_config_alike agent_hub_alike assms(3)) (simp add: p)
  moreover have "fst (ReloadableHubPolicy_refresh toml fs1 (ReloadableHubPolicy_from_config toml fs0 (agent_hub c)))
      = fst (ReloadableHubPolicy_refresh toml gs1 (ReloadableHubPolicy_from_config toml fs0 (agent_hub c)))"
    using assms(4) by (intro refresh_alike) (simp add: from_config_path p)
  ultimately show ?thesis
    unfolding agent_round_def Let_def
    by (simp only:) (intro re_bind_eq [OF re_gate_names] re_bind [OF re_poll_lists] re_publish filter_alike
      assms(1) assms(2) [unfolded hub_fp_def] hub_enabled_alike assms(3))
qed

section \<open>Streams\<close>

lemma re_spawn: "alike u v \<Longrightarrow> agents_alike F (=) (spawn_stream i u) (spawn_stream i v)"
  by (auto simp: related_def spawn_stream_def agent_alike_def task_alike_def dest: list_all2_lengthD intro!: list_all2_appendI)

text \<open>Authenticating, or not, when the code may differ in its letters.\<close>

lemma ca_authenticate:
  assumes "code_alike a b"
  shows "conn_alike (\<lambda>c. case a of None \<Rightarrow> ret () c | Some k \<Rightarrow> authenticate_stream k c)
    (\<lambda>c. case b of None \<Rightarrow> ret () c | Some k \<Rightarrow> authenticate_stream k c)"
  using assms by (cases rule: code_alike_cases) (use ca_auth in \<open>simp_all add: related_def\<close>)

lemma re_open: "agents_alike F (=) (open_private_stream js req) (open_private_stream js req)"
proof (rule relatedI)
  fix s t assume R: "agent_alike F s t"
  then have rel: "rel_option route_alike (a_routes s (op_route_id req)) (a_routes t (op_route_id req))" by (simp add: agent_alike_def)
  have send: "agents_alike F (=) (send js m) (send js m)" for m by (rule re_send)
  show "rel_sum (=) (=) (fst (open_private_stream js req s)) (fst (open_private_stream js req t))
    \<and> agent_alike F (snd (open_private_stream js req s)) (snd (open_private_stream js req t))"
  proof (cases "a_routes s (op_route_id req)")
    case None
    with rel have "a_routes t (op_route_id req) = None" by simp
    with None show ?thesis using relatedD [OF send R] by (simp add: open_private_stream_def Let_def)
  next
    case (Some r)
    with rel obtain q where q: "a_routes t (op_route_id req) = Some q" "re_addr r = re_addr q" "code_alike (re_pair_code r) (re_pair_code q)"
      by (auto simp: route_alike_def option_rel_Some1)
    let ?auth = "\<lambda>r c. case re_pair_code r of None \<Rightarrow> ret () c | Some k \<Rightarrow> authenticate_stream k c"
    let ?k = "\<lambda>r rr. case rr of
        Inl err \<Rightarrow> send js (open_result (op_stream_id req) (Some (''connect: '' @ err_msg err)))
      | Inr upstream \<Rightarrow> (case ?auth r upstream of
           (Inl err, _) \<Rightarrow> send js (open_result (op_stream_id req) (Some (''auth failed: '' @ err_msg err)))
         | (Inr _, up1) \<Rightarrow> on_up (write_service (op_service req)) up1 (\<lambda>_ up2.
             then_a (send js (open_result (op_stream_id req) None)) (spawn_stream (op_stream_id req) up2)))"
    have auth: "related (agent_alike F) (=) (?k r (Inr u)) (?k q (Inr u))" for u
      using ca_authenticate [OF q(3)] alike_refl [of u]
    proof (cases rule: related_cases)
      case (ok x y s' t')
      then show ?thesis
        by (simp del: act_unfold) (intro re_on_up ca_write_service re_then_eq send re_spawn, assumption+)
    next
      case (err e s' t')
      then show ?thesis using send by simp
    qed
    have "agents_alike F (=) (try_a (dial (re_addr q)) (?k r)) (try_a (dial (re_addr q)) (?k q))"
    proof (rule re_try [OF twin.re_dial])
      show "agents_alike F (=) (?k r (Inl e)) (?k q (Inl e))" for e using send by simp
      show "agents_alike F (=) (?k r (Inr x)) (?k q (Inr y))" if "x = y" for x y using auth that by simp
    qed
    from relatedD [OF this R] show ?thesis
      using Some q(1,2) by (simp only: open_private_stream_def Let_def option.case)
  qed
qed

lemma enqueue_alike: "agent_alike F s t \<Longrightarrow> agent_alike F (enqueue j data s) (enqueue j data t)"
proof -
  assume R: "agent_alike F s t"
  then have l: "list_all2 (rel_option task_alike) (a_tasks s) (a_tasks t)" by (simp add: agent_alike_def)
  then have n: "length (a_tasks s) = length (a_tasks t)" by (rule list_all2_lengthD)
  have "j < length (a_tasks t) \<Longrightarrow> rel_option task_alike (map_option (\<lambda>t. t\<lparr>tk_queue := tk_queue t @ [data]\<rparr>) (a_tasks s ! j))
      (map_option (\<lambda>t. t\<lparr>tk_queue := tk_queue t @ [data]\<rparr>) (a_tasks t ! j))"
    using list_all2_nthD2 [OF l, of j] by (auto simp: task_alike_def option.rel_map elim!: option.rel_mono_strong)
  with R n l show ?thesis by (simp add: enqueue_def agent_alike_def list_all2_update_cong)
qed

lemma re_message: "agents_alike F (=) (handle_daemon_message js msg) (handle_daemon_message js msg)"
proof (rule relatedI)
  fix s t assume R: "agent_alike F s t"
  then have st: "a_streams s = a_streams t" by (simp add: agent_alike_def)
  have upd: "agent_alike F (s\<lparr>a_streams := m\<rparr>) (t\<lparr>a_streams := m\<rparr>)" for m using R by (simp add: agent_alike_def)
  show "rel_sum (=) (=) (fst (handle_daemon_message js msg s)) (fst (handle_daemon_message js msg t))
    \<and> agent_alike F (snd (handle_daemon_message js msg s)) (snd (handle_daemon_message js msg t))"
    using R st upd relatedD [OF re_send R] relatedD [OF re_open R]
    by (cases msg) (auto simp: handle_daemon_message_def enqueue_alike split: option.split)
qed

lemma end_alike: "agent_alike F s t \<Longrightarrow> agent_alike F (task_end js j i s) (task_end js j i t)"
  unfolding task_end_def
  by (rule relatedD [OF re_send, THEN conjunct2]) (simp add: agent_alike_def list_all2_update_cong)

lemma task_at:
  assumes "agent_alike F s t"
  shows "rel_option task_alike (if j < length (a_tasks s) then a_tasks s ! j else None) (if j < length (a_tasks t) then a_tasks t ! j else None)"
  using assms list_all2_nthD [of "rel_option task_alike" "a_tasks s" "a_tasks t" j]
  by (auto simp: agent_alike_def dest: list_all2_lengthD)

lemma set_task_alike:
  "agent_alike F s t \<Longrightarrow> rel_option task_alike x y \<Longrightarrow>
     agent_alike F (s\<lparr>a_tasks := (a_tasks s)[j := x]\<rparr>) (t\<lparr>a_tasks := (a_tasks t)[j := y]\<rparr>)"
  by (simp add: agent_alike_def list_all2_update_cong)

lemma to_up_alike:
  assumes R: "agent_alike F s t"
  shows "agent_alike F (task_to_up js j s) (task_to_up js j t)"
  using task_at [OF R, of j]
proof (cases rule: option.rel_cases)
  case None
  with R show ?thesis by (simp add: task_to_up_def)
next
  case (Some x y)
  then have xy: "tk_id x = tk_id y" "tk_queue x = tk_queue y" "alike (tk_up x) (tk_up y)" by (simp_all add: task_alike_def)
  have m: "a_streams s = a_streams t" using R by (simp add: agent_alike_def)
  show ?thesis
  proof (cases "tk_queue y")
    case Nil
    with Some xy m R show ?thesis by (simp add: task_to_up_def end_alike)
  next
    case (Cons data q)
    have "length data = length data" by simp
    from ca_write_all [OF this] xy(3) show ?thesis
    proof (cases rule: related_cases)
      case (ok u v c d)
      then have "agent_alike F (s\<lparr>a_tasks := (a_tasks s)[j := Some (x\<lparr>tk_up := c, tk_queue := q\<rparr>)]\<rparr>)
          (t\<lparr>a_tasks := (a_tasks t)[j := Some (y\<lparr>tk_up := d, tk_queue := q\<rparr>)]\<rparr>)"
        by (intro set_task_alike [OF R]) (simp add: task_alike_def xy(1))
      with ok Some xy Cons show ?thesis by (simp add: task_to_up_def)
    next
      case (err e c d)
      with Some xy Cons show ?thesis by (simp add: task_to_up_def end_alike [OF R])
    qed
  qed
qed

lemma from_up_alike:
  assumes R: "agent_alike F s t"
  shows "agent_alike F (task_from_up js n j s) (task_from_up js n j t)"
  using task_at [OF R, of j]
proof (cases rule: option.rel_cases)
  case None
  with R show ?thesis by (simp add: task_from_up_def)
next
  case (Some x y)
  then have xy: "tk_id x = tk_id y" "tk_queue x = tk_queue y" "alike (tk_up x) (tk_up y)" by (simp_all add: task_alike_def)
  then have rx: "rx (tk_up x) = rx (tk_up y)" by (simp add: alike_def)
  let ?k = "read_size n"
  let ?s = "s\<lparr>a_tasks := (a_tasks s)[j := Some (x\<lparr>tk_up := (tk_up x)\<lparr>rx := drop ?k (rx (tk_up x))\<rparr>\<rparr>)]\<rparr>"
  let ?t = "t\<lparr>a_tasks := (a_tasks t)[j := Some (y\<lparr>tk_up := (tk_up y)\<lparr>rx := drop ?k (rx (tk_up y))\<rparr>\<rparr>)]\<rparr>"
  have R': "agent_alike F ?s ?t"
    using xy by (intro set_task_alike [OF R]) (simp add: task_alike_def alike_def)
  show ?thesis
  proof (cases "take ?k (rx (tk_up y)) = []")
    case True
    with Some xy rx show ?thesis by (simp add: task_from_up_def Let_def end_alike [OF R])
  next
    case False
    from re_send [of F js "MStreamData (tk_id y) (take ?k (rx (tk_up y)))"] R' show ?thesis
    proof (cases rule: related_cases)
      case (ok u v c d)
      with Some xy rx False show ?thesis by (simp add: task_from_up_def Let_def)
    next
      case (err e c d)
      with Some xy rx False show ?thesis by (simp add: task_from_up_def Let_def end_alike)
    qed
  qed
qed

section \<open>Runs\<close>

text \<open>Two agent configurations, and two events, that differ in codes only. A poll of one agent and of the
  other see configurations whose fingerprints are paired by \<open>F\<close>.\<close>

definition poll_alike :: "hub_toml \<Rightarrow> (string \<times> string) set \<Rightarrow> AgentConfig \<Rightarrow> AgentConfig \<Rightarrow> fsys \<Rightarrow> fsys \<Rightarrow> fsys \<Rightarrow> fsys \<Rightarrow> bool" where
  "poll_alike toml F config config' fs0 fs1 gs0 gs1 \<longleftrightarrow>
     rel_sum (=) (\<lambda>c d. hub_alike c d \<and> (hub_fp c, hub_fp d) \<in> F
         \<and> (\<forall>path. hc_config_path c = Some path \<longrightarrow> file_alike toml path fs0 gs0 \<and> file_alike toml path fs1 gs1))
       (agent_config toml fs0 config) (agent_config toml gs0 config')"

fun event_alike :: "hub_toml \<Rightarrow> (string \<times> string) set \<Rightarrow> AgentConfig \<Rightarrow> AgentConfig \<Rightarrow> agent_event \<Rightarrow> agent_event \<Rightarrow> bool" where
  "event_alike toml F config config' (EvPoll fs0 fs1) (EvPoll gs0 gs1) = poll_alike toml F config config' fs0 fs1 gs0 gs1"
| "event_alike toml F config config' e e' = (e = e')"

lemma re_refresh:
  assumes "one_one F" "poll_alike toml F config config' fs0 fs1 gs0 gs1"
  shows "agents_alike F (=) (refresh_and_publish toml js config fs0 fs1 changed) (refresh_and_publish toml js config' gs0 gs1 changed)"
  unfolding refresh_and_publish_def
  by (rule re_bind [OF re_lift [OF assms(2) [unfolded poll_alike_def]]]) (intro re_round assms(1), auto)

lemma step_alike:
  assumes "one_one F" "event_alike toml F config config' e e'" "agent_alike F s t"
  shows "agent_alike F (agent_step toml js config e s) (agent_step toml js config' e' t)"
proof (cases e)
  case (EvPoll fs0 fs1)
  with assms(2) obtain gs0 gs1 where e': "e' = EvPoll gs0 gs1" "poll_alike toml F config config' fs0 fs1 gs0 gs1" by (cases e') auto
  have p: "a_polling s = a_polling t" using assms(3) by (simp add: agent_alike_def)
  from re_refresh [OF assms(1) e'(2), of js True] assms(3) show ?thesis
  proof (cases rule: related_cases)
    case (ok x y s' t')
    with p assms(3) EvPoll e'(1) show ?thesis by (simp add: agent_poll_def)
  next
    case (err er s' t')
    moreover from this have "agent_alike F (s'\<lparr>a_polling := False\<rparr>) (t'\<lparr>a_polling := False\<rparr>)" by (simp add: agent_alike_def)
    ultimately show ?thesis using p assms(3) EvPoll e'(1) by (simp add: agent_poll_def)
  qed
next
  case EvMessage
  with assms(2) have e': "e' = EvMessage" by (cases e') auto
  have c: "cl s = cl t" "a_running s = a_running t" using assms(3) by (simp_all add: agent_alike_def)
  obtain r c' where rd: "read_message js (cl t) = (r, c')" by force
  have R: "agent_alike F (s\<lparr>cl := c'\<rparr>) (t\<lparr>cl := c'\<rparr>)" using assms(3) by (simp add: agent_alike_def)
  have "agent_alike F (agent_message js s) (agent_message js t)"
  proof (cases r)
    case (Inl er)
    with R assms(3) c rd show ?thesis by (simp add: agent_message_def on_client_def) (simp add: agent_alike_def)
  next
    case (Inr m)
    with relatedD [OF re_message R] assms(3) c rd show ?thesis by (simp add: agent_message_def on_client_def)
  qed
  with EvMessage e' show ?thesis by simp
next
  case (EvToUp j)
  with assms(2) have "e' = EvToUp j" by (cases e') auto
  with EvToUp to_up_alike [OF assms(3)] show ?thesis by simp
next
  case (EvFromUp n j)
  with assms(2) have "e' = EvFromUp n j" by (cases e') auto
  with EvFromUp from_up_alike [OF assms(3)] show ?thesis by simp
qed

lemma run_alike:
  assumes "one_one F" "list_all2 (event_alike toml F config config') evs evs'" "agent_alike F s t"
  shows "agent_alike F (fold (agent_step toml js config) evs s) (fold (agent_step toml js config') evs' t)"
  using assms(2,3)
  by (induction evs evs' arbitrary: s t rule: list_all2_induct) (simp_all add: step_alike [OF assms(1)])

section \<open>Properties\<close>

text \<open>C3: The agent never gives a pair code away. Take two agents whose states, configuration files and
  inline configurations differ in the letters of pair codes only (with a one-to-one correspondence of
  backend fingerprints) and whose network answers the same. Whatever the daemon sends and however polls,
  messages and stream tasks interleave, both control connections carry exactly the same bytes.\<close>

theorem agent_hides_codes:
  assumes "one_one F" "list_all2 (event_alike toml F config config') evs evs'" "agent_alike F s t"
  shows "cl (fold (agent_step toml js config) evs s) = cl (fold (agent_step toml js config') evs' t)"
  using run_alike [OF assms] by (simp add: agent_alike_def)

definition secret_config :: "string \<Rightarrow> AgentConfig" where
  "secret_config k = \<lparr>ac_config_path = ''c.toml'', ac_control_abstract = ''adb-hubd'', ac_control_path = None, ac_poll_interval = 1000,
     ac_inline_backends = Some (local_only\<lparr>hc_backends := [(demo_backend ''r'')\<lparr>bc_pair_code := Some k\<rparr>]\<rparr>),
     ac_connect_retries = 50, ac_connect_retry_delay = 100\<rparr>"

definition secret_fp :: "string \<Rightarrow> string" where
  "secret_fp k = hub_fp (local_only\<lparr>hc_backends := [(demo_backend ''r'')\<lparr>bc_pair_code := Some k\<rparr>]\<rparr>)"

lemma secret_fp_eq: "secret_fp k = ''r@'' @ addr_string (localhost 5038) @ ''#'' @ k"
  by (simp add: secret_fp_def hub_fp_def agent_hub_def enabled_backends_def backends_fingerprint_def demo_backend_def del: addr_string.simps)

theorem agent_hides_codes_witness:
  "cl (fold (agent_step (\<lambda>_. Inl []) demo_json (secret_config ''ABCD1234'')) [EvPoll (demo_fs None) (demo_fs None), EvMessage] demo_asess)
   = cl (fold (agent_step (\<lambda>_. Inl []) demo_json (secret_config ''WXYZ9876'')) [EvPoll (demo_fs None) (demo_fs None), EvMessage] demo_asess)"
proof (rule agent_hides_codes)
  let ?F = "{([], []), (secret_fp ''ABCD1234'', secret_fp ''WXYZ9876'')}"
  show "one_one ?F" by (simp add: one_one_def secret_fp_eq del: addr_string.simps)
  show "agent_alike ?F demo_asess demo_asess" by (simp add: agent_alike_def demo_asess_def)
  have "poll_alike (\<lambda>_. Inl []) ?F (secret_config ''ABCD1234'') (secret_config ''WXYZ9876'') (demo_fs None) (demo_fs None) (demo_fs None) (demo_fs None)"
    by (simp add: poll_alike_def agent_config_def Let_def secret_config_def fs_is_file_def demo_fs_def secret_fp_def)
      (simp add: hub_alike_def same_but_code_def demo_backend_def code_alike_def local_only_def)
  then show "list_all2 (event_alike (\<lambda>_. Inl []) ?F (secret_config ''ABCD1234'') (secret_config ''WXYZ9876''))
      [EvPoll (demo_fs None) (demo_fs None), EvMessage] [EvPoll (demo_fs None) (demo_fs None), EvMessage]"
    by simp
qed

end
