(* ===== verification/Relay.thy ===== *)
theory Relay
  imports Prelude "HOL-Library.Sublist"
begin

text \<open>
  One private stream inside the daemon, src/daemon.rs: the read loop of the agent's connection
  (\<^verbatim>\<open>agent_read_loop\<close>) hands the agent's data to the channel of the stream, and
  \<^verbatim>\<open>forward_private\<close> moves it to the adb client. The two tasks share the sender table
  \<^verbatim>\<open>stream_tx\<close> behind a mutex. The read loop keeps that mutex while it waits for room in the
  channel (the guard is a temporary of the \<^verbatim>\<open>if let\<close> and lives until the end of its block), and
  \<^verbatim>\<open>forward_private\<close> needs it to clean up. The step relation has one rule per thing a task can do
  next; a step is what a task does between two \<^verbatim>\<open>await\<close> points.
\<close>

section \<open>Steps\<close>

text \<open>What the agent sent for this stream.\<close>

datatype relay_msg = RData bytes | RClose

datatype fwd_state = Relaying | Writing bytes | Closing | Done

record relay =
  inbox :: "relay_msg list"
  held :: "bytes option"
  chan :: "bytes list"
  sender :: bool
  fwd :: fwd_state
  delivered :: bytes
  pending :: "bytes list"
  uplink :: "bytes list"
  closes :: nat

definition CAPACITY :: nat where
  "CAPACITY = 32"

definition relay_init :: "relay_msg list \<Rightarrow> bytes list \<Rightarrow> relay" where
  "relay_init msgs client = \<lparr>inbox = msgs, held = None, chan = [], sender = True, fwd = Relaying, delivered = [],
     pending = client, uplink = [], closes = 0\<rparr>"

inductive relay_step :: "relay \<Rightarrow> relay \<Rightarrow> bool" where
  recv_data: "held s = None \<Longrightarrow> inbox s = RData d # ms \<Longrightarrow> sender s
    \<Longrightarrow> relay_step s (s\<lparr>inbox := ms, held := Some d\<rparr>)"
| recv_skip: "held s = None \<Longrightarrow> inbox s = RData d # ms \<Longrightarrow> \<not> sender s
    \<Longrightarrow> relay_step s (s\<lparr>inbox := ms\<rparr>)"
| recv_close: "held s = None \<Longrightarrow> inbox s = RClose # ms
    \<Longrightarrow> relay_step s (s\<lparr>inbox := ms, sender := False\<rparr>)"
| chan_send: "held s = Some d \<Longrightarrow> length (chan s) < CAPACITY \<Longrightarrow> fwd s \<noteq> Done
    \<Longrightarrow> relay_step s (s\<lparr>held := None, chan := chan s @ [d]\<rparr>)"
| chan_dropped: "held s = Some d \<Longrightarrow> fwd s = Done
    \<Longrightarrow> relay_step s (s\<lparr>held := None\<rparr>)"
| chan_recv: "fwd s = Relaying \<Longrightarrow> chan s = d # q
    \<Longrightarrow> relay_step s (s\<lparr>chan := q, fwd := Writing d\<rparr>)"
| chan_end: "fwd s = Relaying \<Longrightarrow> chan s = [] \<Longrightarrow> \<not> sender s
    \<Longrightarrow> relay_step s (s\<lparr>fwd := Closing\<rparr>)"
| write_ok: "fwd s = Writing d
    \<Longrightarrow> relay_step s (s\<lparr>delivered := delivered s @ d, fwd := Relaying\<rparr>)"
| write_benign: "fwd s = Writing d
    \<Longrightarrow> relay_step s (s\<lparr>delivered := delivered s @ take k d, fwd := Closing\<rparr>)"
| write_error: "fwd s = Writing d
    \<Longrightarrow> relay_step s (s\<lparr>delivered := delivered s @ take k d, fwd := Done, chan := []\<rparr>)"
| client_data: "fwd s = Relaying \<Longrightarrow> pending s = c # cs
    \<Longrightarrow> relay_step s (s\<lparr>pending := cs, uplink := uplink s @ [c]\<rparr>)"
| uplink_error: "fwd s = Relaying \<Longrightarrow> pending s = c # cs
    \<Longrightarrow> relay_step s (s\<lparr>pending := cs, fwd := Done, chan := []\<rparr>)"
| client_end: "fwd s = Relaying
    \<Longrightarrow> relay_step s (s\<lparr>fwd := Closing\<rparr>)"
| client_error: "fwd s = Relaying
    \<Longrightarrow> relay_step s (s\<lparr>fwd := Done, chan := []\<rparr>)"
| cleanup: "fwd s = Closing \<Longrightarrow> held s = None
    \<Longrightarrow> relay_step s (s\<lparr>sender := False, fwd := Done, chan := [], closes := Suc (closes s)\<rparr>)"

inductive_cases relay_stepE: "relay_step s t"

abbreviation relay_steps :: "relay \<Rightarrow> relay \<Rightarrow> bool" where
  "relay_steps \<equiv> relay_step\<^sup>*\<^sup>*"

section \<open>Invariant\<close>

text \<open>While the read loop waits, the sender is registered; the channel never holds more than its
  capacity; a finished stream has dropped its channel.\<close>

definition relay_ok :: "relay \<Rightarrow> bool" where
  "relay_ok s \<longleftrightarrow> (held s \<noteq> None \<longrightarrow> sender s) \<and> length (chan s) \<le> CAPACITY \<and> (fwd s = Done \<longrightarrow> chan s = [])"

lemma relay_ok_init: "relay_ok (relay_init msgs client)"
  by (simp add: relay_ok_def relay_init_def)

lemma relay_ok_step: "relay_step s t \<Longrightarrow> relay_ok s \<Longrightarrow> relay_ok t"
  by (erule relay_step.cases) (auto simp: relay_ok_def)

lemma relay_ok_steps: "relay_steps s t \<Longrightarrow> relay_ok s \<Longrightarrow> relay_ok t"
  by (induction rule: rtranclp_induct) (auto intro: relay_ok_step)

section \<open>Work\<close>

text \<open>How much the tasks still have to do for what has arrived.\<close>

primrec fwd_rank :: "fwd_state \<Rightarrow> nat" where
  "fwd_rank Relaying = 2"
| "fwd_rank (Writing d) = 3"
| "fwd_rank Closing = 1"
| "fwd_rank Done = 0"

definition relay_measure :: "relay \<Rightarrow> nat" where
  "relay_measure s = 4 * length (inbox s) + (if held s = None then 0 else 3) + 2 * length (chan s)
     + length (pending s) + fwd_rank (fwd s)"

lemma relay_step_decreases: "relay_step s t \<Longrightarrow> relay_measure t < relay_measure s"
  by (erule relay_step.cases) (simp_all add: relay_measure_def)

text \<open>A run of a stream whose data keeps arriving: \<open>n\<close> steps of the two tasks, while \<open>a\<close> messages came from the
  agent and \<open>b\<close> chunks from the client, at any moments. Nothing bounds \<open>a\<close> and \<open>b\<close>.\<close>

inductive relay_run :: "relay \<Rightarrow> nat \<Rightarrow> nat \<Rightarrow> nat \<Rightarrow> relay \<Rightarrow> bool" for s where
  start: "relay_run s 0 0 0 s"
| work: "relay_run s n a b t \<Longrightarrow> relay_step t u \<Longrightarrow> relay_run s (Suc n) a b u"
| from_agent: "relay_run s n a b t \<Longrightarrow> relay_run s n (Suc a) b (t\<lparr>inbox := inbox t @ [m]\<rparr>)"
| from_client: "relay_run s n a b t \<Longrightarrow> relay_run s n a (Suc b) (t\<lparr>pending := pending t @ [c]\<rparr>)"

lemma relay_run_work: "relay_run s n a b t \<Longrightarrow> n + relay_measure t \<le> relay_measure s + 4 * a + b"
proof (induction rule: relay_run.induct)
  case (work n a b t u)
  then show ?case using relay_step_decreases [of t u] by simp
qed (simp_all add: relay_measure_def)

lemma relay_run_ok: "relay_run s n a b t \<Longrightarrow> relay_ok s \<Longrightarrow> relay_ok t"
proof (induction rule: relay_run.induct)
  case (work n a b t u)
  then show ?case by (blast intro: relay_ok_step)
qed (simp_all add: relay_ok_def)

section \<open>Stuck states\<close>

text \<open>The stream is over: nothing left to read from the agent, the forwarding task has returned.\<close>

definition finished :: "relay \<Rightarrow> bool" where
  "finished s \<longleftrightarrow> inbox s = [] \<and> held s = None \<and> fwd s = Done"

text \<open>The read loop holds the lock and waits for room in a full channel; the only task that could make
  room waits for the lock.\<close>

definition deadlocked :: "relay \<Rightarrow> bool" where
  "deadlocked s \<longleftrightarrow> held s \<noteq> None \<and> length (chan s) = CAPACITY \<and> fwd s = Closing"

lemma finished_stuck: "finished s \<Longrightarrow> \<not> relay_step s t"
  by (auto simp: finished_def elim: relay_step.cases)

lemma deadlocked_stuck: "deadlocked s \<Longrightarrow> \<not> relay_step s t"
  by (auto simp: deadlocked_def elim: relay_step.cases)

lemma progress:
  assumes "relay_ok s" "\<not> finished s" "\<not> deadlocked s"
  shows "\<exists>t. relay_step s t"
proof (cases "fwd s")
  case Relaying
  then show ?thesis using client_end by blast
next
  case (Writing d)
  then show ?thesis using write_ok by blast
next
  case Closing
  show ?thesis
  proof (cases "held s")
    case None
    with Closing show ?thesis using cleanup by blast
  next
    case (Some d)
    with assms Closing have "length (chan s) < CAPACITY" by (auto simp: relay_ok_def deadlocked_def)
    with Some Closing chan_send [of s d] show ?thesis by auto
  qed
next
  case Done
  show ?thesis
  proof (cases "held s")
    case None
    with assms(2) Done obtain m ms where m: "inbox s = m # ms" by (cases "inbox s") (auto simp: finished_def)
    show ?thesis
    proof (cases m)
      case (RData d)
      with m None recv_data [of s d ms] recv_skip [of s d ms] show ?thesis by (cases "sender s") auto
    next
      case RClose
      with m None recv_close [of s ms] show ?thesis by auto
    qed
  next
    case (Some d)
    with Done chan_dropped show ?thesis by blast
  qed
qed

section \<open>The deadlock\<close>

text \<open>While the client does not read, the read loop fills the channel.\<close>

lemma fill:
  "held s = None \<Longrightarrow> sender s \<Longrightarrow> fwd s = Relaying \<Longrightarrow> inbox s = map RData ds @ ms
     \<Longrightarrow> length (chan s) + length ds \<le> CAPACITY
     \<Longrightarrow> relay_steps s (s\<lparr>inbox := ms, chan := chan s @ ds\<rparr>)"
proof (induction ds arbitrary: s)
  case (Cons d ds)
  let ?a = "s\<lparr>inbox := map RData ds @ ms, held := Some d\<rparr>"
  let ?b = "?a\<lparr>held := None, chan := chan ?a @ [d]\<rparr>"
  have "relay_step s ?a" using Cons.prems by (intro recv_data) simp_all
  moreover have "relay_step ?a ?b" using Cons.prems by (intro chan_send) simp_all
  moreover have "relay_steps ?b (?b\<lparr>inbox := ms, chan := chan ?b @ ds\<rparr>)"
    using Cons.prems by (intro Cons.IH) simp_all
  moreover have "?b\<lparr>inbox := ms, chan := chan ?b @ ds\<rparr> = s\<lparr>inbox := ms, chan := chan s @ d # ds\<rparr>"
    using Cons.prems by simp
  ultimately show ?case by (metis (no_types, lifting) converse_rtranclp_into_rtranclp)
next
  case Nil
  then have "s\<lparr>inbox := ms, chan := chan s @ []\<rparr> = s" by (intro relay.equality) simp_all
  then show ?case by simp
qed

lemma fill_to_deadlock:
  assumes "CAPACITY < length ds"
  shows "\<exists>t. relay_steps (relay_init (map RData ds @ ms) client) t \<and> deadlocked t"
proof -
  let ?s = "relay_init (map RData ds @ ms) client"
  obtain front d tail where ds: "ds = front @ d # tail" "length front = CAPACITY"
    using assms by (metis id_take_nth_drop length_take min.absorb4)
  let ?full = "?s\<lparr>inbox := RData d # map RData tail @ ms, chan := front\<rparr>"
  let ?wait = "?full\<lparr>inbox := map RData tail @ ms, held := Some d\<rparr>"
  have "relay_steps ?s (?s\<lparr>inbox := RData d # map RData tail @ ms, chan := chan ?s @ front\<rparr>)"
    by (rule fill) (simp_all add: relay_init_def ds)
  then have "relay_steps ?s ?full" by (simp add: relay_init_def)
  also have "relay_step ?full ?wait" by (rule recv_data) (simp_all add: relay_init_def)
  also have "relay_step ?wait (?wait\<lparr>fwd := Closing\<rparr>)" by (rule client_end) (simp add: relay_init_def)
  finally have "relay_steps ?s (?wait\<lparr>fwd := Closing\<rparr>)" .
  moreover have "deadlocked (?wait\<lparr>fwd := Closing\<rparr>)" using ds(2) by (simp add: deadlocked_def relay_init_def)
  ultimately show ?thesis by blast
qed

section \<open>The abstract pipe\<close>

text \<open>What the relay is for: a byte pipe that delivers what was sent, in order, and may be cut off.\<close>

record apipe =
  ap_out :: bytes
  ap_rest :: bytes

inductive pipe_step :: "apipe \<Rightarrow> apipe \<Rightarrow> bool" where
  deliver: "ap_rest p = d @ r \<Longrightarrow> pipe_step p (p\<lparr>ap_out := ap_out p @ d, ap_rest := r\<rparr>)"
| cut_off: "pipe_step p (p\<lparr>ap_rest := []\<rparr>)"

fun sent_before_close :: "relay_msg list \<Rightarrow> bytes" where
  "sent_before_close [] = []"
| "sent_before_close (RData d # ms) = d @ sent_before_close ms"
| "sent_before_close (RClose # ms) = []"

definition in_flight :: "relay \<Rightarrow> bytes" where
  "in_flight s = concat (chan s) @ (case held s of None \<Rightarrow> [] | Some d \<Rightarrow> d)
     @ (if sender s then sent_before_close (inbox s) else [])"

definition relay_abs :: "relay \<Rightarrow> apipe" where
  "relay_abs s = \<lparr>ap_out = delivered s,
     ap_rest = (case fwd s of Relaying \<Rightarrow> in_flight s | Writing d \<Rightarrow> d @ in_flight s | _ \<Rightarrow> [])\<rparr>"

lemma pipe_prefix: "pipe_step\<^sup>*\<^sup>* p q \<Longrightarrow> prefix (ap_out p) (ap_out q) \<and> prefix (ap_out q @ ap_rest q) (ap_out p @ ap_rest p)"
proof (induction rule: rtranclp_induct)
  case (step q r)
  from step.hyps(2) have "prefix (ap_out q) (ap_out r) \<and> prefix (ap_out r @ ap_rest r) (ap_out q @ ap_rest q)"
    by cases auto
  with step.IH show ?case by (meson prefix_order.trans)
qed simp

text \<open>Every step of the relay delivers, cuts off, or leaves the pipe as it is.\<close>

lemma relay_abs_step:
  assumes "relay_step s t" "relay_ok s"
  shows "pipe_step\<^sup>*\<^sup>* (relay_abs s) (relay_abs t)"
  using assms(1)
proof cases
  case (write_ok d)
  moreover from this have "in_flight t = in_flight s" by (simp add: in_flight_def)
  ultimately have "pipe_step (relay_abs s) (relay_abs t)"
    using deliver [of "relay_abs s" d "in_flight s"] by (simp add: relay_abs_def)
  then show ?thesis by blast
next
  case (write_benign d k)
  have "pipe_step (relay_abs s) (relay_abs s\<lparr>ap_out := delivered s @ take k d, ap_rest := drop k d @ in_flight s\<rparr>)"
    using write_benign deliver [of "relay_abs s" "take k d" "drop k d @ in_flight s"] by (simp add: relay_abs_def)
  moreover have "pipe_step (relay_abs s\<lparr>ap_out := delivered s @ take k d, ap_rest := drop k d @ in_flight s\<rparr>) (relay_abs t)"
    using write_benign cut_off [of "relay_abs s\<lparr>ap_out := delivered s @ take k d, ap_rest := drop k d @ in_flight s\<rparr>"]
    by (simp add: relay_abs_def)
  ultimately show ?thesis by (metis converse_rtranclp_into_rtranclp r_into_rtranclp)
next
  case (write_error d k)
  have "pipe_step (relay_abs s) (relay_abs s\<lparr>ap_out := delivered s @ take k d, ap_rest := drop k d @ in_flight s\<rparr>)"
    using write_error deliver [of "relay_abs s" "take k d" "drop k d @ in_flight s"] by (simp add: relay_abs_def)
  moreover have "pipe_step (relay_abs s\<lparr>ap_out := delivered s @ take k d, ap_rest := drop k d @ in_flight s\<rparr>) (relay_abs t)"
    using write_error cut_off [of "relay_abs s\<lparr>ap_out := delivered s @ take k d, ap_rest := drop k d @ in_flight s\<rparr>"]
    by (simp add: relay_abs_def)
  ultimately show ?thesis by (metis converse_rtranclp_into_rtranclp r_into_rtranclp)
next
  case client_end
  then show ?thesis using cut_off [of "relay_abs s"] by (auto simp: relay_abs_def)
next
  case client_error
  then show ?thesis using cut_off [of "relay_abs s"] by (auto simp: relay_abs_def)
next
  case (uplink_error c cs)
  then show ?thesis using cut_off [of "relay_abs s"] by (auto simp: relay_abs_def)
qed (insert assms(2) cut_off [of "relay_abs s"], auto simp: relay_abs_def in_flight_def relay_ok_def split: fwd_state.split)

lemma relay_abs_steps: "relay_steps s t \<Longrightarrow> relay_ok s \<Longrightarrow> pipe_step\<^sup>*\<^sup>* (relay_abs s) (relay_abs t)"
proof (induction rule: rtranclp_induct)
  case (step t u)
  then have "pipe_step\<^sup>*\<^sup>* (relay_abs t) (relay_abs u)" by (intro relay_abs_step relay_ok_steps [of s t])
  with step show ?case by (metis rtranclp_trans)
qed simp

section \<open>Properties\<close>

text \<open>C8: The relay refines a byte pipe. Every run of the two tasks, however they interleave and wherever
  the client or the connections fail, is matched by a run of the abstract pipe that starts with
  everything the agent sent before closing the stream.\<close>

theorem relay_refines_pipe:
  assumes "relay_steps (relay_init msgs client) s"
  shows "pipe_step\<^sup>*\<^sup>* \<lparr>ap_out = [], ap_rest = sent_before_close msgs\<rparr> (relay_abs s)"
proof -
  have "relay_abs (relay_init msgs client) = \<lparr>ap_out = [], ap_rest = sent_before_close msgs\<rparr>"
    by (simp add: relay_abs_def relay_init_def in_flight_def)
  with relay_abs_steps [OF assms relay_ok_init] show ?thesis by simp
qed

theorem relay_refines_pipe_witness:
  "pipe_step\<^sup>*\<^sup>* \<lparr>ap_out = [], ap_rest = ''ab''\<rparr> (relay_abs ((relay_init [RClose] [])\<lparr>held := Some ''ab''\<rparr>))"
proof -
  have "relay_step (relay_init [RData ''ab'', RClose] []) ((relay_init [RData ''ab'', RClose] [])\<lparr>inbox := [RClose], held := Some ''ab''\<rparr>)"
    by (rule recv_data) (simp_all add: relay_init_def)
  then have "relay_steps (relay_init [RData ''ab'', RClose] []) ((relay_init [RClose] [])\<lparr>held := Some ''ab''\<rparr>)"
    by (simp add: relay_init_def)
  from relay_refines_pipe [OF this] show ?thesis by simp
qed

text \<open>In order, nothing invented: the bytes the adb client has received are a prefix of the bytes the
  agent sent for the stream before closing it.\<close>

theorem relay_in_order:
  assumes "relay_steps (relay_init msgs client) s"
  shows "prefix (delivered s) (sent_before_close msgs)"
proof -
  have "relay_abs (relay_init msgs client) = \<lparr>ap_out = [], ap_rest = sent_before_close msgs\<rparr>"
    by (simp add: relay_abs_def relay_init_def in_flight_def)
  with pipe_prefix [OF relay_abs_steps [OF assms relay_ok_init]] have "prefix (ap_out (relay_abs s) @ ap_rest (relay_abs s)) (sent_before_close msgs)"
    by simp
  then show ?thesis by (simp add: relay_abs_def) (metis append_prefixD)
qed

theorem relay_in_order_witness: "prefix (delivered (relay_init [RData ''ab''] [])) ''ab''"
  using relay_in_order [of "[RData ''ab'']" "[]" "relay_init [RData ''ab''] []"] by simp



text \<open>C31: How a run ends. In every reachable state either some task can go on, or the stream is over, or
  the two tasks are in deadlock.\<close>

theorem relay_ends:
  assumes "relay_steps (relay_init msgs client) s"
  shows "(\<forall>t. \<not> relay_step s t) \<longleftrightarrow> finished s \<or> deadlocked s"
  using progress [OF relay_ok_steps [OF assms relay_ok_init]] finished_stuck deadlocked_stuck by blast

theorem relay_ends_witness:
  "\<exists>t. relay_step (relay_init [] []) t"
  using relay_ends [of "[]" "[]" "relay_init [] []"] by (auto simp: finished_def deadlocked_def relay_init_def)

text \<open>C32: The deadlock exists. Whenever the agent sends more than 32 chunks on a stream, the client can
  close its connection at a moment after which the read loop waits for room in the channel while
  holding the lock the forwarding task needs to finish, and neither can ever go on; with the read
  loop stopped, no other message of this user's agent is processed either.\<close>

theorem relay_deadlock:
  assumes "32 < length ds"
  shows "\<exists>t. relay_steps (relay_init (map RData ds @ ms) client) t \<and> held t \<noteq> None \<and> fwd t = Closing \<and> (\<forall>u. \<not> relay_step t u)"
proof -
  obtain t where "relay_steps (relay_init (map RData ds @ ms) client) t" "deadlocked t"
    using fill_to_deadlock [of ds ms client] assms by (auto simp: CAPACITY_def)
  with deadlocked_stuck show ?thesis by (auto simp: deadlocked_def)
qed

theorem relay_deadlock_witness:
  "\<exists>t. relay_steps (relay_init (map RData (replicate 33 ''x'') @ []) []) t \<and> (\<forall>u. \<not> relay_step t u)"
  using relay_deadlock [of "replicate 33 ''x''" "[]" "[]"] by auto

end
