(* ===== verification/Session.thy ===== *)
theory Session
  imports Tunnel Config_Store
begin

text \<open>
  One adb client of the single-user hub, src/session.rs: choice of the preferred device, lookup,
  rewriting of device-scoped services to the upstream serial, routing, forwarding, device
  tracking, and the whole connection handler.

  A session's state extends the tunnel state with the registry, the policy cache, the file system
  the policy is reloaded from, and the number of kill notifications. The notifications a tracking
  client receives before the channel closes are a list; each comes with the registry and file
  system at that moment.
\<close>

section \<open>Device selection\<close>

datatype PickBackendErr = PickNone | PickMany

definition pick_one_on_backend :: "DeviceSnapshot \<Rightarrow> string \<Rightarrow> PickBackendErr + DeviceEntry" where
  "pick_one_on_backend snap name =
     (let online = filter (\<lambda>d. backend_name d = name \<and> dev_state d = ''device'') (devices snap) in
      case online of [] \<Rightarrow> Inl PickNone | [d] \<Rightarrow> Inr d | _ \<Rightarrow> Inl PickMany)"

definition push_new :: "string \<Rightarrow> string list \<Rightarrow> string list" where
  "push_new x order = (if x \<in> set order then order else order @ [x])"

definition pick_order :: "DeviceSnapshot \<Rightarrow> string list \<Rightarrow> string list" where
  "pick_order snap backend_order =
     (let o1 = (if ''local'' \<in> set backend_order \<or> (\<exists>d \<in> set (devices snap). backend_name d = ''local'')
                then [''local''] else []);
          o2 = fold (\<lambda>name order. if name = ''local'' then order else push_new name order) backend_order o1
      in fold (\<lambda>d order. push_new (backend_name d) order) (devices snap) o2)"

fun pick_in_order :: "DeviceSnapshot \<Rightarrow> string list \<Rightarrow> string + DeviceEntry" where
  "pick_in_order snap [] = Inl ''no devices/emulators found''"
| "pick_in_order snap (name # order) =
     (case pick_one_on_backend snap name of
        Inr entry \<Rightarrow> Inr entry
      | Inl PickNone \<Rightarrow> pick_in_order snap order
      | Inl PickMany \<Rightarrow>
          Inl (''more than one device/emulator on backend '' @ [CHR 0x27] @ name @ [CHR 0x27]))"

definition pick_preferred :: "DeviceSnapshot \<Rightarrow> string list \<Rightarrow> string + DeviceEntry" where
  "pick_preferred snap backend_order = pick_in_order snap (pick_order snap backend_order)"

definition quoted :: "string \<Rightarrow> string" where
  "quoted s = [CHR 0x27] @ s @ [CHR 0x27]"

definition lookup_device :: "DeviceSnapshot \<Rightarrow> string \<Rightarrow> string + DeviceEntry" where
  "lookup_device snap serial = ok_or (find_device snap serial) (''device '' @ quoted serial @ '' not found'')"

definition lookup_online :: "DeviceSnapshot \<Rightarrow> string \<Rightarrow> string + DeviceEntry" where
  "lookup_online snap serial =
     bind_r (lookup_device snap serial) (\<lambda>entry.
     if dev_state entry \<noteq> ''device'' then
       Inl (''device '' @ quoted serial @ '' is not online ('' @ dev_state entry @ '')'')
     else Inr entry)"

section \<open>Routing\<close>

definition rewrite_upstream_service ::
  "string \<Rightarrow> DeviceSnapshot \<Rightarrow> string list \<Rightarrow> string + (DeviceEntry \<times> string) option" where
  "rewrite_upstream_service service snap order =
     (if service \<in> {''host:tport:any'', ''host:tport:usb'', ''host:tport:local'',
                    ''host:transport-any'', ''host:transport-usb'', ''host:transport-local''} then
        bind_r (pick_preferred snap order) (\<lambda>entry.
        Inr (Some (entry,
          if starts_with ''host:tport:'' service then ''host:tport:serial:'' @ upstream_serial entry
          else ''host:transport:'' @ upstream_serial entry)))
      else case strip_prefix ''host:tport:serial:'' service of
        Some serial \<Rightarrow>
          bind_r (lookup_online snap serial) (\<lambda>entry.
          Inr (Some (entry, ''host:tport:serial:'' @ upstream_serial entry)))
      | None \<Rightarrow>
     (case strip_prefix ''host:transport:'' service of
        Some serial \<Rightarrow>
          bind_r (lookup_online snap serial) (\<lambda>entry.
          Inr (Some (entry, ''host:transport:'' @ upstream_serial entry)))
      | None \<Rightarrow>
     (case strip_prefix ''host-serial:'' service of
        Some rest \<Rightarrow>
          (case split_once (CHR '':'') rest of
             None \<Rightarrow> Inl ''invalid host-serial service''
           | Some (serial, request) \<Rightarrow>
               bind_r (lookup_device snap serial) (\<lambda>entry.
               Inr (Some (entry, ''host-serial:'' @ upstream_serial entry @ '':'' @ request))))
      | None \<Rightarrow>
     (case strip_prefix ''host-usb:'' service of
        Some request \<Rightarrow>
          bind_r (pick_preferred snap order) (\<lambda>entry.
          Inr (Some (entry, ''host-serial:'' @ upstream_serial entry @ '':'' @ request)))
      | None \<Rightarrow>
     (case strip_prefix ''host-local:'' service of
        Some request \<Rightarrow>
          bind_r (pick_preferred snap order) (\<lambda>entry.
          Inr (Some (entry, ''host-serial:'' @ upstream_serial entry @ '':'' @ request)))
      | None \<Rightarrow>
     (case (if service = ''host:features'' \<or> service = ''host:host-features''
            then ok (pick_preferred snap order) else None) of
        Some entry \<Rightarrow> Inr (Some (entry, service))
      | None \<Rightarrow>
     (case strip_prefix ''host:'' service of
        Some request \<Rightarrow>
          (if request \<in> {''get-state'', ''get-serialno'', ''get-devpath'', ''get-connection-state''} then
             bind_r (pick_preferred snap order) (\<lambda>entry.
             Inr (Some (entry, ''host-serial:'' @ upstream_serial entry @ '':'' @ request)))
           else Inr None)
      | None \<Rightarrow> Inr None)))))))"

definition route_service ::
  "string \<Rightarrow> DeviceSnapshot \<Rightarrow> SocketAddr \<Rightarrow> string option \<Rightarrow> string list
     \<Rightarrow> string + SocketAddr \<times> string option \<times> string" where
  "route_service service snap default_backend default_pair_code order =
     bind_r (rewrite_upstream_service service snap order) (\<lambda>r.
     case r of
       Some (entry, upstream) \<Rightarrow> Inr (backend_addr entry, pair_code entry, upstream)
     | None \<Rightarrow> Inr (default_backend, default_pair_code, service))"

section \<open>The connection handler\<close>

record SessionContext =
  sx_default_backend :: SocketAddr
  sx_default_pair_code :: "string option"
  sx_backend_order :: "string list"

record hsess = tsess +
  h_registry :: DeviceRegistry
  h_policy :: ReloadableHubPolicy
  h_fs :: fsys
  h_kills :: nat

definition client_snapshot :: "hub_toml \<Rightarrow> (hsess, DeviceSnapshot) act" where
  "client_snapshot toml s =
     (case ReloadableHubPolicy_refresh toml (h_fs s) (h_policy s) of
        (p, pol) \<Rightarrow> (Inr (filter_snapshot p (dr_inner (h_registry s))), s\<lparr>h_policy := pol\<rparr>))"

definition forward_session :: "pipe \<Rightarrow> SocketAddr \<Rightarrow> string option \<Rightarrow> string \<Rightarrow> ('x sess_scheme, unit) act" where
  "forward_session pipe addr code service =
     try_a (dial addr) (\<lambda>r. case r of
       Inl err \<Rightarrow> on_client (write_fail (''backend '' @ addr_string addr @ '': '' @ err_msg err))
     | Inr upstream \<Rightarrow>
         (case (case code of None \<Rightarrow> ret () upstream | Some k \<Rightarrow> authenticate_stream k upstream) of
            (Inl err, _) \<Rightarrow> on_client (write_fail (''backend '' @ addr_string addr @ '' auth: '' @ err_msg err))
          | (Inr _, up) \<Rightarrow> on_up (write_service service) up (\<lambda>_ up. splice_quiet pipe up)))"

datatype recv_kind = RecvOk | Lagged

type_synonym track_event = "recv_kind \<times> DeviceRegistry \<times> fsys"

definition observe :: "DeviceRegistry \<Rightarrow> fsys \<Rightarrow> (hsess, unit) act" where
  "observe reg fs s = (Inr (), s\<lparr>h_registry := reg, h_fs := fs\<rparr>)"

fun track_loop :: "hub_toml \<Rightarrow> bool \<Rightarrow> track_event list \<Rightarrow> (hsess, unit) act" where
  "track_loop toml long [] = ret ()"
| "track_loop toml long ((kind, reg, fs) # evs) =
     then_a (observe reg fs)
    (bind_a (client_snapshot toml) (\<lambda>snap.
     let body = format_devices long snap in
     case kind of
       RecvOk \<Rightarrow>
         try_a (on_client (write_packet body)) (\<lambda>r. case r of
           Inl err \<Rightarrow> (if is_benign err then ret () else throw err)
         | Inr _ \<Rightarrow> track_loop toml long evs)
     | Lagged \<Rightarrow> then_a (on_client (write_packet body)) (track_loop toml long evs)))"

definition track_devices :: "hub_toml \<Rightarrow> bool \<Rightarrow> track_event list \<Rightarrow> (hsess, unit) act" where
  "track_devices toml long evs =
     then_a (on_client write_okay)
    (bind_a (client_snapshot toml) (\<lambda>snap.
     then_a (on_client (write_packet (format_devices long snap))) (track_loop toml long evs)))"

definition notify_kill :: "(hsess, unit) act" where
  "notify_kill s = (Inr (), s\<lparr>h_kills := Suc (h_kills s)\<rparr>)"

text \<open>The device-scoped transport to a remote backend, which may set up tunnels.\<close>

definition remote_transport :: "pipe \<Rightarrow> DeviceEntry \<Rightarrow> string \<Rightarrow> (hsess, unit) act" where
  "remote_transport pipe entry upstream_service =
     (let addr = backend_addr entry;
          open = OpenBackend addr (pair_code entry) (''host:transport:'' @ upstream_serial entry)
      in try_a (connect_backend addr (pair_code entry) upstream_service) (\<lambda>r. case r of
           Inl err \<Rightarrow> on_client (write_fail (''backend '' @ addr_string addr @ '': '' @ err_msg err))
         | Inr upstream \<Rightarrow> transport pipe upstream upstream_service (public_serial entry) None open))"

definition handle_service ::
  "hub_toml \<Rightarrow> pipe \<Rightarrow> SessionContext \<Rightarrow> track_event list \<Rightarrow> string \<Rightarrow> (hsess, unit) act" where
  "handle_service toml pipe ctx evs service =
     (if service = ''host:devices'' \<or> service = ''host:devices-l'' then
        bind_a (client_snapshot toml) (\<lambda>snap.
        on_client (write_okay_payload (format_devices (ends_with ''-l'' service) snap)))
      else if service = ''host:track-devices'' \<or> service = ''host:track-devices-l'' then
        track_devices toml (ends_with ''-l'' service) evs
      else if service = ''host:kill'' then then_a (on_client write_okay) notify_kill
      else if service = ''host:get-state'' \<or> service = ''host:get-serialno'' \<or> service = ''host:get-connection-state'' then
        bind_a (client_snapshot toml) (\<lambda>snap.
        case pick_preferred snap (sx_backend_order ctx) of
          Inr entry \<Rightarrow> on_client (write_okay_payload
             (if service = ''host:get-serialno'' then public_serial entry else dev_state entry))
        | Inl reason \<Rightarrow> on_client (write_fail reason))
      else
        bind_a (client_snapshot toml) (\<lambda>snap.
        case (if is_transport service then
                (case rewrite_upstream_service service snap (sx_backend_order ctx) of
                   Inr (Some (entry, up)) \<Rightarrow> (if backend_name entry \<noteq> ''local'' then Some (entry, up) else None)
                 | _ \<Rightarrow> None)
              else None) of
          Some (entry, up) \<Rightarrow> remote_transport pipe entry up
        | None \<Rightarrow>
            (case route_service service snap (sx_default_backend ctx) (sx_default_pair_code ctx) (sx_backend_order ctx) of
               Inr (addr, code, up) \<Rightarrow> forward_session pipe addr code up
             | Inl reason \<Rightarrow> on_client (write_fail reason))))"

definition handle_client ::
  "hub_toml \<Rightarrow> pipe \<Rightarrow> SessionContext \<Rightarrow> track_event list \<Rightarrow> (hsess, unit) act" where
  "handle_client toml pipe ctx evs =
     try_a (on_client read_packet) (\<lambda>r. case r of
       Inl err \<Rightarrow> (if err_kind err = UnexpectedEof then ret () else throw err)
     | Inr payload \<Rightarrow>
         (case from_utf8 payload of
            None \<Rightarrow> on_client (write_fail ''invalid utf8 service'')
          | Some service \<Rightarrow> handle_service toml pipe ctx evs service))"

section \<open>Lemmas: device selection\<close>

definition online_on :: "DeviceSnapshot \<Rightarrow> string \<Rightarrow> DeviceEntry list" where
  "online_on snap name = filter (\<lambda>d. backend_name d = name \<and> dev_state d = ''device'') (devices snap)"

lemma push_new_set [simp]: "set (push_new x order) = insert x (set order)"
  by (auto simp: push_new_def)

lemma push_new_prefix: "\<exists>xs. push_new x order = order @ xs"
  by (auto simp: push_new_def)

lemma fold_push_prefix:
  assumes "\<And>x order. \<exists>xs. f x order = order @ xs"
  shows "\<exists>xs. fold f ys order = order @ (xs :: string list)"
proof (induction ys arbitrary: order)
  case (Cons y ys)
  obtain a where a: "f y order = order @ a" using assms by blast
  obtain b where "fold f ys (order @ a) = (order @ a) @ b" using Cons.IH by blast
  with a show ?case by simp
qed simp

lemma fold_push_covers:
  "set (fold (\<lambda>d order. push_new (backend_name d) order) ds order) = set order \<union> backend_name ` set ds"
  by (induction ds arbitrary: order) auto

lemma pick_order_covers: "backend_name ` set (devices snap) \<subseteq> set (pick_order snap bo)"
  by (simp add: pick_order_def Let_def fold_push_covers)

lemma pick_order_local:
  assumes "d \<in> set (devices snap)" "backend_name d = ''local''"
  shows "\<exists>xs. pick_order snap bo = ''local'' # xs"
proof -
  let ?f = "\<lambda>name order. if name = ''local'' then order else push_new name order"
  have "\<exists>xs. ?f x order = order @ xs" for x and order :: "string list" by (auto simp: push_new_def)
  then obtain a where a: "fold ?f bo [''local''] = [''local''] @ a"
    using fold_push_prefix [of ?f bo "[''local'']"] by blast
  obtain b where "fold (\<lambda>d order. push_new (backend_name d) order) (devices snap) ([''local''] @ a) = ([''local''] @ a) @ b"
    using fold_push_prefix [of "\<lambda>d order. push_new (backend_name d) order" "devices snap" "[''local''] @ a"] push_new_prefix
    by blast
  with a assms show ?thesis by (auto simp: pick_order_def Let_def)
qed

lemma pick_one_cases:
  "pick_one_on_backend snap n = (case online_on snap n of [] \<Rightarrow> Inl PickNone | [d] \<Rightarrow> Inr d | _ \<Rightarrow> Inl PickMany)"
  by (simp add: pick_one_on_backend_def online_on_def Let_def)

lemma pick_in_order_Inr:
  "pick_in_order snap order = Inr d \<Longrightarrow>
     \<exists>pre post. order = pre @ backend_name d # post \<and> (\<forall>n \<in> set pre. online_on snap n = []) \<and> online_on snap (backend_name d) = [d]"
proof (induction order)
  case (Cons n order)
  show ?case
  proof (cases "online_on snap n")
    case Nil
    with Cons obtain pre post where "order = pre @ backend_name d # post" "\<forall>n \<in> set pre. online_on snap n = []"
      "online_on snap (backend_name d) = [d]" by (auto simp: pick_one_cases)
    with Nil show ?thesis by (intro exI [of _ "n # pre"] exI [of _ post]) simp
  next
    case one: (Cons e es)
    with Cons.prems have "es = []" "e = d" by (auto simp: pick_one_cases split: list.splits)
    moreover have "e \<in> set (online_on snap n)" using one by simp
    ultimately have "n = backend_name d" by (auto simp: online_on_def)
    with one \<open>es = []\<close> \<open>e = d\<close> show ?thesis by (intro exI [of _ "[]"] exI [of _ order]) simp
  qed
qed simp

lemma pick_in_order_none:
  "pick_in_order snap order = Inl ''no devices/emulators found'' \<longleftrightarrow> (\<forall>n \<in> set order. online_on snap n = [])"
  by (induction order) (auto simp: pick_one_cases split: list.splits)

lemma pick_preferred_in: "pick_preferred snap bo = Inr d \<Longrightarrow> d \<in> set (devices snap) \<and> dev_state d = ''device''"
  unfolding pick_preferred_def
  by (drule pick_in_order_Inr) (auto simp: online_on_def dest: filter_single_iff)

lemma lookup_device_in: "lookup_device snap k = Inr d \<Longrightarrow> d \<in> set (devices snap) \<and> public_serial d = k"
  by (auto simp: lookup_device_def ok_or_def dest: dir.get_sound split: option.splits)

lemma lookup_online_in: "lookup_online snap k = Inr d \<Longrightarrow> d \<in> set (devices snap) \<and> public_serial d = k \<and> dev_state d = ''device''"
  by (auto simp: lookup_online_def bind_r_Inr_iff dest: lookup_device_in split: if_splits)

text \<open>A routing result that names a device of the snapshot only; the rules follow the branches of
  the rewriting.\<close>

definition routes_in :: "DeviceSnapshot \<Rightarrow> string + (DeviceEntry \<times> string) option \<Rightarrow> bool" where
  "routes_in snap r \<longleftrightarrow> (\<forall>e up. r = Inr (Some (e, up)) \<longrightarrow> e \<in> set (devices snap))"

lemma routes_in_leaf:
  "routes_in snap (Inl msg)" "routes_in snap (Inr None)"
  "e \<in> set (devices snap) \<Longrightarrow> routes_in snap (Inr (Some (e, up)))"
  by (simp_all add: routes_in_def)

lemma routes_in_bind:
  "routes_in snap (bind_r (pick_preferred snap bo) (\<lambda>e. Inr (Some (e, f e))))"
  "routes_in snap (bind_r (lookup_online snap k) (\<lambda>e. Inr (Some (e, f e))))"
  "routes_in snap (bind_r (lookup_device snap k) (\<lambda>e. Inr (Some (e, f e))))"
  by (auto simp: routes_in_def bind_r_Inr_iff dest: pick_preferred_in lookup_online_in lookup_device_in)

lemma routes_in_if: "routes_in snap x \<Longrightarrow> routes_in snap y \<Longrightarrow> routes_in snap (if b then x else y)"
  by simp

lemma routes_in_case:
  "routes_in snap x \<Longrightarrow> (\<And>v. m = Some v \<Longrightarrow> routes_in snap (f v)) \<Longrightarrow> routes_in snap (case m of None \<Rightarrow> x | Some v \<Rightarrow> f v)"
  by (cases m) auto

lemma routes_in_split: "(\<And>a b. routes_in snap (f a b)) \<Longrightarrow> routes_in snap (case p of (a, b) \<Rightarrow> f a b)"
  by (cases p) auto

lemma rewrite_routes_in: "routes_in snap (rewrite_upstream_service service snap order)"
  unfolding rewrite_upstream_service_def
  by (intro routes_in_if routes_in_case routes_in_bind routes_in_split routes_in_leaf)
    (auto simp: ok_Some_iff dest: pick_preferred_in split: if_splits)

lemma rewrite_in: "rewrite_upstream_service service snap order = Inr (Some (e, up)) \<Longrightarrow> e \<in> set (devices snap)"
  using rewrite_routes_in [of snap service order] by (simp add: routes_in_def)

lemma route_in:
  assumes "route_service service snap da dc order = Inr (addr, code, up)"
  shows "(addr, code, up) = (da, dc, service)
    \<or> (\<exists>e \<in> set (devices snap). addr = backend_addr e \<and> code = pair_code e
         \<and> rewrite_upstream_service service snap order = Inr (Some (e, up)))"
  using assms by (auto simp: route_service_def bind_r_Inr_iff dest: rewrite_in split: option.splits)

section \<open>Properties: device selection\<close>

text \<open>The search order, as far as the backends with an online device go.\<close>

lemma find_append: "List.find P (xs @ ys) = (case List.find P xs of None \<Rightarrow> List.find P ys | Some x \<Rightarrow> Some x)"
  by (induction xs) auto

lemma find_push_new: "List.find P (push_new x order) = List.find P (order @ [x])"
  by (auto simp: push_new_def find_append find_None_iff split: option.split)

lemma find_fold_push:
  "List.find P (fold (\<lambda>d order. push_new (f d) order) ds order) = List.find P (order @ map f ds)"
  by (induction ds arbitrary: order) (simp_all add: find_push_new find_append split: option.split)

lemma find_fold_push_but:
  "List.find P (fold (\<lambda>x order. if x = l then order else push_new x order) xs order) = List.find P (order @ filter (\<lambda>x. x \<noteq> l) xs)"
  by (induction xs arbitrary: order) (simp_all add: find_push_new find_append split: option.split)

lemma find_without: "\<not> P l \<Longrightarrow> List.find P (filter (\<lambda>x. x \<noteq> l) xs) = List.find P xs"
  by (induction xs) auto

lemma pick_order_first:
  "List.find (\<lambda>n. online_on snap n \<noteq> []) (pick_order snap bo)
     = List.find (\<lambda>n. online_on snap n \<noteq> []) (''local'' # bo @ map backend_name (devices snap))"
proof -
  let ?P = "\<lambda>n. online_on snap n \<noteq> []"
  let ?o = "if ''local'' \<in> set bo \<or> (\<exists>d \<in> set (devices snap). backend_name d = ''local'') then [''local''] else []"
  have f: "List.find ?P (pick_order snap bo) = List.find ?P ((?o @ filter (\<lambda>x. x \<noteq> ''local'') bo) @ map backend_name (devices snap))"
    by (simp only: pick_order_def Let_def find_fold_push find_append [of _ "fold _ _ _"] find_fold_push_but)
      (simp add: find_append split: option.split)
  show ?thesis
  proof (cases "?P ''local''")
    case True
    then have "\<exists>d \<in> set (devices snap). backend_name d = ''local''" by (auto simp: online_on_def filter_empty_conv)
    then have "?o = [''local'']" by simp
    then show ?thesis unfolding f using True by simp
  next
    case False
    then have "List.find ?P ?o = None" by (simp add: find_None_iff)
    then show ?thesis unfolding f using False find_without [of ?P "''local''" bo, OF False] by (simp add: find_append)
  qed
qed

lemma pick_in_order_find:
  "pick_in_order snap order = (case List.find (\<lambda>n. online_on snap n \<noteq> []) order of
       None \<Rightarrow> Inl ''no devices/emulators found''
     | Some n \<Rightarrow> (case online_on snap n of [d] \<Rightarrow> Inr d
         | _ \<Rightarrow> Inl (''more than one device/emulator on backend '' @ [CHR 0x27] @ n @ [CHR 0x27])))"
  by (induction order) (auto simp: pick_one_cases split: list.split)

lemma pick_preferred_find:
  "pick_preferred snap bo = (case List.find (\<lambda>n. online_on snap n \<noteq> []) (''local'' # bo @ map backend_name (devices snap)) of
       None \<Rightarrow> Inl ''no devices/emulators found''
     | Some n \<Rightarrow> (case online_on snap n of [d] \<Rightarrow> Inr d
         | _ \<Rightarrow> Inl (''more than one device/emulator on backend '' @ [CHR 0x27] @ n @ [CHR 0x27])))"
  unfolding pick_preferred_def pick_in_order_find pick_order_first ..

text \<open>C33: The preferred device. Selection without a serial looks for the first backend with an online device: the local one, then
  the configured ones in their order, then those of the list. With none it fails with "no devices"; with exactly one online device on
  that backend it is this device, and with several it fails with an error that names that backend, whatever the other backends have.
  So it fails with "no devices" exactly when no device is online, a local device has priority over all others, and the only online
  device, if there is just one, is selected.\<close>

theorem pick_preferred_spec:
  "(case List.find (\<lambda>n. online_on snap n \<noteq> []) (''local'' # bo @ map backend_name (devices snap)) of
      None \<Rightarrow> pick_preferred snap bo = Inl ''no devices/emulators found''
    | Some n \<Rightarrow> (if length (online_on snap n) = 1 then pick_preferred snap bo = Inr (hd (online_on snap n))
        else pick_preferred snap bo = Inl (''more than one device/emulator on backend '' @ [CHR 0x27] @ n @ [CHR 0x27])))
   \<and> (pick_preferred snap bo = Inl ''no devices/emulators found'' \<longleftrightarrow> (\<forall>d \<in> set (devices snap). dev_state d \<noteq> ''device''))
   \<and> (pick_preferred snap bo = Inr d \<longrightarrow> online_on snap (backend_name d) = [d] \<and> (online_on snap ''local'' \<noteq> [] \<longrightarrow> backend_name d = ''local''))
   \<and> (filter (\<lambda>d. dev_state d = ''device'') (devices snap) = [d] \<longrightarrow> pick_preferred snap bo = Inr d)"
  (is "?F \<and> ?A \<and> ?B \<and> ?C")
proof (intro conjI)
  show ?F
  proof (cases "List.find (\<lambda>n. online_on snap n \<noteq> []) (''local'' # bo @ map backend_name (devices snap))")
    case None
    then show ?thesis unfolding pick_preferred_find by (simp only: option.case)
  next
    case (Some n)
    then have "online_on snap n \<noteq> []" unfolding find_Some_iff by blast
    then obtain e es where "online_on snap n = e # es" by (cases "online_on snap n") simp
    then show ?thesis unfolding pick_preferred_find Some by (cases es) simp_all
  qed
  have none: "(\<forall>n \<in> set (pick_order snap bo). online_on snap n = []) \<longleftrightarrow> (\<forall>d \<in> set (devices snap). dev_state d \<noteq> ''device'')"
    using pick_order_covers [of snap bo] by (fastforce simp: online_on_def filter_empty_conv)
  then show A: ?A by (simp add: pick_preferred_def pick_in_order_none)
  show ?B
  proof
    assume p: "pick_preferred snap bo = Inr d"
    from pick_in_order_Inr [OF p [unfolded pick_preferred_def]] have o: "online_on snap (backend_name d) = [d]" by blast
    moreover have "backend_name d = ''local''" if "online_on snap ''local'' \<noteq> []"
    proof -
      have "d \<in> set (online_on snap ''local'')" using p that by (auto simp: pick_preferred_find split: list.splits)
      then show ?thesis by (simp add: online_on_def)
    qed
    ultimately show "online_on snap (backend_name d) = [d] \<and> (online_on snap ''local'' \<noteq> [] \<longrightarrow> backend_name d = ''local'')" by blast
  qed
  show ?C
  proof
    assume f: "filter (\<lambda>d. dev_state d = ''device'') (devices snap) = [d]"
    note fs = filter_single_iff [OF f]
    have on: "online_on snap n = (if n = backend_name d then [d] else [])" for n
    proof -
      have "online_on snap n = filter (\<lambda>d. backend_name d = n) (filter (\<lambda>d. dev_state d = ''device'') (devices snap))"
        by (auto simp: online_on_def intro: filter_cong)
      then show ?thesis by (simp add: f)
    qed
    have "pick_in_order snap order = Inr d" if "backend_name d \<in> set order" for order
      using that by (induction order) (auto simp: pick_one_cases on)
    moreover have "backend_name d \<in> set (pick_order snap bo)" using pick_order_covers fs by blast
    ultimately show "pick_preferred snap bo = Inr d" by (simp add: pick_preferred_def)
  qed
qed

definition pick_snap :: DeviceSnapshot where
  "pick_snap = \<lparr>devices = [mk_entry ''A'' (demo_backend ''lab'', ''A'', ''offline'', []),
                            mk_entry ''B'' (demo_backend ''office'', ''B'', ''device'', [])]\<rparr>"

theorem pick_preferred_spec_witness:
  "pick_preferred pick_snap [''local'', ''lab''] = Inr (mk_entry ''B'' (demo_backend ''office'', ''B'', ''device'', []))
   \<and> pick_preferred (pick_snap\<lparr>devices := mk_entry ''L'' (demo_backend ''local'', ''L'', ''device'', []) # devices pick_snap\<rparr>) [''office'']
     = Inr (mk_entry ''L'' (demo_backend ''local'', ''L'', ''device'', []))
   \<and> pick_preferred (pick_snap\<lparr>devices := mk_entry ''C'' (demo_backend ''office'', ''C'', ''device'', []) # devices pick_snap\<rparr>) []
     = Inl (''more than one device/emulator on backend '' @ [CHR 0x27] @ ''office'' @ [CHR 0x27])"
  using pick_preferred_spec [of pick_snap "[''local'', ''lab'']"]
    pick_preferred_spec [of "pick_snap\<lparr>devices := mk_entry ''L'' (demo_backend ''local'', ''L'', ''device'', []) # devices pick_snap\<rparr>" "[''office'']"]
    pick_preferred_spec [of "pick_snap\<lparr>devices := mk_entry ''C'' (demo_backend ''office'', ''C'', ''device'', []) # devices pick_snap\<rparr>" "[]"]
  by (simp add: pick_snap_def mk_entry_def online_on_def demo_backend_def)

text \<open>A serial with a colon, as the merge gives to a device listed by two backends, and as network devices
  have, cannot be named in \<^verbatim>\<open>host-serial\<close>: the request is split at the first colon and refused, although
  \<^verbatim>\<open>host:transport\<close> with the same serial reaches the device.\<close>

theorem host_serial_qualified:
  assumes d: "public_serial d = a @ '':'' @ b" "CHR '':'' \<notin> set a" and none: "find_device snap a = None"
    and dev: "find_device snap (public_serial d) = Some d" "dev_state d = ''device''"
  shows "rewrite_upstream_service (''host-serial:'' @ public_serial d @ '':'' @ request) snap order
      = Inl (''device '' @ quoted a @ '' not found'')
    \<and> rewrite_upstream_service (''host:transport:'' @ public_serial d) snap order
      = Inr (Some (d, ''host:transport:'' @ upstream_serial d))"
proof
  have "split_once (CHR '':'') (public_serial d @ '':'' @ request) = Some (a, b @ '':'' @ request)"
    using d by (simp add: split_once_Some_iff)
  then show "rewrite_upstream_service (''host-serial:'' @ public_serial d @ '':'' @ request) snap order
      = Inl (''device '' @ quoted a @ '' not found'')"
    using none by (simp add: rewrite_upstream_service_def lookup_device_def)
  show "rewrite_upstream_service (''host:transport:'' @ public_serial d) snap order
      = Inr (Some (d, ''host:transport:'' @ upstream_serial d))"
    using dev by (simp add: rewrite_upstream_service_def lookup_online_def lookup_device_def)
qed

theorem host_serial_qualified_witness:
  "rewrite_upstream_service ''host-serial:office:SAME:features'' (merge_device_lists demo_lists) [''office'', ''lab'']
     = Inl (''device '' @ quoted ''office'' @ '' not found'')"
proof -
  have m: "merge_device_lists demo_lists = \<lparr>devices =
      [mk_entry ''office:SAME'' (demo_backend ''office'', ''SAME'', ''device'', []),
       mk_entry ''10.0.0.9:5555'' (demo_backend ''office'', ''10.0.0.9:5555'', ''device'', []),
       mk_entry ''lab:SAME'' (demo_backend ''lab'', ''SAME'', ''offline'', ''usb:1'')]\<rparr>"
    by code_simp
  let ?d = "mk_entry ''office:SAME'' (demo_backend ''office'', ''SAME'', ''device'', [])"
  from host_serial_qualified [of ?d "''office''" "''SAME''" "merge_device_lists demo_lists" "''features''" "[''office'', ''lab'']"]
  show ?thesis unfolding m by (simp add: mk_entry_def find_device_def)
qed

section \<open>Sessions\<close>

text \<open>The policy in force for a session.\<close>

definition policy_now :: "hub_toml \<Rightarrow> hsess \<Rightarrow> HubPolicySnapshot" where
  "policy_now toml s = fst (ReloadableHubPolicy_refresh toml (h_fs s) (h_policy s))"

text \<open>What stays fixed during one request: network, registry and policy.\<close>

definition request_state ::
  "hub_toml \<Rightarrow> (nat \<Rightarrow> SocketAddr \<Rightarrow> io_error + conn) \<Rightarrow> DeviceRegistry \<Rightarrow> HubPolicySnapshot \<Rightarrow> hsess \<Rightarrow> bool" where
  "request_state toml D reg p s \<longleftrightarrow> dialer s = D \<and> h_registry s = reg \<and> policy_now toml s = p"

interpretation request: tunnel_condition "request_state toml D reg p" D for toml D reg p
  by unfold_locales (simp_all add: request_state_def policy_now_def)

lemma refresh_again:
  "fst (ReloadableHubPolicy_refresh toml fs (snd (ReloadableHubPolicy_refresh toml fs r))) = fst (ReloadableHubPolicy_refresh toml fs r)"
  by (simp add: hub_refresh_fst hubpol.step_idle)

lemma client_snapshot_eq:
  "client_snapshot toml s = (Inr (filter_snapshot (policy_now toml s) (dr_inner (h_registry s))),
     s\<lparr>h_policy := snd (ReloadableHubPolicy_refresh toml (h_fs s) (h_policy s))\<rparr>)"
  by (simp add: client_snapshot_def policy_now_def split: prod.split)

lemma sp_bind_snapshot:
  assumes "splices (request_state toml D reg p) P (f (filter_snapshot p (dr_inner reg)))"
  shows "splices (request_state toml D reg p) P (bind_a (client_snapshot toml) f)"
proof (rule splicesI)
  fix s assume I: "request_state toml D reg p s"
  let ?s = "s\<lparr>h_policy := snd (ReloadableHubPolicy_refresh toml (h_fs s) (h_policy s))\<rparr>"
  have "request_state toml D reg p ?s" using I by (simp add: request_state_def policy_now_def refresh_again)
  moreover have "bind_a (client_snapshot toml) f s = f (filter_snapshot p (dr_inner reg)) ?s"
    using I by (simp add: bind_a_def client_snapshot_eq request_state_def)
  ultimately show "request_state toml D reg p (snd (bind_a (client_snapshot toml) f s)) \<and>
      (\<exists>ups. spliced (snd (bind_a (client_snapshot toml) f s)) = spliced s @ ups \<and> (\<forall>u \<in> set ups. P u))"
    using assms unfolding splices_def by fastforce
qed

text \<open>A connection dialled to \<open>a\<close>, given the credentials \<open>code\<close> and the service first.\<close>

definition opened_for ::
  "(nat \<Rightarrow> SocketAddr \<Rightarrow> io_error + conn) \<Rightarrow> SocketAddr \<Rightarrow> string option \<Rightarrow> string \<Rightarrow> conn \<Rightarrow> bool" where
  "opened_for D a code service u \<longleftrightarrow>
     (\<exists>n u0 rest. D n a = Inr u0 \<and> tx u = tx u0 @ upstream_prelude code service @ rest)"

context session_condition
begin

lemma sp_forward_session:
  assumes "\<And>u. opened_for D addr code service u \<Longrightarrow> P u"
  shows "splices I P (forward_session pipe addr code service)"
  unfolding forward_session_def
proof (rule sp_try_dial)
  fix n u assume D: "D n addr = Inr u"
  have go: "splices I P (on_up (write_service service) up (\<lambda>_ up. splice_quiet pipe up))"
    if "tx up = tx u @ (case code of None \<Rightarrow> [] | Some k \<Rightarrow> packet (auth_service k))" for up
  proof (intro sp_on_up sp_splice_quiet assms)
    fix x up' assume "write_service service up = (Inr x, up')"
    then have "tx up' = tx u @ upstream_prelude code service @ []"
      using that by (simp add: write_service_Inr_tx upstream_prelude_def)
    with D show "opened_for D addr code service up'" unfolding opened_for_def by blast
  qed
  show "splices I P (case Inr u of
       Inl err \<Rightarrow> on_client (write_fail (''backend '' @ addr_string addr @ '': '' @ err_msg err))
     | Inr upstream \<Rightarrow>
         (case (case code of None \<Rightarrow> ret () upstream | Some k \<Rightarrow> authenticate_stream k upstream) of
            (Inl err, _) \<Rightarrow> on_client (write_fail (''backend '' @ addr_string addr @ '' auth: '' @ err_msg err))
          | (Inr _, up) \<Rightarrow> on_up (write_service service) up (\<lambda>_ up. splice_quiet pipe up)))"
    by (auto intro!: go sp_on_client dest: authenticate_stream_Inr_tx split: option.split prod.split sum.split)
qed (simp add: sp_on_client)

end

lemma sp_connect_transport:
  assumes "\<And>u. opened_for D a code service u \<Longrightarrow> P u"
    and "\<And>e. splices (request_state toml D reg p) P (fl e)"
  shows "splices (request_state toml D reg p) P (try_a (connect_backend a code service)
    (\<lambda>r. case r of Inl e \<Rightarrow> fl e | Inr up \<Rightarrow> transport pipe up service serial owner open))"
proof (rule splicesI)
  fix s assume I: "request_state toml D reg p s"
  let ?m = "connect_backend a code service"
  have st: "request_state toml D reg p (snd (?m s))" "spliced (snd (?m s)) = spliced s"
    using I by (auto simp: connect_backend_def bind_a_def dial_def on_up_def request_state_def policy_now_def
        split: prod.splits sum.splits)
  have up: "\<exists>n u0. D n a = Inr u0 \<and> tx up = tx u0 @ upstream_prelude code service" if "fst (?m s) = Inr up" for up
    using that I
    by (auto simp: connect_backend_def bind_a_def dial_def on_up_def request_state_def upstream_prelude_def
        split: prod.splits sum.splits option.splits dest!: write_service_Inr_tx authenticate_stream_Inr_tx)
      (metis append_assoc)+
  have "splices (request_state toml D reg p) P (case fst (?m s) of Inl e \<Rightarrow> fl e | Inr up \<Rightarrow> transport pipe up service serial owner open)"
  proof (cases "fst (?m s)")
    case (Inr u)
    from up [OF Inr] obtain n u0 where "D n a = Inr u0" "tx u = tx u0 @ upstream_prelude code service" by blast
    then have "opened_for D a code service v" if "tx v = tx u @ packet req" for v req
      using that by (auto simp: opened_for_def)
    then show ?thesis using Inr assms(1) by (auto intro!: request.free.sp_transport)
  qed (simp add: assms(2))
  with st show "request_state toml D reg p (snd (try_a ?m (\<lambda>r. case r of Inl e \<Rightarrow> fl e | Inr up \<Rightarrow> transport pipe up service serial owner open) s)) \<and>
      (\<exists>ups. spliced (snd (try_a ?m (\<lambda>r. case r of Inl e \<Rightarrow> fl e | Inr up \<Rightarrow> transport pipe up service serial owner open) s)) = spliced s @ ups \<and> (\<forall>u \<in> set ups. P u))"
    unfolding splices_def try_a_def by (cases "?m s") auto
qed

text \<open>Tracking hands over nothing.\<close>

lemma sp_client_snapshot: "splices (\<lambda>s. dialer s = D) P (client_snapshot toml)"
  by (simp add: splices_def client_snapshot_eq)

lemma sp_observe: "splices (\<lambda>s. dialer s = D) P (observe reg fs)"
  by (simp add: splices_def observe_def)

lemma sp_track_loop: "splices (\<lambda>s. dialer s = D) P (track_loop toml long evs)"
proof (induction evs)
  case Nil
  show ?case unfolding track_loop.simps by (rule network.sp_ret)
next
  case (Cons ev evs)
  obtain kind reg fs where ev: "ev = (kind, reg, fs)" by (cases ev)
  show ?case
    unfolding ev track_loop.simps Let_def
    by (cases kind; simp only: recv_kind.case)
      (intro network.sp_rules network.sp_bind network.sp_try sp_branch sp_client_snapshot sp_observe Cons.IH)+
qed

lemma track_devices_spliced: "spliced (snd (track_devices toml long evs s)) = spliced s"
proof -
  have "splices (\<lambda>t. dialer t = dialer s) (\<lambda>_. False) (track_devices toml long evs)"
    unfolding track_devices_def
    by (intro network.sp_rules network.sp_bind sp_client_snapshot sp_track_loop)
  from splicesD [OF this, of s] show ?thesis by (auto simp: set_empty [symmetric] simp del: set_empty)
qed

text \<open>The upstreams a request may reach: the default backend with the request as it is, or the
  backend of an enabled device with the request rewritten for it.\<close>

definition session_target ::
  "(nat \<Rightarrow> SocketAddr \<Rightarrow> io_error + conn) \<Rightarrow> SessionContext \<Rightarrow> HubPolicySnapshot \<Rightarrow> DeviceSnapshot \<Rightarrow> string \<Rightarrow> conn \<Rightarrow> bool" where
  "session_target D ctx p snap service u \<longleftrightarrow>
     opened_for D (sx_default_backend ctx) (sx_default_pair_code ctx) service u
   \<or> (\<exists>e up. e \<in> set (devices snap) \<and> backend_enabled p (backend_name e) \<and> device_enabled p (public_serial e)
        \<and> rewrite_upstream_service service (filter_snapshot p snap) (sx_backend_order ctx) = Inr (Some (e, up))
        \<and> opened_for D (backend_addr e) (pair_code e) up u)"

lemma rewrite_target:
  assumes "rewrite_upstream_service service (filter_snapshot p snap) (sx_backend_order ctx) = Inr (Some (e, up))"
    and "opened_for D (backend_addr e) (pair_code e) up u"
  shows "session_target D ctx p snap service u"
  using assms rewrite_in [OF assms(1)] by (auto simp: session_target_def filter_snapshot_def)

lemma sp_routed:
  "splices (request_state toml D reg p) (session_target D ctx p (dr_inner reg) service)
     (case route_service service (filter_snapshot p (dr_inner reg)) (sx_default_backend ctx) (sx_default_pair_code ctx) (sx_backend_order ctx) of
        Inr (addr, code, up) \<Rightarrow> forward_session pipe addr code up
      | Inl reason \<Rightarrow> on_client (write_fail reason))"
proof (cases "route_service service (filter_snapshot p (dr_inner reg)) (sx_default_backend ctx) (sx_default_pair_code ctx) (sx_backend_order ctx)")
  case (Inr r)
  obtain addr code up where r: "r = (addr, code, up)" by (cases r)
  have "session_target D ctx p (dr_inner reg) service u" if "opened_for D addr code up u" for u
    using route_in [OF Inr [unfolded r]]
  proof
    assume "(addr, code, up) = (sx_default_backend ctx, sx_default_pair_code ctx, service)"
    with that show ?thesis by (simp add: session_target_def)
  next
    assume "\<exists>e \<in> set (devices (filter_snapshot p (dr_inner reg))). addr = backend_addr e \<and> code = pair_code e
      \<and> rewrite_upstream_service service (filter_snapshot p (dr_inner reg)) (sx_backend_order ctx) = Inr (Some (e, up))"
    with that show ?thesis by (auto intro: rewrite_target)
  qed
  then show ?thesis using Inr r by (simp add: request.sp_forward_session)
qed (simp add: request.sp_on_client)

lemma sp_remote_transport:
  assumes "rewrite_upstream_service service (filter_snapshot p (dr_inner reg)) (sx_backend_order ctx) = Inr (Some (e, up))"
  shows "splices (request_state toml D reg p) (session_target D ctx p (dr_inner reg) service) (remote_transport pipe e up)"
  unfolding remote_transport_def Let_def
  by (intro sp_connect_transport request.sp_on_client rewrite_target [OF assms])

lemma sp_handle_service:
  assumes "service \<noteq> ''host:track-devices'' \<and> service \<noteq> ''host:track-devices-l''"
  shows "splices (request_state toml D reg p) (session_target D ctx p (dr_inner reg) service) (handle_service toml pipe ctx evs service)"
proof -
  have kill: "splices (request_state toml D reg p) P notify_kill" for P
    by (simp add: splices_def notify_kill_def request_state_def policy_now_def)
  have last: "splices (request_state toml D reg p) (session_target D ctx p (dr_inner reg) service)
     (case (if is_transport service then
                (case rewrite_upstream_service service (filter_snapshot p (dr_inner reg)) (sx_backend_order ctx) of
                   Inr (Some (entry, up)) \<Rightarrow> (if backend_name entry \<noteq> ''local'' then Some (entry, up) else None)
                 | _ \<Rightarrow> None)
              else None) of
          Some (entry, up) \<Rightarrow> remote_transport pipe entry up
        | None \<Rightarrow>
            (case route_service service (filter_snapshot p (dr_inner reg)) (sx_default_backend ctx) (sx_default_pair_code ctx) (sx_backend_order ctx) of
               Inr (addr, code, up) \<Rightarrow> forward_session pipe addr code up
             | Inl reason \<Rightarrow> on_client (write_fail reason)))"
    by (intro sp_option sp_prod sp_routed sp_remote_transport) (simp split: if_splits sum.splits option.splits prod.splits)
  show ?thesis
    unfolding handle_service_def
    by (intro sp_if sp_sum sp_bind_snapshot request.sp_on_client request.sp_then kill last) (use assms in blast)
qed

lemma handle_client_upstreams:
  "\<exists>ups. spliced (snd (handle_client toml pipe ctx evs s)) = spliced s @ ups
     \<and> (\<forall>u \<in> set ups. \<exists>service. fst (read_packet (cl s)) = Inr service
          \<and> session_target (dialer s) ctx (policy_now toml s) (dr_inner (h_registry s)) service u)"
proof -
  obtain r c where rp: "read_packet (cl s) = (r, c)" by fastforce
  let ?s = "s\<lparr>cl := c\<rparr>"
  show ?thesis
  proof (cases "\<exists>service. r = Inr service \<and> utf8_valid service")
    case False
    then show ?thesis
      by (auto simp: handle_client_def try_a_def on_client_def rp from_utf8_def split: sum.splits prod.splits)
  next
    case True
    then obtain service where sv: "r = Inr service" "utf8_valid service" by blast
    then have h: "handle_client toml pipe ctx evs s = handle_service toml pipe ctx evs service ?s"
      by (simp add: handle_client_def try_a_def on_client_def rp from_utf8_def)
    show ?thesis
    proof (cases "service = ''host:track-devices'' \<or> service = ''host:track-devices-l''")
      case True
      then have "handle_service toml pipe ctx evs service ?s = track_devices toml (ends_with ''-l'' service) evs ?s"
        by (auto simp: handle_service_def)
      then show ?thesis by (simp add: h track_devices_spliced)
    next
      case False
      have "request_state toml (dialer s) (h_registry s) (policy_now toml s) ?s"
        by (simp add: request_state_def policy_now_def)
      from splicesD [OF sp_handle_service this] False rp sv(1) show ?thesis by (auto simp: h)
    qed
  qed
qed

text \<open>C4: What the hub forwards, and where. Whatever a client sends, every upstream connection its
  data is joined to was dialled either to the default backend and given the client's service as it
  is, or to the backend of a device that is registered and enabled (both the device and its node)
  and given the service rewritten for exactly that device; in both cases the backend's pair code, if
  any, was presented first. No request reaches a backend because of a disabled device.\<close>

theorem session_upstreams:
  "\<exists>ups. spliced (snd (handle_client toml pipe ctx evs s)) = spliced s @ ups
     \<and> (\<forall>u \<in> set ups. \<exists>service. fst (read_packet (cl s)) = Inr service
          \<and> session_target (dialer s) ctx (policy_now toml s) (dr_inner (h_registry s)) service u)"
  by (rule handle_client_upstreams)

definition static_policy :: "HubPolicySnapshot \<Rightarrow> ReloadableHubPolicy" where
  "static_policy p = \<lparr>rhp_path = None, rhp_static = p, rhp_cache = \<lparr>hpc_mtime = None, hpc_policy = p\<rparr>\<rparr>"

definition demo_hsess :: "bytes \<Rightarrow> HubPolicySnapshot \<Rightarrow> DeviceSnapshot \<Rightarrow> hsess" where
  "demo_hsess b p snap =
     \<lparr>cl = open_conn b, dialer = (\<lambda>_ _. Inr (open_conn ''OKAY'')), dials = 0, spliced = [], tunnels = demo_tm,
      h_registry = \<lparr>dr_inner = snap, dr_notified = 0\<rparr>, h_policy = static_policy p, h_fs = demo_fs None, h_kills = 0\<rparr>"

definition demo_ctx :: SessionContext where
  "demo_ctx = \<lparr>sx_default_backend = localhost 5039, sx_default_pair_code = None, sx_backend_order = [''local'']\<rparr>"

lemma utf8_ascii_test: "list_all (\<lambda>c. byte_val c < 128) s \<Longrightarrow> utf8_valid s"
  by (rule utf8_valid_ascii) (simp add: ascii_def list_all_iff)

lemma demo_forward:
  "spliced (snd (handle_client toml (\<lambda>c u. (Inr (), c, u)) demo_ctx [] (demo_hsess (packet ''host:version'') p snap)))
     = [(open_conn ''OKAY'')\<lparr>tx := packet ''host:version''\<rparr>]"
proof -
  have "read_packet (open_conn (packet ''host:version'')) = (Inr ''host:version'', (open_conn (packet ''host:version''))\<lparr>rx := []\<rparr>)"
    by (rule read_packet_packet) (simp_all add: fits16_def)
  moreover have "utf8_valid ''host:version''" by (rule utf8_ascii_test) simp
  moreover have "rewrite_upstream_service ''host:version'' sn od = Inr None" for sn od
    by (simp add: rewrite_upstream_service_def)
  ultimately show ?thesis
    by (simp add: handle_client_def try_a_def on_client_def demo_hsess_def from_utf8_def handle_service_def
        bind_a_def client_snapshot_def is_transport_def starts_with_def route_service_def forward_session_def
        dial_def on_up_def write_service_def write_packet_unlimited splice_quiet_def splice_def demo_ctx_def
        ReloadableHubPolicy_refresh_def static_policy_def)
qed

theorem session_upstreams_witness:
  "session_target (\<lambda>_ _. Inr (open_conn ''OKAY'')) demo_ctx (policy_of_config local_only) pick_snap ''host:version''
     ((open_conn ''OKAY'')\<lparr>tx := packet ''host:version''\<rparr>)"
proof -
  let ?s = "demo_hsess (packet ''host:version'') (policy_of_config local_only) pick_snap"
  have "read_packet (cl ?s) = (Inr ''host:version'', (cl ?s)\<lparr>rx := []\<rparr>)"
    by (rule read_packet_packet) (simp_all add: fits16_def demo_hsess_def)
  moreover have "policy_now (\<lambda>_. Inl []) ?s = policy_of_config local_only"
    by (simp add: policy_now_def demo_hsess_def ReloadableHubPolicy_refresh_def static_policy_def)
  ultimately show ?thesis
    using session_upstreams [of "\<lambda>_. Inl []" "\<lambda>c u. (Inr (), c, u)" demo_ctx "[]" ?s] demo_forward
    by (simp add: demo_hsess_def)
qed

section \<open>What the client is told\<close>

text \<open>The device list. For \<^verbatim>\<open>host:devices\<close> and \<^verbatim>\<open>host:devices-l\<close> the client gets exactly one OKAY
  reply with the formatted list of the registered devices the current policy enables; no backend
  is contacted.\<close>

theorem devices_reply:
  assumes "rx (cl s) = packet service @ r" "service = ''host:devices'' \<or> service = ''host:devices-l''" "tx_room (cl s) = None"
  shows "fst (handle_client toml pipe ctx evs s) = Inr ()
    \<and> tx (cl (snd (handle_client toml pipe ctx evs s))) = tx (cl s) @ okay_reply
        (format_devices (service = ''host:devices-l'') (filter_snapshot (policy_now toml s) (dr_inner (h_registry s))))
    \<and> dials (snd (handle_client toml pipe ctx evs s)) = dials s
    \<and> spliced (snd (handle_client toml pipe ctx evs s)) = spliced s"
proof -
  have "read_packet (cl s) = (Inr service, (cl s)\<lparr>rx := r\<rparr>)"
    using assms(1,2) by (intro read_packet_packet) (auto simp: fits16_def)
  moreover have "utf8_valid service" using assms(2) by (auto intro: utf8_ascii_test)
  ultimately have "handle_client toml pipe ctx evs s = handle_service toml pipe ctx evs service (s\<lparr>cl := (cl s)\<lparr>rx := r\<rparr>\<rparr>)"
    by (simp add: handle_client_def try_a_def on_client_def from_utf8_def)
  moreover have "ends_with ''-l'' ''host:devices-l''" "\<not> ends_with ''-l'' ''host:devices''" by code_simp+
  then have "ends_with ''-l'' service = (service = ''host:devices-l'')" using assms(2) by auto
  moreover note this
  moreover have "policy_now toml (s\<lparr>cl := (cl s)\<lparr>rx := r\<rparr>\<rparr>) = policy_now toml s" by (simp add: policy_now_def)
  ultimately show ?thesis
    using assms(2,3) by (simp add: handle_service_def bind_a_def client_snapshot_eq on_client_def write_okay_payload_unlimited)
qed

theorem devices_reply_witness:
  "tx (cl (snd (handle_client (\<lambda>_. Inl []) (\<lambda>c u. (Inr (), c, u)) demo_ctx []
      (demo_hsess (packet ''host:devices'') (policy_of_config (set_device_enabled ''A'' False local_only)) pick_snap))))
     = okay_reply (''B'' @ [TAB] @ ''device'' @ [LF])"
proof -
  let ?p = "policy_of_config (set_device_enabled ''A'' False local_only)"
  let ?s = "demo_hsess (packet ''host:devices'') ?p pick_snap"
  have "policy_now (\<lambda>_. Inl []) ?s = ?p"
    by (simp add: policy_now_def demo_hsess_def ReloadableHubPolicy_refresh_def static_policy_def)
  moreover have "format_devices False (filter_snapshot ?p pick_snap) = ''B'' @ [TAB] @ ''device'' @ [LF]"
    by (simp add: format_devices_concat format_device_def filter_snapshot_def pick_snap_def mk_entry_def demo_backend_def
        policy_of_config_def backend_enabled_def device_enabled_def set_device_enabled_def is_enabled_set_enabled local_only_def)
  ultimately show ?thesis
    using devices_reply [of ?s "''host:devices''" "[]" "\<lambda>_. Inl []" "\<lambda>c u. (Inr (), c, u)" demo_ctx "[]"]
    by (simp add: demo_hsess_def)
qed

text \<open>The views a tracking client should see: one per notification, under the policy then in force.\<close>

fun track_views :: "hub_toml \<Rightarrow> bool \<Rightarrow> ReloadableHubPolicy \<Rightarrow> track_event list \<Rightarrow> string list" where
  "track_views toml long pol [] = []"
| "track_views toml long pol ((kind, reg, fs) # evs) =
     (case ReloadableHubPolicy_refresh toml fs pol of
        (p, pol') \<Rightarrow> format_devices long (filter_snapshot p (dr_inner reg)) # track_views toml long pol' evs)"

lemma track_loop_output:
  "tx_room (cl s) = None \<Longrightarrow>
     fst (track_loop toml long evs s) = Inr ()
     \<and> tx (cl (snd (track_loop toml long evs s))) = tx (cl s) @ concat (map packet (track_views toml long (h_policy s) evs))"
proof (induction evs arbitrary: s)
  case (Cons ev evs)
  obtain kind reg fs where ev: "ev = (kind, reg, fs)" by (cases ev)
  obtain p pol where rf: "ReloadableHubPolicy_refresh toml fs (h_policy s) = (p, pol)" by fastforce
  let ?b = "format_devices long (filter_snapshot p (dr_inner reg))"
  let ?s = "s\<lparr>h_registry := reg, h_fs := fs, h_policy := pol, cl := (cl s)\<lparr>tx := tx (cl s) @ packet ?b\<rparr>\<rparr>"
  have "track_loop toml long (ev # evs) s = track_loop toml long evs ?s"
    using Cons.prems
    by (cases kind) (simp_all add: ev then_a_def bind_a_def try_a_def observe_def client_snapshot_def rf Let_def
        on_client_def write_packet_unlimited)
  moreover have "tx_room (cl ?s) = None" using Cons.prems by simp
  ultimately show ?case using Cons.IH [of ?s] by (simp add: ev rf)
qed simp

text \<open>Device tracking. A tracking client gets OKAY, one framed list for the state at the start and
  one for every notification received, each showing the registry and policy of that moment, in order
  and nothing else.\<close>

theorem track_output:
  assumes "tx_room (cl s) = None"
  shows "fst (track_devices toml long evs s) = Inr ()
    \<and> tx (cl (snd (track_devices toml long evs s))) = tx (cl s) @ ''OKAY''
        @ concat (map packet (track_views toml long (h_policy s) ((RecvOk, h_registry s, h_fs s) # evs)))"
proof -
  obtain p pol where rf: "ReloadableHubPolicy_refresh toml (h_fs s) (h_policy s) = (p, pol)" by fastforce
  let ?b = "format_devices long (filter_snapshot p (dr_inner (h_registry s)))"
  let ?s = "s\<lparr>h_policy := pol, cl := (cl s)\<lparr>tx := (tx (cl s) @ ''OKAY'') @ packet ?b\<rparr>\<rparr>"
  have "track_devices toml long evs s = track_loop toml long evs ?s"
    using assms by (simp add: track_devices_def then_a_def bind_a_def on_client_def write_okay_unlimited
        client_snapshot_def rf write_packet_unlimited)
  moreover have "tx_room (cl ?s) = None" using assms by simp
  ultimately show ?thesis using track_loop_output [of ?s toml long evs] by (simp add: rf)
qed

theorem track_output_witness:
  "tx (cl (snd (track_devices (\<lambda>_. Inl []) False [(RecvOk, DeviceRegistry_new, demo_fs None)]
      (demo_hsess [] (policy_of_config local_only) pick_snap))))
   = ''OKAY'' @ packet (''A'' @ [TAB] @ ''offline'' @ [LF] @ ''B'' @ [TAB] @ ''device'' @ [LF]) @ packet []"
  using track_output [of "demo_hsess [] (policy_of_config local_only) pick_snap" "\<lambda>_. Inl []" False "[(RecvOk, DeviceRegistry_new, demo_fs None)]"]
  by (simp add: demo_hsess_def ReloadableHubPolicy_refresh_def static_policy_def format_devices_concat format_device_def
      filter_snapshot_def pick_snap_def mk_entry_def demo_backend_def policy_of_config_def backend_enabled_def
      device_enabled_def local_only_def DeviceRegistry_new_def empty_snapshot_def)

end
