(* ===== verification/Daemon_Agents.thy ===== *)
theory Daemon_Agents
  imports Ipc Tunnel
begin

text \<open>
  The agents' side of the daemon, src/daemon.rs: accepting a control connection whose user the
  kernel attests, registration and replacement, the read loop, clean-up at the end of a connection,
  and the poll of the shared local adb server. A connection is named by its user and a number: the
  user is the one of \<^verbatim>\<open>SO_PEERCRED\<close>. The connection objects live in a store, because the
  table of agents, the read loop and the client sessions share them (\<^verbatim>\<open>Arc\<close>).
\<close>

section \<open>State\<close>

type_synonym ckey = "Uid \<times> nat"

record OpenOutcome =
  oo_ok :: bool
  oo_fail_reason :: "string option"

datatype phase = Hello | Reading | Ended

text \<open>\<open>ag_senders\<close> is the sender table \<^verbatim>\<open>stream_tx\<close>, \<open>ag_queues\<close> the contents of the channels;
  \<open>ag_waiters\<close> are the pending \<^verbatim>\<open>oneshot\<close> senders, \<open>ag_outcomes\<close> what was sent on them.\<close>

record AgentConn =
  ag_token :: string
  ag_io :: conn
  ag_phase :: phase
  ag_senders :: "u32 set"
  ag_queues :: "u32 \<Rightarrow> bytes list"
  ag_waiters :: "u32 set"
  ag_outcomes :: "u32 \<rightharpoonup> OpenOutcome"

record dcore =
  dc_tenants :: TenantRegistry
  dc_agents :: "Uid \<rightharpoonup> nat"
  dc_conns :: "ckey \<rightharpoonup> AgentConn"
  dc_next_stream :: u32
  dc_local :: "BackendConfig option"
  dc_version :: u32

record daemon = dcore +
  d_tunnels :: TunnelManager

section \<open>Steps\<close>

definition new_conn :: "conn \<Rightarrow> AgentConn" where
  "new_conn io = \<lparr>ag_token = [], ag_io = io, ag_phase = Hello, ag_senders = {}, ag_queues = (\<lambda>_. []), ag_waiters = {},
     ag_outcomes = Map.empty\<rparr>"

definition on_conn :: "ckey \<Rightarrow> (AgentConn \<Rightarrow> AgentConn) \<Rightarrow> 'x dcore_scheme \<Rightarrow> 'x dcore_scheme" where
  "on_conn k f d = d\<lparr>dc_conns := (dc_conns d)(k := map_option f (dc_conns d k))\<rparr>"

text \<open>The first message must register with the right protocol version.\<close>

definition agent_hello :: "json \<Rightarrow> (conn, RegisterAgent) act" where
  "agent_hello js =
     bind_a (read_message js) (\<lambda>first.
     case first of
       MRegisterAgent reg \<Rightarrow>
         (if ra_version reg \<noteq> PROTOCOL_VERSION then
            throw (IoErr InvalidData (''unsupported agent protocol version '' @ dec (unat (ra_version reg))
              @ '' (want '' @ dec (unat PROTOCOL_VERSION) @ '')''))
          else ret reg)
     | _ \<Rightarrow> throw (IoErr InvalidData ''expected RegisterAgent''))"

text \<open>Registering replaces whatever agent the user had.\<close>

definition register_agent :: "ckey \<Rightarrow> 'x dcore_scheme \<Rightarrow> 'x dcore_scheme" where
  "register_agent k d = d\<lparr>dc_agents := (dc_agents d)(fst k \<mapsto> snd k)\<rparr>"

text \<open>One message of the read loop.\<close>

definition agent_snapshot :: "ckey \<Rightarrow> DeviceSnapshotMsg \<Rightarrow> 'x dcore_scheme \<Rightarrow> 'x dcore_scheme" where
  "agent_snapshot k m d = d\<lparr>dc_tenants := update_agent_devices (fst k) (sanitized_to_snapshot (ds_devices m)) (dc_tenants d)\<rparr>"

definition resolve :: "u32 \<Rightarrow> OpenOutcome \<Rightarrow> AgentConn \<Rightarrow> AgentConn" where
  "resolve i out c =
     (if i \<in> ag_waiters c then c\<lparr>ag_waiters := ag_waiters c - {i}, ag_outcomes := (ag_outcomes c)(i \<mapsto> out)\<rparr> else c)"

definition queue_data :: "u32 \<Rightarrow> bytes \<Rightarrow> AgentConn \<Rightarrow> AgentConn" where
  "queue_data i data c =
     (if i \<in> ag_senders c then c\<lparr>ag_queues := (ag_queues c)(i := ag_queues c i @ [data])\<rparr> else c)"

definition agent_dispatch :: "json \<Rightarrow> ckey \<Rightarrow> IpcMessage \<Rightarrow> ('x dcore_scheme, unit) act" where
  "agent_dispatch js k msg d =
     (case msg of
        MDeviceSnapshot m \<Rightarrow> (Inr (), agent_snapshot k m d)
      | MDeviceSnapshotChanged m \<Rightarrow> (Inr (), agent_snapshot k m d)
      | MOpenResult r \<Rightarrow>
          (Inr (), on_conn k (resolve (or_stream_id r) \<lparr>oo_ok = or_ok r, oo_fail_reason = or_fail_reason r\<rparr>) d)
      | MStreamData i data \<Rightarrow> (Inr (), on_conn k (queue_data i data) d)
      | MStreamClose c \<Rightarrow>
          (Inr (), on_conn k (\<lambda>a. resolve (sc_stream_id c) \<lparr>oo_ok = False, oo_fail_reason = Some (sc_reason c)\<rparr>
             (a\<lparr>ag_senders := ag_senders a - {sc_stream_id c}\<rparr>)) d)
      | MPing \<Rightarrow>
          (case dc_conns d k of
             None \<Rightarrow> (Inr (), d)
           | Some c \<Rightarrow> (case write_message js MPong (ag_io c) of (r, io) \<Rightarrow> (r, on_conn k (\<lambda>a. a\<lparr>ag_io := io\<rparr>) d)))
      | _ \<Rightarrow> (Inr (), d))"

text \<open>The end of a connection: only the agent registered for the user, recognised by its token, takes the
  user's devices and tunnels with it.\<close>

definition active :: "ckey \<Rightarrow> 'x dcore_scheme \<Rightarrow> bool" where
  "active k d \<longleftrightarrow>
     (case dc_agents d (fst k) of
        None \<Rightarrow> False
      | Some n \<Rightarrow> map_option ag_token (dc_conns d (fst k, n)) = map_option ag_token (dc_conns d k))"

definition agent_cleanup :: "ckey \<Rightarrow> daemon \<Rightarrow> daemon" where
  "agent_cleanup k d =
     (let d1 = on_conn k (\<lambda>c. c\<lparr>ag_phase := Ended\<rparr>) d in
      if active k d then
        d1\<lparr>dc_agents := (dc_agents d1)(fst k := None),
           dc_tenants := remove_agent (fst k) (dc_tenants d1),
           d_tunnels := remove_owner (fst k) (d_tunnels d1)\<rparr>
      else d1)"

text \<open>The next thing the task of a connection does.\<close>

definition agent_turn :: "json \<Rightarrow> ckey \<Rightarrow> daemon \<Rightarrow> daemon" where
  "agent_turn js k d =
     (case dc_conns d k of
        None \<Rightarrow> d
      | Some c \<Rightarrow>
          (case ag_phase c of
             Ended \<Rightarrow> d
           | Hello \<Rightarrow>
               (case agent_hello js (ag_io c) of
                  (Inl _, io) \<Rightarrow> on_conn k (\<lambda>a. a\<lparr>ag_io := io, ag_phase := Ended\<rparr>) d
                | (Inr reg, io) \<Rightarrow>
                    register_agent k (on_conn k (\<lambda>a. a\<lparr>ag_io := io, ag_phase := Reading, ag_token := ra_instance_token reg\<rparr>) d))
           | Reading \<Rightarrow>
               (case read_message js (ag_io c) of
                  (Inl _, io) \<Rightarrow> agent_cleanup k (on_conn k (\<lambda>a. a\<lparr>ag_io := io\<rparr>) d)
                | (Inr msg, io) \<Rightarrow>
                    (case agent_dispatch js k msg (on_conn k (\<lambda>a. a\<lparr>ag_io := io\<rparr>) d) of
                       (Inr _, d') \<Rightarrow> d'
                     | (Inl _, d') \<Rightarrow> agent_cleanup k d'))))"

definition agent_accept :: "ckey \<Rightarrow> conn \<Rightarrow> daemon \<Rightarrow> daemon" where
  "agent_accept k io d =
     (if dc_conns d k = None then d\<lparr>dc_conns := (dc_conns d)(k \<mapsto> new_conn io)\<rparr> else d)"

text \<open>\<open>r\<close> is the result of \<^verbatim>\<open>fetch_devices_l\<close> on the local adb server; an error counts as an empty list.\<close>

definition poll_shared_once :: "io_error + string \<Rightarrow> 'x dcore_scheme \<Rightarrow> 'x dcore_scheme" where
  "poll_shared_once r d =
     (case dc_local d of
        None \<Rightarrow> d
      | Some b \<Rightarrow> d\<lparr>dc_tenants := update_shared_from_lists [(b, case r of Inr body \<Rightarrow> body | Inl _ \<Rightarrow> [])] (dc_tenants d)\<rparr>)"

datatype daemon_event =
    DAccept ckey conn
  | DTurn ckey
  | DShared "io_error + string"

primrec daemon_step :: "json \<Rightarrow> daemon_event \<Rightarrow> daemon \<Rightarrow> daemon" where
  "daemon_step js (DAccept k io) d = agent_accept k io d"
| "daemon_step js (DTurn k) d = agent_turn js k d"
| "daemon_step js (DShared r) d = poll_shared_once r d"

definition daemon_init :: "BackendConfig option \<Rightarrow> u32 \<Rightarrow> (nat \<Rightarrow> u16 \<Rightarrow> io_error + u16) \<Rightarrow> daemon" where
  "daemon_init loc version bind = \<lparr>dc_tenants = TenantRegistry_new, dc_agents = Map.empty, dc_conns = Map.empty,
     dc_next_stream = 1, dc_local = loc, dc_version = version,
     d_tunnels = \<lparr>tm_listeners = Map.empty, tm_bind = bind, tm_binds = 0\<rparr>\<rparr>"

section \<open>Isolation\<close>

text \<open>What belongs to a user.\<close>

definition own_part :: "Uid \<Rightarrow> daemon \<Rightarrow> DeviceSnapshot option \<times> nat option \<times> (nat \<Rightarrow> AgentConn option) \<times> (u16 \<rightharpoonup> Listener)" where
  "own_part u d = (tr_private (dc_tenants d) u, dc_agents d u, (\<lambda>n. dc_conns d (u, n)), owned (Some u) (d_tunnels d))"

definition shared_part :: "daemon \<Rightarrow> DeviceSnapshot \<times> BackendConfig option" where
  "shared_part d = (tr_shared (dc_tenants d), dc_local d)"

primrec event_about :: "Uid \<Rightarrow> daemon_event \<Rightarrow> bool" where
  "event_about u (DAccept k io) = (fst k = u)"
| "event_about u (DTurn k) = (fst k = u)"
| "event_about u (DShared r) = True"

text \<open>Every operation on a connection of user \<open>v\<close> leaves the part of another user and the shared part alone.\<close>

lemma other_on_conn: "fst k \<noteq> u \<Longrightarrow> own_part u (on_conn k f d) = own_part u d"
  by (cases k) (auto simp: own_part_def on_conn_def)

lemma other_register: "fst k \<noteq> u \<Longrightarrow> own_part u (register_agent k d) = own_part u d"
  by (simp add: own_part_def register_agent_def)

lemma other_snapshot: "fst k \<noteq> u \<Longrightarrow> own_part u (agent_snapshot k m d) = own_part u d"
  by (simp add: own_part_def agent_snapshot_def tenant_defs)

lemma other_cleanup: "fst k \<noteq> u \<Longrightarrow> own_part u (agent_cleanup k d) = own_part u d"
  using other_on_conn [of k u "\<lambda>c. c\<lparr>ag_phase := Ended\<rparr>" d]
  by (auto simp: agent_cleanup_def Let_def own_part_def tenant_defs remove_owner_owned)

lemma other_dispatch: "fst k \<noteq> u \<Longrightarrow> own_part u (snd (agent_dispatch js k msg d)) = own_part u d"
  by (cases msg) (simp_all add: agent_dispatch_def other_snapshot other_on_conn split: option.split prod.split)

lemma other_turn:
  assumes "fst k \<noteq> u"
  shows "own_part u (agent_turn js k d) = own_part u d"
proof -
  have "own_part u d' = own_part u e" if "agent_dispatch js k msg e = (r, d')" for msg e r d'
    using other_dispatch [OF assms, of js msg e] that by simp
  then show ?thesis
    using assms by (auto simp: agent_turn_def other_on_conn other_register other_cleanup split: option.split phase.split prod.split sum.split)
qed

lemma shared_on_conn [simp]: "shared_part (on_conn k f d) = shared_part d"
  by (simp add: shared_part_def on_conn_def)

lemma shared_keeps [simp]:
  "shared_part (register_agent k d) = shared_part d" "shared_part (agent_snapshot k m d) = shared_part d"
  by (simp_all add: shared_part_def register_agent_def agent_snapshot_def tenant_defs)

lemma shared_cleanup [simp]: "shared_part (agent_cleanup k d) = shared_part d"
  using shared_on_conn [of k "\<lambda>c. c\<lparr>ag_phase := Ended\<rparr>" d]
  by (simp add: agent_cleanup_def Let_def shared_part_def tenant_defs)

lemma shared_dispatch [simp]: "shared_part (snd (agent_dispatch js k msg d)) = shared_part d"
  by (cases msg) (simp_all add: agent_dispatch_def split: option.split prod.split)

lemma shared_turn [simp]: "shared_part (agent_turn js k d) = shared_part d"
proof -
  have "shared_part d' = shared_part e" if "agent_dispatch js k msg e = (r, d')" for msg e r d'
    using shared_dispatch [of js k msg e] that by simp
  then show ?thesis
    by (auto simp: agent_turn_def split: option.split phase.split prod.split sum.split)
qed

text \<open>Two daemons in which a user owns the same stay so under the user's own operations.\<close>

definition same_own :: "Uid \<Rightarrow> daemon \<Rightarrow> daemon \<Rightarrow> bool" where
  "same_own u d e \<longleftrightarrow> own_part u d = own_part u e"

lemma same_ownD:
  "same_own u d e \<Longrightarrow> tr_private (dc_tenants d) u = tr_private (dc_tenants e) u"
  "same_own u d e \<Longrightarrow> dc_agents d u = dc_agents e u"
  "same_own u d e \<Longrightarrow> dc_conns d (u, n) = dc_conns e (u, n)"
  "same_own u d e \<Longrightarrow> owned (Some u) (d_tunnels d) = owned (Some u) (d_tunnels e)"
  by (auto simp: same_own_def own_part_def dest: fun_cong)

lemma same_on_conn: "same_own u d e \<Longrightarrow> same_own u (on_conn (u, n) f d) (on_conn (u, n) f e)"
  by (auto simp: same_own_def own_part_def on_conn_def fun_eq_iff)

lemma same_register: "same_own u d e \<Longrightarrow> same_own u (register_agent (u, n) d) (register_agent (u, n) e)"
  by (simp add: same_own_def own_part_def register_agent_def)

lemma same_snapshot: "same_own u d e \<Longrightarrow> same_own u (agent_snapshot (u, n) m d) (agent_snapshot (u, n) m e)"
  by (simp add: same_own_def own_part_def agent_snapshot_def tenant_defs)

lemma same_active: "same_own u d e \<Longrightarrow> active (u, n) d = active (u, n) e"
  by (cases "dc_agents e u") (simp_all add: active_def same_ownD(2) [of u d e] same_ownD(3) [of u d e])

lemma owned_removed: "owned (Some u) (remove_owner u tm) = Map.empty"
  by (auto simp: owned_def remove_owner_def fun_eq_iff split: option.splits)

lemma same_cleanup: "same_own u d e \<Longrightarrow> same_own u (agent_cleanup (u, n) d) (agent_cleanup (u, n) e)"
  using same_on_conn [of u d e n "\<lambda>c. c\<lparr>ag_phase := Ended\<rparr>"] same_active [of u d e n]
  by (auto simp: agent_cleanup_def Let_def same_own_def own_part_def tenant_defs owned_removed)

lemma same_dispatch:
  assumes "same_own u d e"
  shows "fst (agent_dispatch js (u, n) msg d) = fst (agent_dispatch js (u, n) msg e)
    \<and> same_own u (snd (agent_dispatch js (u, n) msg d)) (snd (agent_dispatch js (u, n) msg e))"
  using assms same_ownD(3) [OF assms, of n]
  by (cases msg) (auto simp: agent_dispatch_def same_snapshot same_on_conn split: option.split prod.split)

lemma same_turn:
  assumes "same_own u d e"
  shows "same_own u (agent_turn js (u, n) d) (agent_turn js (u, n) e)"
proof -
  have c: "dc_conns d (u, n) = dc_conns e (u, n)" by (rule same_ownD(3) [OF assms])
  have disp: "same_own u (case agent_dispatch js (u, n) msg d' of (Inr _, x) \<Rightarrow> x | (Inl _, x) \<Rightarrow> agent_cleanup (u, n) x)
      (case agent_dispatch js (u, n) msg e' of (Inr _, x) \<Rightarrow> x | (Inl _, x) \<Rightarrow> agent_cleanup (u, n) x)"
    if "same_own u d' e'" for msg d' e'
    using same_dispatch [OF that, of js n msg] same_cleanup
    by (cases "agent_dispatch js (u, n) msg d'"; cases "agent_dispatch js (u, n) msg e'") (auto split: sum.split)
  show ?thesis
  proof (cases "dc_conns e (u, n)")
    case (Some a)
    show ?thesis
    proof (cases "ag_phase a")
      case Hello
      with assms c Some show ?thesis
        by (simp add: agent_turn_def same_on_conn same_register split: prod.split sum.split)
    next
      case Reading
      obtain r io where r: "read_message js (ag_io a) = (r, io)" by force
      show ?thesis
      proof (cases r)
        case (Inl x)
        with assms c Some Reading r show ?thesis by (simp add: agent_turn_def same_on_conn same_cleanup)
      next
        case (Inr msg)
        with disp [OF same_on_conn [OF assms, of n "\<lambda>a. a\<lparr>ag_io := io\<rparr>"], of msg] c Some Reading r show ?thesis
          by (simp add: agent_turn_def)
      qed
    qed (use assms c Some in \<open>simp add: agent_turn_def\<close>)
  qed (use assms c in \<open>simp add: agent_turn_def\<close>)
qed

lemma same_accept: "same_own u d e \<Longrightarrow> same_own u (agent_accept (u, n) io d) (agent_accept (u, n) io e)"
  using same_ownD(3) [of u d e n] by (auto simp: same_own_def own_part_def agent_accept_def fun_eq_iff)

lemma other_accept: "fst k \<noteq> u \<Longrightarrow> own_part u (agent_accept k io d) = own_part u d"
  by (cases k) (auto simp: own_part_def agent_accept_def)

lemma shared_accept [simp]: "shared_part (agent_accept k io d) = shared_part d"
  by (simp add: shared_part_def agent_accept_def)

text \<open>The daemon is a tenant store in the sense of the contract of tenant.rs.\<close>

interpretation hubd: tenant_store "daemon_step js" event_about own_part shared_part for js
proof unfold_locales
  fix u ev and d e :: daemon
  assume a: "event_about u ev" "own_part u d = own_part u e" "shared_part d = shared_part e"
  then have s: "same_own u d e" by (simp add: same_own_def)
  show "own_part u (daemon_step js ev d) = own_part u (daemon_step js ev e) \<and> shared_part (daemon_step js ev d) = shared_part (daemon_step js ev e)"
  proof (cases ev)
    case (DAccept k io)
    with a(1) obtain n where "k = (u, n)" by (cases k) auto
    with DAccept a(3) same_accept [OF s] show ?thesis by (simp add: same_own_def)
  next
    case (DTurn k)
    with a(1) obtain n where "k = (u, n)" by (cases k) auto
    with DTurn a(3) same_turn [OF s] show ?thesis by (simp add: same_own_def)
  next
    case (DShared r)
    with a s show ?thesis
      by (auto simp: poll_shared_once_def shared_part_def own_part_def tenant_defs split: option.split)
  qed
next
  fix u ev and d :: daemon
  assume "\<not> event_about u ev"
  then show "own_part u (daemon_step js ev d) = own_part u d \<and> shared_part (daemon_step js ev d) = shared_part d"
    by (cases ev) (simp_all add: other_accept other_turn)
qed

section \<open>Bookkeeping\<close>

text \<open>Private devices come from an agent: a connection of that user exists, and each of the devices
  carries a route id and no pair code.\<close>

definition private_ok :: "daemon \<Rightarrow> bool" where
  "private_ok d \<longleftrightarrow> (\<forall>u p. tr_private (dc_tenants d) u = Some p \<longrightarrow> (\<exists>n. dc_conns d (u, n) \<noteq> None) \<and> agent_devices_ok p)"

text \<open>A connection in a phase; a live one has not ended.\<close>

definition in_phase :: "phase \<Rightarrow> ckey \<Rightarrow> 'x dcore_scheme \<Rightarrow> bool" where
  "in_phase p k d \<longleftrightarrow> map_option ag_phase (dc_conns d k) = Some p"

definition live :: "ckey \<Rightarrow> 'x dcore_scheme \<Rightarrow> bool" where
  "live k d \<longleftrightarrow> (\<exists>c. dc_conns d k = Some c \<and> ag_phase c \<noteq> Ended)"

text \<open>The parts of the state the operations of a connection touch.\<close>

lemma on_conn_sel [simp]:
  "dc_tenants (on_conn k f d) = dc_tenants d" "dc_agents (on_conn k f d) = dc_agents d"
  "dc_conns (on_conn k f d) = (dc_conns d)(k := map_option f (dc_conns d k))"
  by (simp_all add: on_conn_def)

lemma register_sel [simp]:
  "dc_tenants (register_agent k d) = dc_tenants d" "dc_agents (register_agent k d) = (dc_agents d)(fst k \<mapsto> snd k)"
  "dc_conns (register_agent k d) = dc_conns d"
  by (simp_all add: register_agent_def)

lemma snapshot_sel [simp]:
  "tr_private (dc_tenants (agent_snapshot k m d)) = (tr_private (dc_tenants d))(fst k \<mapsto> sanitized_to_snapshot (ds_devices m))"
  "dc_agents (agent_snapshot k m d) = dc_agents d" "dc_conns (agent_snapshot k m d) = dc_conns d"
  by (simp_all add: agent_snapshot_def tenant_defs)

lemma cleanup_sel:
  "tr_private (dc_tenants (agent_cleanup k d)) = (if active k d then (tr_private (dc_tenants d))(fst k := None) else tr_private (dc_tenants d))"
  "dc_agents (agent_cleanup k d) = (if active k d then (dc_agents d)(fst k := None) else dc_agents d)"
  "dc_conns (agent_cleanup k d) = (dc_conns d)(k := map_option (\<lambda>c. c\<lparr>ag_phase := Ended\<rparr>) (dc_conns d k))"
  by (auto simp: agent_cleanup_def Let_def tenant_defs)

text \<open>What one message changes: the private devices of the user, or one connection object.\<close>

lemma dispatch_cases:
  obtains (snap) m where "agent_dispatch js k msg d = (Inr (), agent_snapshot k m d)"
    | (conn) r f where "agent_dispatch js k msg d = (r, on_conn k f d)" "\<And>c. ag_phase (f c) = ag_phase c" "\<And>c. ag_token (f c) = ag_token c"
    | (none) "agent_dispatch js k msg d = (Inr (), d)"
proof (cases msg)
  case (MPing)
  show thesis
  proof (cases "dc_conns d k")
    case (Some c)
    obtain r io where "write_message js MPong (ag_io c) = (r, io)" by force
    with MPing Some show thesis by (intro conn [of r "\<lambda>a. a\<lparr>ag_io := io\<rparr>"]) (simp_all add: agent_dispatch_def)
  qed (use MPing none in \<open>simp add: agent_dispatch_def\<close>)
next
  case (MOpenResult r)
  then show thesis
    by (intro conn [of "Inr ()" "resolve (or_stream_id r) \<lparr>oo_ok = or_ok r, oo_fail_reason = or_fail_reason r\<rparr>"])
      (auto simp: agent_dispatch_def resolve_def)
next
  case (MStreamData i data)
  then show thesis by (intro conn [of "Inr ()" "queue_data i data"]) (auto simp: agent_dispatch_def queue_data_def)
next
  case (MStreamClose c)
  then show thesis
    by (intro conn [of "Inr ()" "\<lambda>a. resolve (sc_stream_id c) \<lparr>oo_ok = False, oo_fail_reason = Some (sc_reason c)\<rparr>
             (a\<lparr>ag_senders := ag_senders a - {sc_stream_id c}\<rparr>)"]) (auto simp: agent_dispatch_def resolve_def)
qed (use snap none in \<open>auto simp: agent_dispatch_def\<close>)

text \<open>A turn of a connection, as one of its few effects.\<close>

lemma turn_cases:
  obtains (idle) "agent_turn js k d = d"
    | (refused) io where "in_phase Hello k d" "agent_turn js k d = on_conn k (\<lambda>a. a\<lparr>ag_io := io, ag_phase := Ended\<rparr>) d"
    | (registered) io tok where "in_phase Hello k d" "agent_turn js k d = register_agent k (on_conn k (\<lambda>a. a\<lparr>ag_io := io, ag_phase := Reading, ag_token := tok\<rparr>) d)"
    | (snapshot) io m where "in_phase Reading k d" "agent_turn js k d = agent_snapshot k m (on_conn k (\<lambda>a. a\<lparr>ag_io := io\<rparr>) d)"
    | (changed) f where "in_phase Reading k d" "agent_turn js k d = on_conn k f d" "\<And>c. ag_phase (f c) = ag_phase c" "\<And>c. ag_token (f c) = ag_token c"
    | (ended) f where "in_phase Reading k d" "agent_turn js k d = agent_cleanup k (on_conn k f d)" "\<And>c. ag_phase (f c) = ag_phase c" "\<And>c. ag_token (f c) = ag_token c"
proof (cases "dc_conns d k")
  case (Some c)
  show thesis
  proof (cases "ag_phase c")
    case Hello
    with Some have l: "in_phase Hello k d" by (simp add: in_phase_def)
    obtain r io where r: "agent_hello js (ag_io c) = (r, io)" by force
    show thesis
    proof (cases r)
      case (Inl e)
      with Some Hello r l show thesis by (intro refused) (simp_all add: agent_turn_def)
    next
      case (Inr reg)
      with Some Hello r l show thesis by (intro registered) (simp_all add: agent_turn_def)
    qed
  next
    case Reading
    with Some have l: "in_phase Reading k d" by (simp add: in_phase_def)
    obtain r io where r: "read_message js (ag_io c) = (r, io)" by force
    let ?f = "\<lambda>a. a\<lparr>ag_io := io\<rparr>"
    show thesis
    proof (cases r)
      case (Inl e)
      with Some Reading r l show thesis by (intro ended [of ?f]) (simp_all add: agent_turn_def)
    next
      case (Inr msg)
      then have t: "agent_turn js k d = (case agent_dispatch js k msg (on_conn k ?f d) of
          (Inr _, d') \<Rightarrow> d' | (Inl _, d') \<Rightarrow> agent_cleanup k d')"
        using Some Reading r by (simp add: agent_turn_def)
      show thesis
      proof (cases rule: dispatch_cases [of js k msg "on_conn k ?f d"])
        case (snap m)
        with t l show thesis by (intro snapshot) simp_all
      next
        case (conn r2 g)
        have two: "on_conn k g (on_conn k ?f d) = on_conn k (g \<circ> ?f) d" by (simp add: on_conn_def option.map_comp)
        show thesis
        proof (cases r2)
          case (Inl e)
          with conn t two l show thesis by (intro ended [of "g \<circ> ?f"]) simp_all
        next
          case (Inr x)
          with conn t two l show thesis by (intro changed [of "g \<circ> ?f"]) simp_all
        qed
      next
        case none
        with t l show thesis by (intro changed [of ?f]) simp_all
      qed
    qed
  qed (use idle Some in \<open>simp add: agent_turn_def\<close>)
qed (use idle in \<open>simp add: agent_turn_def\<close>)

lemma private_ok_keep:
  assumes "private_ok d" "\<And>k. dc_conns d k \<noteq> None \<Longrightarrow> dc_conns e k \<noteq> None"
    and "\<And>u p. tr_private (dc_tenants e) u = Some p \<Longrightarrow>
      tr_private (dc_tenants d) u = Some p \<or> (\<exists>n. dc_conns d (u, n) \<noteq> None) \<and> agent_devices_ok p"
  shows "private_ok e"
  unfolding private_ok_def
proof (intro allI impI)
  fix u p
  assume "tr_private (dc_tenants e) u = Some p"
  with assms(3) [of u p] assms(1) have "(\<exists>n. dc_conns d (u, n) \<noteq> None) \<and> agent_devices_ok p"
    by (auto simp: private_ok_def)
  with assms(2) show "(\<exists>n. dc_conns e (u, n) \<noteq> None) \<and> agent_devices_ok p" by blast
qed

lemma private_ok_turn:
  assumes "private_ok d"
  shows "private_ok (agent_turn js k d)"
proof (cases rule: turn_cases [of js k d])
  case (snapshot io m)
  then have "dc_conns d (fst k, snd k) \<noteq> None" by (auto simp: in_phase_def)
  then have "\<exists>n. dc_conns d (fst k, n) \<noteq> None" by blast
  with snapshot(2) show ?thesis
    by (intro private_ok_keep [OF assms]) (auto simp: sanitized_agent_ok split: if_splits)
next
  case (ended f)
  then show ?thesis
    by (intro private_ok_keep [OF assms]) (auto simp: cleanup_sel split: if_splits)
next
  case (refused io)
  then show ?thesis by (intro private_ok_keep [OF assms]) (auto simp del: not_None_eq)
next
  case (registered io tok)
  then show ?thesis by (intro private_ok_keep [OF assms]) (auto simp del: not_None_eq)
next
  case (changed f)
  then show ?thesis by (intro private_ok_keep [OF assms]) (auto simp del: not_None_eq)
qed (use assms in simp)

lemma private_ok_step: "private_ok d \<Longrightarrow> private_ok (daemon_step js ev d)"
proof (cases ev)
  case (DAccept k io)
  assume "private_ok d"
  then have "private_ok (agent_accept k io d)" by (rule private_ok_keep) (simp_all add: agent_accept_def split: if_splits)
  with DAccept show ?thesis by simp
next
  case (DShared r)
  assume "private_ok d"
  then have "private_ok (poll_shared_once r d)"
    by (rule private_ok_keep) (simp_all add: poll_shared_once_def tenant_defs split: option.splits)
  with DShared show ?thesis by simp
qed (simp add: private_ok_turn)

lemma private_ok_run: "private_ok d \<Longrightarrow> private_ok (fold (daemon_step js) evs d)"
  by (induction evs arbitrary: d) (simp_all add: private_ok_step)

text \<open>No overlapping connections: a user's agent connects only when none of the user's connections is live.\<close>

fun one_at_a_time :: "json \<Rightarrow> daemon_event list \<Rightarrow> daemon \<Rightarrow> bool" where
  "one_at_a_time js [] d = True"
| "one_at_a_time js (ev # evs) d \<longleftrightarrow>
     (case ev of DAccept k io \<Rightarrow> \<forall>n. \<not> live (fst k, n) d | _ \<Rightarrow> True) \<and> one_at_a_time js evs (daemon_step js ev d)"

text \<open>Then at most one connection of a user is live, it is the registered one as soon as it has registered,
  and private devices belong to a registered agent.\<close>

definition tidy :: "daemon \<Rightarrow> bool" where
  "tidy d \<longleftrightarrow>
     (\<forall>u n m. live (u, n) d \<longrightarrow> live (u, m) d \<longrightarrow> n = m)
   \<and> (\<forall>u n. in_phase Reading (u, n) d \<longleftrightarrow> dc_agents d u = Some n)
   \<and> (\<forall>u. tr_private (dc_tenants d) u \<noteq> None \<longrightarrow> dc_agents d u \<noteq> None)"

lemma live_iff: "live k d \<longleftrightarrow> in_phase Hello k d \<or> in_phase Reading k d"
proof (cases "dc_conns d k")
  case (Some c)
  then show ?thesis by (cases "ag_phase c") (simp_all add: live_def in_phase_def)
qed (simp add: live_def in_phase_def)

lemma in_phase_keep: "(\<And>c. ag_phase (f c) = ag_phase c) \<Longrightarrow> in_phase p k' (on_conn k f d) = in_phase p k' d"
  by (cases "dc_conns d k") (auto simp: in_phase_def)

lemma tidy_keep:
  assumes "tidy d" "\<And>p k. in_phase p k e = in_phase p k d" "dc_agents e = dc_agents d"
    and "\<And>u. tr_private (dc_tenants e) u \<noteq> None \<Longrightarrow> dc_agents d u \<noteq> None"
  shows "tidy e"
  using assms by (simp add: tidy_def live_iff)

lemma tidyD:
  assumes "tidy d"
  shows "live (u, n) d \<Longrightarrow> live (u, m) d \<Longrightarrow> n = m" "in_phase Reading (u, n) d \<longleftrightarrow> dc_agents d u = Some n"
    "tr_private (dc_tenants d) u \<noteq> None \<Longrightarrow> dc_agents d u \<noteq> None"
  using assms by (auto simp: tidy_def)

lemma tidy_refused:
  assumes "tidy d" "in_phase Hello k d" "\<And>c. ag_phase (f c) = Ended"
  shows "tidy (on_conn k f d)"
proof -
  have p: "in_phase p k' (on_conn k f d) = (if k' = k then p = Ended else in_phase p k' d)" for p k'
    using assms(2,3) by (auto simp: in_phase_def option.map_comp comp_def)
  have no: "\<not> in_phase Reading k d" using assms(2) by (auto simp: in_phase_def)
  have l: "live k' (on_conn k f d) \<Longrightarrow> live k' d" for k' by (simp add: live_iff p split: if_splits)
  show ?thesis unfolding tidy_def
  proof (intro conjI allI impI)
    fix u n m
    assume "live (u, n) (on_conn k f d)" "live (u, m) (on_conn k f d)"
    then show "n = m" by (intro tidyD(1) [OF assms(1)] l)
  next
    fix u n
    show "in_phase Reading (u, n) (on_conn k f d) \<longleftrightarrow> dc_agents (on_conn k f d) u = Some n"
      using no tidyD(2) [OF assms(1), of u n] by (auto simp: p simp del: on_conn_sel(3))
  qed (use tidyD(3) [OF assms(1)] in simp)
qed

lemma tidy_registered:
  assumes "tidy d" "in_phase Hello k d" "\<And>c. ag_phase (f c) = Reading"
  shows "tidy (register_agent k (on_conn k f d))" (is "tidy ?e")
proof -
  obtain u n where k: "k = (u, n)" by (cases k)
  have p: "in_phase p k' ?e = (if k' = k then p = Reading else in_phase p k' d)" for p k'
    using assms(2,3) by (auto simp: in_phase_def option.map_comp comp_def)
  have alive: "live (u, n) d" using assms(2) by (simp add: k live_iff)
  have l: "live k' ?e \<Longrightarrow> live k' d" for k' using assms(2) by (auto simp: live_iff p split: if_splits)
  show ?thesis unfolding tidy_def
  proof (intro conjI allI impI)
    fix v m m'
    assume "live (v, m) ?e" "live (v, m') ?e"
    then show "m = m'" by (intro tidyD(1) [OF assms(1)] l)
  next
    fix v m
    have "in_phase Reading (u, m) d \<Longrightarrow> m = n" by (rule tidyD(1) [OF assms(1) _ alive]) (simp add: live_iff)
    then show "in_phase Reading (v, m) ?e \<longleftrightarrow> dc_agents ?e v = Some m"
      using tidyD(2) [OF assms(1), of v m] unfolding p by (auto simp: k)
  qed (use tidyD(3) [OF assms(1)] in \<open>auto simp: k\<close>)
qed

lemma tidy_cleanup:
  assumes "tidy d" "in_phase Reading k d"
  shows "tidy (agent_cleanup k d)" (is "tidy ?e")
proof -
  obtain u n where k: "k = (u, n)" by (cases k)
  have a: "dc_agents d u = Some n" using assms k by (auto simp: tidy_def)
  then have act: "active k d" by (simp add: active_def k)
  have p: "in_phase p k' ?e = (if k' = k then p = Ended else in_phase p k' d)" for p k'
    using assms(2) by (auto simp: in_phase_def cleanup_sel option.map_comp comp_def)
  have l: "live k' ?e \<Longrightarrow> live k' d" for k' by (auto simp: live_iff p split: if_splits)
  show ?thesis unfolding tidy_def
  proof (intro conjI allI impI)
    fix v m m'
    assume "live (v, m) ?e" "live (v, m') ?e"
    then show "m = m'" by (intro tidyD(1) [OF assms(1)] l)
  next
    fix v m
    show "in_phase Reading (v, m) ?e \<longleftrightarrow> dc_agents ?e v = Some m"
      using tidyD(2) [OF assms(1), of v m] a act unfolding p cleanup_sel by (auto simp: k)
  qed (use tidyD(3) [OF assms(1)] act in \<open>auto simp: cleanup_sel k split: if_splits\<close>)
qed

lemma tidy_accept:
  assumes "tidy d" "\<forall>n. \<not> live (fst k, n) d"
  shows "tidy (agent_accept k io d)"
proof (cases "dc_conns d k")
  case None
  obtain u n where k: "k = (u, n)" by (cases k)
  have p: "in_phase p k' (agent_accept k io d) = (if k' = k then p = Hello else in_phase p k' d)" for p k'
    using None by (auto simp: in_phase_def agent_accept_def new_conn_def)
  have same: "dc_agents (agent_accept k io d) = dc_agents d" "dc_tenants (agent_accept k io d) = dc_tenants d"
    by (simp_all add: agent_accept_def)
  have idle: "\<not> in_phase Hello (u, m) d" "\<not> in_phase Reading (u, m) d" for m
    using assms(2) by (auto simp: k live_iff)
  have t: "live (v, m) d \<Longrightarrow> live (v, m') d \<Longrightarrow> m = m'" "in_phase Reading (v, m) d \<longleftrightarrow> dc_agents d v = Some m"
    "tr_private (dc_tenants d) v \<noteq> None \<Longrightarrow> dc_agents d v \<noteq> None" for v m m'
    using assms(1) by (auto simp: tidy_def)
  show ?thesis
    unfolding tidy_def live_iff p same
  proof (intro conjI allI impI)
    fix v m m'
    assume "(if (v, m) = k then Hello = Hello else in_phase Hello (v, m) d) \<or> (if (v, m) = k then Reading = Hello else in_phase Reading (v, m) d)"
      and "(if (v, m') = k then Hello = Hello else in_phase Hello (v, m') d) \<or> (if (v, m') = k then Reading = Hello else in_phase Reading (v, m') d)"
    then show "m = m'" using idle t(1) [of v m m'] by (auto simp: k live_iff split: if_splits)
  next
    fix v m
    show "(if (v, m) = k then Reading = Hello else in_phase Reading (v, m) d) = (dc_agents d v = Some m)"
      using t(2) [of v m] idle(2) [of m] by (auto simp: k)
  qed (use t(3) in blast)
qed (use assms in \<open>simp add: agent_accept_def\<close>)

lemma tidy_turn:
  assumes "tidy d"
  shows "tidy (agent_turn js k d)"
proof (cases rule: turn_cases [of js k d])
  case idle
  with assms show ?thesis by simp
next
  case (refused io)
  show ?thesis unfolding refused(2) by (rule tidy_refused [OF assms refused(1)]) simp
next
  case (registered io tok)
  show ?thesis unfolding registered(2) by (rule tidy_registered [OF assms registered(1)]) simp
next
  case (snapshot io m)
  have "dc_agents d (fst k) \<noteq> None" using assms snapshot(1) by (cases k) (auto simp: tidy_def)
  then show ?thesis
    unfolding snapshot(2) using assms
    by (intro tidy_keep [OF assms]) (auto simp: in_phase_def option.map_comp comp_def tidy_def split: if_splits)
next
  case (changed f)
  show ?thesis
    unfolding changed(2) using assms changed(3)
    by (intro tidy_keep [OF assms]) (auto simp: in_phase_keep tidy_def)
next
  case (ended f)
  have "tidy (on_conn k f d)"
    using assms ended(3) by (intro tidy_keep [OF assms]) (auto simp: in_phase_keep tidy_def)
  moreover have "in_phase Reading k (on_conn k f d)" using ended(1,3) by (simp add: in_phase_keep)
  ultimately show ?thesis unfolding ended(2) by (rule tidy_cleanup)
qed

lemma tidy_run: "tidy d \<Longrightarrow> one_at_a_time js evs d \<Longrightarrow> tidy (fold (daemon_step js) evs d)"
proof (induction evs arbitrary: d)
  case (Cons ev evs)
  have "tidy (daemon_step js ev d)"
  proof (cases ev)
    case (DAccept k io)
    with Cons.prems show ?thesis by (simp add: tidy_accept)
  next
    case (DTurn k)
    with Cons.prems show ?thesis by (simp add: tidy_turn)
  next
    case (DShared r)
    with Cons.prems(1) show ?thesis
      by (auto simp: poll_shared_once_def tenant_defs tidy_def live_iff in_phase_def split: option.split)
  qed
  with Cons show ?case by simp
qed simp

text \<open>The effect of the next message, for the messages an agent sends first.\<close>

lemma turn_register:
  assumes "dc_conns d k = Some c" "ag_phase c = Hello" "rx (ag_io c) = ipc_frame js (MRegisterAgent reg) @ r"
    and "fits_ipc js (MRegisterAgent reg)" "ra_version reg = PROTOCOL_VERSION"
  shows "agent_turn js k d =
    register_agent k (on_conn k (\<lambda>a. a\<lparr>ag_io := (ag_io c)\<lparr>rx := r\<rparr>, ag_phase := Reading, ag_token := ra_instance_token reg\<rparr>) d)"
  using assms(1,2,5) read_message_frame [OF assms(4,3)]
  by (simp add: agent_turn_def agent_hello_def bind_a_def)

lemma turn_snapshot:
  assumes "dc_conns d k = Some c" "ag_phase c = Reading" "rx (ag_io c) = ipc_frame js (MDeviceSnapshot m) @ r"
    and "fits_ipc js (MDeviceSnapshot m)"
  shows "agent_turn js k d = agent_snapshot k m (on_conn k (\<lambda>a. a\<lparr>ag_io := (ag_io c)\<lparr>rx := r\<rparr>\<rparr>) d)"
  using assms(1,2) read_message_frame [OF assms(4,3)]
  by (simp add: agent_turn_def agent_dispatch_def)

lemma turn_eof:
  assumes "dc_conns d k = Some c" "ag_phase c = Reading" "rx (ag_io c) = []"
  shows "agent_turn js k d = agent_cleanup k (on_conn k (\<lambda>a. a\<lparr>ag_io := snd (read_message js (ag_io c))\<rparr>) d)"
proof -
  have "isl (fst (read_message js (ag_io c)))"
    using assms(3) by (simp add: read_message_def bind_a_def read_exact_def)
  then obtain e io where "read_message js (ag_io c) = (Inl e, io)" by (cases "read_message js (ag_io c)") (auto simp: isl_def)
  with assms(1,2) show ?thesis by (simp add: agent_turn_def)
qed

section \<open>Properties\<close>


lemma private_ok_init: "private_ok (daemon_init loc version bind)"
  by (simp add: private_ok_def daemon_init_def TenantRegistry_new_def)

lemma tidy_init: "tidy (daemon_init loc version bind)"
  by (simp add: tidy_def daemon_init_def TenantRegistry_new_def live_def in_phase_def)

text \<open>C2: Isolation between users. Whatever bytes the agents of other users send, whenever they
  connect, disconnect or are replaced, the devices a user sees, the agent that serves the user and the
  tunnels the user owns are those of a run in which only the user's own agents and the shared poller
  took part.\<close>

theorem daemon_isolation:
  "let d1 = fold (daemon_step js) evs d; d2 = fold (daemon_step js) (filter (event_about u) evs) d
   in snapshot_for u (dc_tenants d1) = snapshot_for u (dc_tenants d2)
      \<and> dc_agents d1 u = dc_agents d2 u
      \<and> owned (Some u) (d_tunnels d1) = owned (Some u) (d_tunnels d2)"
proof -
  have same: "own_part u (fold (daemon_step js) evs d) = own_part u (fold (daemon_step js) (filter (event_about u) evs) d)
    \<and> shared_part (fold (daemon_step js) evs d) = shared_part (fold (daemon_step js) (filter (event_about u) evs) d)"
    by (rule hubd.noninterference) (rule refl)+
  from same have "snapshot_for u (dc_tenants (fold (daemon_step js) evs d))
      = snapshot_for u (dc_tenants (fold (daemon_step js) (filter (event_about u) evs) d))"
    by (intro snapshot_for_cong) (simp_all add: own_part_def shared_part_def)
  with same show ?thesis by (simp add: own_part_def Let_def)
qed

text \<open>C16: Where private devices come from. After any run from the start, a user with private devices
  has had a control connection that the kernel attested to be that user's, and every private device
  carries a route id, no pair code and a null address.\<close>

theorem daemon_private_provenance:
  "\<forall>p. tr_private (dc_tenants (fold (daemon_step js) evs (daemon_init loc version bind))) u = Some p \<longrightarrow>
     (\<exists>n. dc_conns (fold (daemon_step js) evs (daemon_init loc version bind)) (u, n) \<noteq> None) \<and> agent_devices_ok p"
  using private_ok_run [OF private_ok_init, of js evs loc version bind] by (simp add: private_ok_def)

text \<open>C14: Disconnection removes. When a user's agent reconnects only after its previous connection has ended,
  the user has private devices only while one of the user's agents is registered and connected.\<close>

theorem daemon_cleanup:
  assumes "one_at_a_time js evs (daemon_init loc version bind)"
    and "has_agent u (dc_tenants (fold (daemon_step js) evs (daemon_init loc version bind)))"
  shows "\<exists>n. dc_agents (fold (daemon_step js) evs (daemon_init loc version bind)) u = Some n
    \<and> in_phase Reading (u, n) (fold (daemon_step js) evs (daemon_init loc version bind))"
proof -
  let ?d = "fold (daemon_step js) evs (daemon_init loc version bind)"
  have t: "tidy ?d" by (rule tidy_run [OF tidy_init assms(1)])
  from assms(2) tidyD(3) [OF t] obtain n where "dc_agents ?d u = Some n" by (auto simp: has_agent_def)
  with tidyD(2) [OF t, of u n] show ?thesis by auto
qed

text \<open>A codec for the witnesses: a registration is its token, a snapshot the serial of its one device.\<close>

definition run_reg :: "string \<Rightarrow> RegisterAgent" where
  "run_reg t = \<lparr>ra_version = PROTOCOL_VERSION, ra_capabilities = [], ra_instance_token = t\<rparr>"

definition run_snap :: "string \<Rightarrow> DeviceSnapshotMsg" where
  "run_snap t = \<lparr>ds_generation = 1, ds_devices = [\<lparr>sd_public_serial = t, sd_upstream_serial = t, sd_state = ''device'',
       sd_extras = [], sd_backend_name = ''site'', sd_route_id = ''r''\<rparr>]\<rparr>"

definition run_json :: json where
  "run_json = \<lparr>j_register = \<lambda>m. Inr (ra_instance_token m), j_snapshot = \<lambda>m. Inr (concat (map sd_public_serial (ds_devices m))),
     j_open = \<lambda>_. Inl [], j_result = \<lambda>_. Inl [], j_close = \<lambda>_. Inl [],
     p_register = \<lambda>b. Inr (run_reg b), p_snapshot = \<lambda>b. Inr (run_snap b),
     p_open = \<lambda>_. Inl [], p_result = \<lambda>_. Inl [], p_close = \<lambda>_. Inl []\<rparr>"

lemma run_fits:
  "length t < 100 \<Longrightarrow> fits_ipc run_json (MRegisterAgent (run_reg t))"
  "length t < 100 \<Longrightarrow> fits_ipc run_json (MDeviceSnapshot (run_snap t))"
  by (simp_all add: fits_ipc_def encode_message_def decode_message_def to_json_def from_json_def run_json_def
      run_reg_def run_snap_def MAX_FRAME_def)

definition agent_conn :: "json \<Rightarrow> RegisterAgent \<Rightarrow> IpcMessage list \<Rightarrow> conn" where
  "agent_conn js reg ms = open_conn (ipc_frame js (MRegisterAgent reg) @ concat (map (ipc_frame js) ms))"

definition run_events :: "daemon_event list" where
  "run_events = [DAccept (7, 0) (agent_conn run_json (run_reg ''a'') [MDeviceSnapshot (run_snap ''X'')]), DTurn (7, 0), DTurn (7, 0)]"

lemma accept_sel:
  "dc_conns d k = None \<Longrightarrow> dc_conns (agent_accept k io d) = (dc_conns d)(k \<mapsto> new_conn io)"
  "dc_agents (agent_accept k io d) = dc_agents d" "dc_tenants (agent_accept k io d) = dc_tenants d"
  by (simp_all add: agent_accept_def)

lemma init_sel [simp]:
  "dc_conns (daemon_init loc version bind) = Map.empty" "dc_agents (daemon_init loc version bind) = Map.empty"
  "dc_tenants (daemon_init loc version bind) = TenantRegistry_new"
  by (simp_all add: daemon_init_def)

lemma agent_conn_rx [simp]:
  "rx (agent_conn js reg ms) = ipc_frame js (MRegisterAgent reg) @ concat (map (ipc_frame js) ms)"
  by (simp add: agent_conn_def open_conn_def)

lemma new_conn_sel [simp]: "ag_phase (new_conn io) = Hello" "ag_io (new_conn io) = io"
  by (simp_all add: new_conn_def)

text \<open>A whole connection of an agent: registration, one snapshot.\<close>

lemma connect_and_publish:
  assumes "fits_ipc js (MRegisterAgent reg)" "ra_version reg = PROTOCOL_VERSION" "fits_ipc js (MDeviceSnapshot m)"
    and "dc_conns d (u, n) = None"
  shows "fold (daemon_step js) [DAccept (u, n) (agent_conn js reg [MDeviceSnapshot m]), DTurn (u, n), DTurn (u, n)] d
    = agent_snapshot (u, n) m (register_agent (u, n)
        (d\<lparr>dc_conns := (dc_conns d)((u, n) \<mapsto> (new_conn ((agent_conn js reg [MDeviceSnapshot m])\<lparr>rx := []\<rparr>))
          \<lparr>ag_phase := Reading, ag_token := ra_instance_token reg\<rparr>)\<rparr>))"
proof -
  let ?io = "agent_conn js reg [MDeviceSnapshot m]"
  let ?d1 = "agent_accept (u, n) ?io d"
  have 1: "dc_conns ?d1 (u, n) = Some (new_conn ?io)" using assms(4) by (simp add: accept_sel)
  have 2: "agent_turn js (u, n) ?d1 = register_agent (u, n) (on_conn (u, n)
      (\<lambda>a. a\<lparr>ag_io := ?io\<lparr>rx := ipc_frame js (MDeviceSnapshot m)\<rparr>, ag_phase := Reading, ag_token := ra_instance_token reg\<rparr>) ?d1)"
    using turn_register [OF 1 _ _ assms(1,2), of "ipc_frame js (MDeviceSnapshot m)"] by simp
  let ?c = "(new_conn ?io)\<lparr>ag_io := ?io\<lparr>rx := ipc_frame js (MDeviceSnapshot m)\<rparr>, ag_phase := Reading, ag_token := ra_instance_token reg\<rparr>"
  have 3: "dc_conns (agent_turn js (u, n) ?d1) (u, n) = Some ?c" using 1 2 by simp
  have "fold (daemon_step js) [DAccept (u, n) ?io, DTurn (u, n), DTurn (u, n)] d = agent_turn js (u, n) (agent_turn js (u, n) ?d1)"
    by simp
  also have "\<dots> = agent_snapshot (u, n) m (on_conn (u, n) (\<lambda>a. a\<lparr>ag_io := (ag_io ?c)\<lparr>rx := []\<rparr>\<rparr>) (agent_turn js (u, n) ?d1))"
    using turn_snapshot [OF 3 _ _ assms(3), of "[]"] by simp
  finally show ?thesis
    using assms(4) unfolding 2 by (simp add: on_conn_def register_agent_def agent_snapshot_def agent_accept_def new_conn_def)
qed

lemmas connect_run = connect_and_publish [where js = run_json, OF run_fits(1) _ run_fits(2)]

lemma run_version: "ra_version (run_reg t) = PROTOCOL_VERSION"
  by (simp add: run_reg_def)

lemma run_end:
  "fold (daemon_step run_json) run_events (daemon_init loc version bind) =
      agent_snapshot (7, 0) (run_snap ''X'') (register_agent (7, 0) ((daemon_init loc version bind)\<lparr>dc_conns :=
        [(7, 0) \<mapsto> (new_conn ((agent_conn run_json (run_reg ''a'') [MDeviceSnapshot (run_snap ''X'')])\<lparr>rx := []\<rparr>))
          \<lparr>ag_phase := Reading, ag_token := ra_instance_token (run_reg ''a'')\<rparr>]\<rparr>))"
  unfolding run_events_def by (subst connect_run) (simp_all add: run_version)

theorem daemon_private_provenance_witness:
  "agent_devices_ok (sanitized_to_snapshot (ds_devices (run_snap ''X'')))"
proof -
  have "tr_private (dc_tenants (fold (daemon_step run_json) run_events (daemon_init None 41 (\<lambda>_ p. Inr p)))) 7
      = Some (sanitized_to_snapshot (ds_devices (run_snap ''X'')))"
    by (simp only: run_end snapshot_sel) simp
  with daemon_private_provenance [of run_json run_events None 41 "\<lambda>_ p. Inr p" 7] show ?thesis by simp
qed

theorem daemon_cleanup_witness:
  "\<exists>n. dc_agents (fold (daemon_step run_json) run_events (daemon_init None 41 (\<lambda>_ p. Inr p))) 7 = Some n
    \<and> in_phase Reading (7, n) (fold (daemon_step run_json) run_events (daemon_init None 41 (\<lambda>_ p. Inr p)))"
proof (rule daemon_cleanup)
  show "one_at_a_time run_json run_events (daemon_init None 41 (\<lambda>_ p. Inr p))"
    by (simp add: run_events_def live_def)
  show "has_agent 7 (dc_tenants (fold (daemon_step run_json) run_events (daemon_init None 41 (\<lambda>_ p. Inr p))))"
    by (simp only: has_agent_def run_end snapshot_sel) simp
qed
text \<open>C15: A replaced agent can leave its devices behind. When a second agent of the user registers while the
  first connection is still open, and the second one ends first, a snapshot the first one sends afterwards is
  accepted and stays when the first connection ends: the user then has private devices and no connection.\<close>

theorem daemon_ghost_devices:
  assumes "fits_ipc js (MRegisterAgent r1)" "ra_version r1 = PROTOCOL_VERSION"
    and "fits_ipc js (MRegisterAgent r2)" "ra_version r2 = PROTOCOL_VERSION"
    and "fits_ipc js (MDeviceSnapshot m)"
  shows "let d = fold (daemon_step js) [DAccept (u, 0) (agent_conn js r1 [MDeviceSnapshot m]), DTurn (u, 0),
      DAccept (u, 1) (agent_conn js r2 []), DTurn (u, 1), DTurn (u, 1), DTurn (u, 0), DTurn (u, 0)] (daemon_init loc version bind)
    in dc_agents d u = None \<and> (\<forall>n. \<not> live (u, n) d)
       \<and> tr_private (dc_tenants d) u = Some (sanitized_to_snapshot (ds_devices m))"
proof -
  let ?d0 = "daemon_init loc version bind"
  let ?io1 = "agent_conn js r1 [MDeviceSnapshot m]"
  let ?io2 = "agent_conn js r2 []"
  define d1 where "d1 = agent_accept (u, 0) ?io1 ?d0"
  define d2 where "d2 = agent_turn js (u, 0) d1"
  define d3 where "d3 = agent_accept (u, 1) ?io2 d2"
  define d4 where "d4 = agent_turn js (u, 1) d3"
  define d5 where "d5 = agent_turn js (u, 1) d4"
  define d6 where "d6 = agent_turn js (u, 0) d5"
  define d7 where "d7 = agent_turn js (u, 0) d6"
  have c1: "dc_conns d1 = [(u, 0) \<mapsto> new_conn ?io1]" by (simp add: d1_def accept_sel)
  have t2: "d2 = register_agent (u, 0) (on_conn (u, 0) (\<lambda>a. a\<lparr>ag_io := ?io1\<lparr>rx := ipc_frame js (MDeviceSnapshot m)\<rparr>,
      ag_phase := Reading, ag_token := ra_instance_token r1\<rparr>) d1)"
    unfolding d2_def using turn_register [of d1 "(u, 0)", OF _ _ _ assms(1,2), of _ "ipc_frame js (MDeviceSnapshot m)"] c1 by simp
  have c3: "dc_conns d3 = (dc_conns d2)((u, 1) \<mapsto> new_conn ?io2)"
    unfolding d3_def by (rule accept_sel) (simp add: t2 c1)
  have t4: "d4 = register_agent (u, 1) (on_conn (u, 1) (\<lambda>a. a\<lparr>ag_io := ?io2\<lparr>rx := []\<rparr>,
      ag_phase := Reading, ag_token := ra_instance_token r2\<rparr>) d3)"
    unfolding d4_def using turn_register [of d3 "(u, 1)", OF _ _ _ assms(3,4), of _ "[]"] c3 by simp
  obtain io5 where t5: "d5 = agent_cleanup (u, 1) (on_conn (u, 1) (\<lambda>a. a\<lparr>ag_io := io5\<rparr>) d4)"
    unfolding d5_def using turn_eof [of d4 "(u, 1)" _ js] c3 by (auto simp: t4)
  have c5: "dc_conns d5 (u, 0) = dc_conns d2 (u, 0)" by (simp add: t5 cleanup_sel t4 c3)
  have a5: "dc_agents d5 u = None" by (simp add: t5 cleanup_sel active_def t4 c3)
  have t6: "d6 = agent_snapshot (u, 0) m (on_conn (u, 0) (\<lambda>a. a\<lparr>ag_io := ?io1\<lparr>rx := []\<rparr>\<rparr>) d5)"
    unfolding d6_def using turn_snapshot [of d5 "(u, 0)", OF _ _ _ assms(5), of _ "[]"] c5 by (simp add: t2 c1)
  obtain io7 where t7: "d7 = agent_cleanup (u, 0) (on_conn (u, 0) (\<lambda>a. a\<lparr>ag_io := io7\<rparr>) d6)"
    unfolding d7_def using turn_eof [of d6 "(u, 0)" _ js] c5 by (auto simp: t6 t2 c1)
  have a6: "dc_agents (on_conn (u, 0) (\<lambda>a. a\<lparr>ag_io := io7\<rparr>) d6) u = None" by (simp add: t6 a5)
  have na: "\<not> active (u, 0) (on_conn (u, 0) (\<lambda>a. a\<lparr>ag_io := io7\<rparr>) d6)" unfolding active_def by (simp only: fst_conv a6 option.case) simp
  have "dc_agents d7 u = None" unfolding t7 cleanup_sel using na by (simp add: t6 a5)
  moreover have "tr_private (dc_tenants d7) u = Some (sanitized_to_snapshot (ds_devices m))"
    unfolding t7 cleanup_sel using na by (simp add: t6)
  moreover have "\<not> live (u, n) d7" for n
    by (auto simp: live_def t7 t6 cleanup_sel t5 t4 c3 t2 c1 split: if_splits)
  ultimately show ?thesis by (simp add: d1_def d2_def d3_def d4_def d5_def d6_def d7_def Let_def)
qed

theorem daemon_ghost_devices_witness:
  "tr_private (dc_tenants (fold (daemon_step run_json) [DAccept (7, 0) (agent_conn run_json (run_reg ''a'') [MDeviceSnapshot (run_snap ''X'')]), DTurn (7, 0),
      DAccept (7, 1) (agent_conn run_json (run_reg ''b'') []), DTurn (7, 1), DTurn (7, 1), DTurn (7, 0), DTurn (7, 0)]
      (daemon_init None 41 (\<lambda>_ p. Inr p)))) 7 \<noteq> None"
proof -
  have f: "fits_ipc run_json (MRegisterAgent (run_reg ''a''))" "fits_ipc run_json (MRegisterAgent (run_reg ''b''))"
    "fits_ipc run_json (MDeviceSnapshot (run_snap ''X''))" by (simp_all add: run_fits)
  show ?thesis
    using daemon_ghost_devices [OF f(1) run_version f(2) run_version f(3), of 7 None 41 "\<lambda>_ p. Inr p"]
    unfolding Let_def by (metis option.distinct(1))
qed

end
