(* ===== verification/Daemon.thy ===== *)
theory Daemon
  imports Session Daemon_Agents Agent
begin

text \<open>
  The adb clients' side of the daemon, src/daemon.rs: identification of the client, the host services
  the daemon answers itself, routing of device requests to the shared server or to the user's agent, and
  the private streams through the agent. A session works on the daemon's state and the tunnel table, which
  it shares with every other task: \<open>elsewhere\<close> is what the other tasks do while the session waits. The
  relay loop is driven by the events its \<^verbatim>\<open>select!\<close> sees; the locking and the bounded channel
  behind it are in Relay.
\<close>

section \<open>State\<close>

text \<open>One private stream handed to a task of its own: the daemon's end of a loopback socket pair, and
  whose agent is to open what.\<close>

record private_task =
  pt_server :: conn
  pt_uid :: Uid
  pt_route :: string
  pt_service :: string

text \<open>The \<open>n\<close>-th loopback pair: the client end with its address (or the error of bind, connect or
  \<^verbatim>\<open>local_addr\<close>), what the listener accepts before the connection of that client, and the server end.\<close>

record loopback =
  lb_client :: "io_error + conn \<times> SocketAddr"
  lb_before :: "(io_error + conn \<times> SocketAddr) list"
  lb_server :: conn

record dsess = tsess +
  d_core :: dcore
  d_loops :: "nat \<Rightarrow> loopback"
  d_pairs :: nat
  d_spawned :: "private_task list"
  d_kills :: nat
  d_sent :: "(ckey \<times> IpcMessage) list"

type_synonym others = "dcore \<times> TunnelManager \<Rightarrow> dcore \<times> TunnelManager"

definition elsewhere :: "others \<Rightarrow> (dsess, unit) act" where
  "elsewhere f s = (case f (d_core s, tunnels s) of (c, tm) \<Rightarrow> (Inr (), s\<lparr>d_core := c, tunnels := tm\<rparr>))"

definition core_do :: "(dcore \<Rightarrow> dcore) \<Rightarrow> (dsess, unit) act" where
  "core_do f s = (Inr (), s\<lparr>d_core := f (d_core s)\<rparr>)"

definition user_view :: "Uid \<Rightarrow> (dsess, DeviceSnapshot) act" where
  "user_view uid s = (Inr (snapshot_for uid (dc_tenants (d_core s))), s)"

section \<open>Private streams\<close>

definition add_stream :: "u32 \<Rightarrow> AgentConn \<Rightarrow> AgentConn" where
  "add_stream i c = c\<lparr>ag_senders := insert i (ag_senders c), ag_queues := (ag_queues c)(i := []),
     ag_waiters := insert i (ag_waiters c), ag_outcomes := (ag_outcomes c)(i := None)\<rparr>"

definition drop_sender :: "u32 \<Rightarrow> AgentConn \<Rightarrow> AgentConn" where
  "drop_sender i c = c\<lparr>ag_senders := ag_senders c - {i}\<rparr>"

definition drop_stream :: "u32 \<Rightarrow> AgentConn \<Rightarrow> AgentConn" where
  "drop_stream i c = c\<lparr>ag_waiters := ag_waiters c - {i}, ag_senders := ag_senders c - {i}\<rparr>"

text \<open>\<^verbatim>\<open>write_message\<close> on the writer of a connection; \<open>d_sent\<close> is the record of what sessions wrote to agents.\<close>

definition agent_send :: "json \<Rightarrow> ckey \<Rightarrow> IpcMessage \<Rightarrow> (dsess, unit) act" where
  "agent_send js k msg s =
     (case dc_conns (d_core s) k of
        None \<Rightarrow> (Inr (), s)
      | Some c \<Rightarrow> (case write_message js msg (ag_io c) of
          (r, io) \<Rightarrow> (r, s\<lparr>d_core := on_conn k (\<lambda>a. a\<lparr>ag_io := io\<rparr>) (d_core s), d_sent := d_sent s @ [(k, msg)]\<rparr>)))"

text \<open>\<^verbatim>\<open>fetch_add\<close> on the stream counter, which wraps.\<close>

definition fresh_stream :: "(dsess, u32) act" where
  "fresh_stream s = (Inr (dc_next_stream (d_core s)), s\<lparr>d_core := (d_core s)\<lparr>dc_next_stream := dc_next_stream (d_core s) + 1\<rparr>\<rparr>)"

definition stream_outcome :: "ckey \<Rightarrow> u32 \<Rightarrow> (dsess, OpenOutcome option) act" where
  "stream_outcome k i s =
     (Inr (case dc_conns (d_core s) k of None \<Rightarrow> None | Some c \<Rightarrow> ag_outcomes c i), s)"

text \<open>\<^verbatim>\<open>client.read\<close> into the 64 KiB buffer when the kernel has \<open>n\<close> bytes ready.\<close>

definition read_some :: "nat \<Rightarrow> (conn, bytes) act" where
  "read_some n c =
     (if rx c \<noteq> [] then (Inr (take (read_size n) (rx c)), c\<lparr>rx := drop (read_size n) (rx c)\<rparr>)
      else case rx_end c of None \<Rightarrow> (Inr [], c) | Some e \<Rightarrow> (Inl e, c))"

text \<open>\<^verbatim>\<open>rx.recv()\<close>: the next chunk; \<open>None\<close> once the sender is gone and the queue is empty. An empty
  queue with a sender leaves the branch pending.\<close>

datatype received = Chunk bytes | Ended_channel | Nothing_yet

definition recv_chunk :: "ckey \<Rightarrow> u32 \<Rightarrow> (dsess, received) act" where
  "recv_chunk k i s =
     (case dc_conns (d_core s) k of
        None \<Rightarrow> (Inr Ended_channel, s)
      | Some c \<Rightarrow>
          (case ag_queues c i of
             d # q \<Rightarrow> (Inr (Chunk d), s\<lparr>d_core := on_conn k (\<lambda>a. a\<lparr>ag_queues := (ag_queues a)(i := q)\<rparr>) (d_core s)\<rparr>)
           | [] \<Rightarrow> (Inr (if i \<in> ag_senders c then Nothing_yet else Ended_channel), s)))"

datatype relay_event =
    ClientReady nat
  | AgentReady
  | Elsewhere others

text \<open>The \<^verbatim>\<open>select!\<close> loop; the result says whether it broke or still runs when the events end.\<close>

fun relay_loop :: "json \<Rightarrow> ckey \<Rightarrow> u32 \<Rightarrow> relay_event list \<Rightarrow> (dsess, bool) act" where
  "relay_loop js k i [] = ret False"
| "relay_loop js k i (ClientReady n # evs) =
     try_a (on_client (read_some n)) (\<lambda>r. case r of
       Inl err \<Rightarrow> (if is_benign err then ret True else throw err)
     | Inr data \<Rightarrow>
         (if data = [] then ret True
          else then_a (agent_send js k (MStreamData i data)) (relay_loop js k i evs)))"
| "relay_loop js k i (AgentReady # evs) =
     bind_a (recv_chunk k i) (\<lambda>d. case d of
       Chunk data \<Rightarrow> try_a (on_client (write_all data)) (\<lambda>r. case r of
           Inl err \<Rightarrow> (if is_benign err then ret True else throw err)
         | Inr _ \<Rightarrow> relay_loop js k i evs)
     | Ended_channel \<Rightarrow> ret True
     | Nothing_yet \<Rightarrow> relay_loop js k i evs)"
| "relay_loop js k i (Elsewhere f # evs) = then_a (elsewhere f) (relay_loop js k i evs)"

definition private_relay :: "json \<Rightarrow> ckey \<Rightarrow> u32 \<Rightarrow> relay_event list \<Rightarrow> (dsess, unit) act" where
  "private_relay js k i evs =
     bind_a (relay_loop js k i evs) (\<lambda>broke.
     if broke then
       then_a (core_do (on_conn k (drop_sender i)))
         (try_a (agent_send js k (MStreamClose \<lparr>sc_stream_id = i, sc_reason = ''client closed''\<rparr>)) (\<lambda>_. ret ()))
     else ret ())"

definition open_failed :: io_error where
  "open_failed = IoErr TimedOut ''open private stream failed: Err(Elapsed(()))''"

definition private_stream :: "json \<Rightarrow> ckey \<Rightarrow> string \<Rightarrow> string \<Rightarrow> others \<Rightarrow> relay_event list \<Rightarrow> (dsess, unit) act" where
  "private_stream js k route service wait evs =
     bind_a fresh_stream (\<lambda>i.
     then_a (core_do (on_conn k (add_stream i)))
    (try_a (agent_send js k (MOpenPrivateStream \<lparr>op_stream_id = i, op_route_id = route, op_service = service\<rparr>)) (\<lambda>r. case r of
       Inl err \<Rightarrow> then_a (core_do (on_conn k (drop_stream i))) (throw err)
     | Inr _ \<Rightarrow>
         then_a (elsewhere wait)
        (bind_a (stream_outcome k i) (\<lambda>out. case out of
           None \<Rightarrow> then_a (core_do (on_conn k (drop_stream i))) (throw open_failed)
         | Some outcome \<Rightarrow>
             (if \<not> oo_ok outcome then
                then_a (core_do (on_conn k (drop_sender i)))
                  (on_client (write_fail (unwrap_or ''open failed'' (oo_fail_reason outcome))))
              else private_relay js k i evs))))))"

definition forward_private :: "json \<Rightarrow> Uid \<Rightarrow> string \<Rightarrow> string \<Rightarrow> others \<Rightarrow> relay_event list \<Rightarrow> (dsess, unit) act" where
  "forward_private js uid route service wait evs s =
     (case dc_agents (d_core s) uid of
        None \<Rightarrow> on_client (write_fail ''device not found'') s
      | Some n \<Rightarrow> private_stream js (uid, n) route service wait evs s)"

text \<open>The loopback pair: connections of strangers are dropped until the expected peer arrives.\<close>

fun accept_own :: "SocketAddr \<Rightarrow> conn \<Rightarrow> (io_error + conn \<times> SocketAddr) list \<Rightarrow> io_error + conn" where
  "accept_own expected server [] = Inr server"
| "accept_own expected server (Inl e # rest) = Inl e"
| "accept_own expected server (Inr (socket, peer) # rest) =
     (if peer = expected then Inr socket else accept_own expected server rest)"

definition open_private_socket :: "Uid \<Rightarrow> string \<Rightarrow> string \<Rightarrow> (dsess, conn) act" where
  "open_private_socket uid route service s =
     (let lb = d_loops s (d_pairs s); s1 = s\<lparr>d_pairs := Suc (d_pairs s)\<rparr> in
      case lb_client lb of
        Inl e \<Rightarrow> (Inl e, s1)
      | Inr (client, expected) \<Rightarrow>
          (case accept_own expected (lb_server lb) (lb_before lb) of
             Inl e \<Rightarrow> (Inl e, s1)
           | Inr server \<Rightarrow> (Inr client, s1\<lparr>d_spawned := d_spawned s1 @
               [\<lparr>pt_server = server, pt_uid = uid, pt_route = route, pt_service = service\<rparr>]\<rparr>)))"

text \<open>A spawned task runs \<^verbatim>\<open>forward_private\<close> on its end of the pair; its error is only logged.\<close>

definition run_private_task :: "json \<Rightarrow> private_task \<Rightarrow> others \<Rightarrow> relay_event list \<Rightarrow> (dsess, unit) act" where
  "run_private_task js t wait evs s =
     forward_private js (pt_uid t) (pt_route t) (pt_service t) wait evs (s\<lparr>cl := pt_server t\<rparr>)"

text \<open>What a tunnel listener does for an accepted connection to get its upstream: the captured closure.\<close>

definition open_tunnel :: "OpenStream \<Rightarrow> (dsess, conn) act" where
  "open_tunnel open =
     (case open of
        OpenPrivate uid route selector \<Rightarrow> open_private_socket uid route selector
      | OpenBackend addr code service \<Rightarrow> connect_backend addr code service)"

section \<open>Routing\<close>

datatype Route =
    Shared SocketAddr string
  | Private string string

definition route_multi :: "string \<Rightarrow> DeviceSnapshot \<Rightarrow> string list \<Rightarrow> BackendConfig option \<Rightarrow> string + Route" where
  "route_multi service snap order loc =
     bind_r (rewrite_upstream_service service snap order) (\<lambda>r.
     case r of
       Some (entry, upstream) \<Rightarrow>
         (case route_id entry of
            Some rid \<Rightarrow> Inr (Private rid upstream)
          | None \<Rightarrow> Inr (Shared (backend_addr entry) upstream))
     | None \<Rightarrow>
         (case loc of
            Some b \<Rightarrow> Inr (Shared (bc_addr b) service)
          | None \<Rightarrow> Inl ''no shared local backend''))"

definition backend_order :: "DeviceSnapshot \<Rightarrow> BackendConfig option \<Rightarrow> string list" where
  "backend_order snap loc =
     fold (\<lambda>d. push_new (backend_name d)) (devices snap) (if loc \<noteq> None then [''local''] else [])"

definition is_unsafe_global_host :: "string \<Rightarrow> bool" where
  "is_unsafe_global_host service \<longleftrightarrow>
     service = ''host:reconnect-offline'' \<or> service = ''host:resetowninghost'' \<or> starts_with ''host:kill:'' service"

definition forward_shared :: "pipe \<Rightarrow> SocketAddr \<Rightarrow> string \<Rightarrow> ('x sess_scheme, unit) act" where
  "forward_shared pipe addr service =
     try_a (dial addr) (\<lambda>r. case r of
       Inl err \<Rightarrow> on_client (write_fail (''backend '' @ addr_string addr @ '': '' @ err_msg err))
     | Inr upstream \<Rightarrow> on_up (write_service service) upstream (\<lambda>_ up. splice_quiet pipe up))"

section \<open>Device tracking\<close>

text \<open>One event per message of the notification channel: how it arrived, and what the other tasks did before.
  The end of the events is the end of the channel.\<close>

fun track_multi_loop :: "Uid \<Rightarrow> bool \<Rightarrow> (recv_kind \<times> others) list \<Rightarrow> (dsess, unit) act" where
  "track_multi_loop uid long [] = ret ()"
| "track_multi_loop uid long ((kind, f) # evs) =
     then_a (elsewhere f)
    (bind_a (user_view uid) (\<lambda>snap.
     let body = format_devices long snap in
     case kind of
       RecvOk \<Rightarrow>
         try_a (on_client (write_packet body)) (\<lambda>r. case r of
           Inl err \<Rightarrow> (if is_benign err then ret () else throw err)
         | Inr _ \<Rightarrow> track_multi_loop uid long evs)
     | Lagged \<Rightarrow> then_a (on_client (write_packet body)) (track_multi_loop uid long evs)))"

definition track_devices_multi :: "Uid \<Rightarrow> bool \<Rightarrow> (recv_kind \<times> others) list \<Rightarrow> (dsess, unit) act" where
  "track_devices_multi uid long evs =
     then_a (on_client write_okay)
    (bind_a (user_view uid) (\<lambda>snap.
     then_a (on_client (write_packet (format_devices long snap))) (track_multi_loop uid long evs)))"

section \<open>The connection handler\<close>

text \<open>The surroundings of one session: the copy function, what happens while it waits for the agent, what
  its relay loop sees, and the notifications it gets.\<close>

record client_env =
  ce_pipe :: pipe
  ce_wait :: others
  ce_relay :: "relay_event list"
  ce_track :: "(recv_kind \<times> others) list"

definition notify_kill_multi :: "(dsess, unit) act" where
  "notify_kill_multi s = (Inr (), s\<lparr>d_kills := Suc (d_kills s)\<rparr>)"

definition private_transport :: "pipe \<Rightarrow> Uid \<Rightarrow> DeviceEntry \<Rightarrow> string \<Rightarrow> string \<Rightarrow> (dsess, unit) act" where
  "private_transport pipe uid entry route upstream_service =
     bind_a (open_private_socket uid route upstream_service) (\<lambda>upstream.
     transport pipe upstream upstream_service (public_serial entry) (Some uid)
       (OpenPrivate uid route (''host:transport:'' @ upstream_serial entry)))"

definition transport_route :: "string \<Rightarrow> DeviceSnapshot \<Rightarrow> string list \<Rightarrow> (DeviceEntry \<times> string \<times> string) option" where
  "transport_route service snap order =
     (if is_transport service then
        (case rewrite_upstream_service service snap order of
           Inr (Some (entry, up)) \<Rightarrow> map_option (\<lambda>rid. (entry, rid, up)) (route_id entry)
         | _ \<Rightarrow> None)
      else None)"

definition forward_device :: "json \<Rightarrow> client_env \<Rightarrow> Uid \<Rightarrow> string \<Rightarrow> DeviceSnapshot \<Rightarrow> BackendConfig option \<Rightarrow> (dsess, unit) act" where
  "forward_device js env uid service snap loc =
     (case transport_route service snap (backend_order snap loc) of
        Some (entry, route, up) \<Rightarrow> private_transport (ce_pipe env) uid entry route up
      | None \<Rightarrow>
          (case route_multi service snap (backend_order snap loc) loc of
             Inr (Shared addr up) \<Rightarrow> forward_shared (ce_pipe env) addr up
           | Inr (Private route up) \<Rightarrow> forward_private js uid route up (ce_wait env) (ce_relay env)
           | Inl reason \<Rightarrow> on_client (write_fail reason)))"

text \<open>The answer to a service, given the user's view, the local backend and the version.\<close>

definition daemon_answer ::
  "json \<Rightarrow> client_env \<Rightarrow> Uid \<Rightarrow> string \<Rightarrow> DeviceSnapshot \<Rightarrow> BackendConfig option \<Rightarrow> u32 \<Rightarrow> (dsess, unit) act" where
  "daemon_answer js env uid service snap loc version =
     (if service = ''host:devices'' \<or> service = ''host:devices-l'' then
        on_client (write_okay_payload (format_devices (ends_with ''-l'' service) snap))
      else if service = ''host:track-devices'' \<or> service = ''host:track-devices-l'' then
        track_devices_multi uid (ends_with ''-l'' service) (ce_track env)
      else if service = ''host:kill'' then then_a (on_client write_okay) notify_kill_multi
      else if service = ''host:version'' then on_client (write_okay_payload (pad0 4 (hex (unat version))))
      else if service = ''host:get-state'' \<or> service = ''host:get-serialno'' \<or> service = ''host:get-connection-state'' then
        (case pick_preferred snap (backend_order snap loc) of
           Inr entry \<Rightarrow> on_client (write_okay_payload
             (if service = ''host:get-serialno'' then public_serial entry else dev_state entry))
         | Inl reason \<Rightarrow> on_client (write_fail reason))
      else if is_unsafe_global_host service then
        on_client (write_fail ''host command not permitted on multi-user daemon'')
      else forward_device js env uid service snap loc)"

definition daemon_service :: "json \<Rightarrow> client_env \<Rightarrow> Uid \<Rightarrow> string \<Rightarrow> (dsess, unit) act" where
  "daemon_service js env uid service s =
     daemon_answer js env uid service (snapshot_for uid (dc_tenants (d_core s))) (dc_local (d_core s)) (dc_version (d_core s)) s"

text \<open>\<open>user\<close> is the result of \<^verbatim>\<open>tcp_peer_uid\<close> for the connection.\<close>

definition handle_adb_client :: "json \<Rightarrow> client_env \<Rightarrow> io_error + Uid \<Rightarrow> (dsess, unit) act" where
  "handle_adb_client js env user =
     (case user of
        Inl _ \<Rightarrow> on_client (write_fail ''unable to identify client user'')
      | Inr uid \<Rightarrow>
          try_a (on_client read_packet) (\<lambda>r. case r of
            Inl err \<Rightarrow> (if err_kind err = UnexpectedEof then ret () else throw err)
          | Inr payload \<Rightarrow>
              (case from_utf8 payload of
                 None \<Rightarrow> on_client (write_fail ''invalid utf8 service'')
               | Some service \<Rightarrow> daemon_service js env uid service)))"

end
