(* ===== verification/Daemon_Sessions.thy ===== *)
theory Daemon_Sessions
  imports Daemon
begin

text \<open>
  What a client session of the daemon can do. The locale \<open>client_guard\<close> is the contract of a session:
  a condition on the daemon's state that the session's own operations keep (they touch only the
  connections and tunnels of the session's user) is kept by the whole session, provided the other tasks
  keep it. Its instances give the properties: where data goes, what stays out of reach, who owns the tunnels.
\<close>

section \<open>The contract of a session\<close>

text \<open>Network and loopback pairs are fixed; \<open>J\<close> holds of the shared state; the tasks spawned since \<open>T\<close>
  all satisfy \<open>Q\<close>, and the messages sent to agents since \<open>W\<close> all satisfy \<open>M\<close>.\<close>

definition client_ok ::
  "(nat \<Rightarrow> SocketAddr \<Rightarrow> io_error + conn) \<Rightarrow> (nat \<Rightarrow> loopback) \<Rightarrow> private_task list \<Rightarrow> (private_task \<Rightarrow> bool)
     \<Rightarrow> (ckey \<times> IpcMessage) list \<Rightarrow> (ckey \<times> IpcMessage \<Rightarrow> bool) \<Rightarrow> (dcore \<Rightarrow> TunnelManager \<Rightarrow> bool) \<Rightarrow> dsess \<Rightarrow> bool" where
  "client_ok D L T Q W M J s \<longleftrightarrow> dialer s = D \<and> d_loops s = L \<and> J (d_core s) (tunnels s)
     \<and> (\<exists>ts. d_spawned s = T @ ts \<and> (\<forall>t \<in> set ts. Q t))
     \<and> (\<exists>ms. d_sent s = W @ ms \<and> (\<forall>m \<in> set ms. M m))"

definition steady :: "(dcore \<Rightarrow> TunnelManager \<Rightarrow> bool) \<Rightarrow> others \<Rightarrow> bool" where
  "steady J f \<longleftrightarrow> (\<forall>c tm. J c tm \<longrightarrow> J (fst (f (c, tm))) (snd (f (c, tm))))"

primrec relay_steady :: "(dcore \<Rightarrow> TunnelManager \<Rightarrow> bool) \<Rightarrow> relay_event \<Rightarrow> bool" where
  "relay_steady J (ClientReady n) = True"
| "relay_steady J AgentReady = True"
| "relay_steady J (Elsewhere f) = steady J f"

definition env_steady :: "(dcore \<Rightarrow> TunnelManager \<Rightarrow> bool) \<Rightarrow> client_env \<Rightarrow> bool" where
  "env_steady J env \<longleftrightarrow> steady J (ce_wait env) \<and> list_all (relay_steady J) (ce_relay env)
     \<and> list_all (\<lambda>(kind, f). steady J f) (ce_track env)"

text \<open>The messages of one private stream, and what a task that serves the route \<open>route\<close> of user \<open>uid\<close> may
  send when it starts in the state \<open>s\<close>: the messages of a new stream, to the agent registered for that user.\<close>

definition stream_message :: "u32 \<Rightarrow> string \<Rightarrow> string \<Rightarrow> IpcMessage \<Rightarrow> bool" where
  "stream_message i route service m \<longleftrightarrow>
     m = MOpenPrivateStream \<lparr>op_stream_id = i, op_route_id = route, op_service = service\<rparr>
   \<or> (\<exists>d. m = MStreamData i d) \<or> m = MStreamClose \<lparr>sc_stream_id = i, sc_reason = ''client closed''\<rparr>"

definition private_target :: "Uid \<Rightarrow> string \<Rightarrow> string \<Rightarrow> dsess \<Rightarrow> ckey \<times> IpcMessage \<Rightarrow> bool" where
  "private_target uid route service s = (\<lambda>(k, m). fst k = uid \<and> dc_agents (d_core s) uid = Some (snd k)
     \<and> stream_message (dc_next_stream (d_core s)) route service m)"

text \<open>\<open>splices\<close> from one state.\<close>

definition splices_at :: "('x sess_scheme \<Rightarrow> bool) \<Rightarrow> (conn \<Rightarrow> bool) \<Rightarrow> ('x sess_scheme, 'a) act \<Rightarrow> 'x sess_scheme \<Rightarrow> bool" where
  "splices_at I P m s \<longleftrightarrow> I (snd (m s)) \<and> (\<exists>ups. spliced (snd (m s)) = spliced s @ ups \<and> (\<forall>u \<in> set ups. P u))"

lemma splices_from: "splices I P m \<Longrightarrow> I s \<Longrightarrow> splices_at I P m s"
  by (simp add: splices_def splices_at_def)

lemma splices_at_if:
  "(b \<Longrightarrow> splices_at I P m s) \<Longrightarrow> (\<not> b \<Longrightarrow> splices_at I P n s) \<Longrightarrow> splices_at I P (if b then m else n) s"
  by simp

lemma splices_at_bind:
  "m s = (Inr x, s1) \<Longrightarrow> spliced s1 = spliced s \<Longrightarrow> splices_at I P (f x) s1 \<Longrightarrow> splices_at I P (bind_a m f) s"
  by (simp add: splices_at_def bind_a_def)

locale client_guard =
  fixes uid :: Uid and J :: "dcore \<Rightarrow> TunnelManager \<Rightarrow> bool"
  assumes J_conn: "J c tm \<Longrightarrow> J (on_conn (uid, n) f c) tm"
    and J_next: "J c tm \<Longrightarrow> J (c\<lparr>dc_next_stream := i\<rparr>) tm"
    and J_add: "J c tm \<Longrightarrow> J c (snd (TunnelManager_add port serial socket (Some uid) (OpenPrivate uid route sel) tm))"
    and J_remove: "J c tm \<Longrightarrow> J c (snd (TunnelManager_remove port serial (Some uid) tm))"

sublocale client_guard \<subseteq> tunnel_user "client_ok D L T Q W M J" D "Some uid" "\<lambda>open. \<exists>route sel. open = OpenPrivate uid route sel"
  for D L T Q W M
  by unfold_locales (auto simp: client_ok_def J_add J_remove)

context client_guard
begin

abbreviation "fine D L T Q W M \<equiv> client_ok D L T Q W M J"

lemma sp_elsewhere: "steady J f \<Longrightarrow> splices (fine D L T Q W M) P (elsewhere f)"
  by (auto simp: splices_def elsewhere_def client_ok_def steady_def split: prod.splits) (metis fst_conv snd_conv)

lemma sp_conn: "splices (fine D L T Q W M) P (core_do (on_conn (uid, n) f))"
  by (auto simp: splices_def core_do_def client_ok_def J_conn)

lemma sp_agent_send: "M ((uid, n), msg) \<Longrightarrow> splices (fine D L T Q W M) P (agent_send js (uid, n) msg)"
  by (auto simp: splices_def agent_send_def client_ok_def J_conn split: option.split prod.split)

lemma sp_fresh: "splices (fine D L T Q W M) P fresh_stream"
  by (auto simp: splices_def fresh_stream_def client_ok_def J_next)

lemma sp_reads:
  "splices (fine D L T Q W M) P (stream_outcome k i)" "splices (fine D L T Q W M) P (user_view u)"
  "splices (fine D L T Q W M) P notify_kill_multi"
  by (auto simp: splices_def stream_outcome_def user_view_def notify_kill_multi_def client_ok_def)

lemma sp_recv: "splices (fine D L T Q W M) P (recv_chunk (uid, n) i)"
  by (auto simp: splices_def recv_chunk_def client_ok_def J_conn split: option.split list.split)

lemma sp_relay_loop:
  assumes "\<And>d. M ((uid, n), MStreamData i d)"
  shows "list_all (relay_steady J) evs \<Longrightarrow> splices (fine D L T Q W M) P (relay_loop js (uid, n) i evs)"
proof (induction evs)
  case Nil
  show ?case unfolding relay_loop.simps by (rule sp_ret)
next
  case (Cons ev evs)
  then have IH: "splices (fine D L T Q W M) P (relay_loop js (uid, n) i evs)" by simp
  show ?case
  proof (cases ev)
    case (ClientReady m)
    show ?thesis
      unfolding ClientReady relay_loop.simps
      by (intro sp_try sp_on_client sp_branch sp_ret sp_throw sp_then sp_agent_send assms IH)
  next
    case AgentReady
    have "splices (fine D L T Q W M) P (case d of
       Chunk data \<Rightarrow> try_a (on_client (write_all data)) (\<lambda>r. case r of
           Inl err \<Rightarrow> (if is_benign err then ret True else throw err)
         | Inr _ \<Rightarrow> relay_loop js (uid, n) i evs)
     | Ended_channel \<Rightarrow> ret True
     | Nothing_yet \<Rightarrow> relay_loop js (uid, n) i evs)" for d
      by (cases d; simp only: received.case) (intro sp_try sp_on_client sp_branch sp_ret sp_throw IH)+
    then show ?thesis unfolding AgentReady relay_loop.simps by (intro sp_bind sp_recv)
  next
    case (Elsewhere f)
    with Cons.prems have "steady J f" by simp
    then show ?thesis unfolding Elsewhere relay_loop.simps by (intro sp_then sp_elsewhere IH)
  qed
qed

lemma sp_private_stream:
  assumes "steady J wait" "list_all (relay_steady J) evs"
    and "\<And>m. stream_message (dc_next_stream (d_core s)) route service m \<Longrightarrow> M ((uid, n), m)" "fine D L T Q W M s"
  shows "splices_at (fine D L T Q W M) P (private_stream js (uid, n) route service wait evs) s"
proof -
  let ?i = "dc_next_stream (d_core s)"
  have m: "M ((uid, n), MOpenPrivateStream \<lparr>op_stream_id = ?i, op_route_id = route, op_service = service\<rparr>)"
    "\<And>d. M ((uid, n), MStreamData ?i d)" "M ((uid, n), MStreamClose \<lparr>sc_stream_id = ?i, sc_reason = ''client closed''\<rparr>)"
    by (rule assms(3), simp add: stream_message_def)+
  have f: "fresh_stream s = (Inr ?i, snd (fresh_stream s))" "spliced (snd (fresh_stream s)) = spliced s"
    by (simp_all add: fresh_stream_def)
  have "fine D L T Q W M (snd (fresh_stream s))" using sp_fresh assms(4) by (simp add: splices_def)
  then show ?thesis
    unfolding private_stream_def private_relay_def
    by (intro splices_at_bind [where m = fresh_stream, OF f] splices_from
         sp_bind sp_then sp_try sp_conn sp_agent_send sp_branch sp_throw sp_elsewhere sp_reads sp_on_client
        sp_relay_loop sp_ret assms(1,2) m)
qed

lemma sp_forward_private:
  assumes "steady J wait" "list_all (relay_steady J) evs"
    and "\<And>km. private_target uid route service s km \<Longrightarrow> M km" "fine D L T Q W M s"
  shows "splices_at (fine D L T Q W M) P (forward_private js uid route service wait evs) s"
proof (cases "dc_agents (d_core s) uid")
  case None
  have "splices_at (fine D L T Q W M) P (on_client (write_fail ''device not found'')) s"
    by (rule splices_from [OF sp_on_client assms(4)])
  with None show ?thesis by (simp add: forward_private_def splices_at_def)
next
  case (Some n)
  have "splices_at (fine D L T Q W M) P (private_stream js (uid, n) route service wait evs) s"
    by (rule sp_private_stream [OF assms(1,2) _ assms(4)]) (simp add: assms(3) private_target_def Some)
  with Some show ?thesis by (simp add: forward_private_def splices_at_def)
qed

lemma sp_open_private:
  assumes "\<And>server. Q \<lparr>pt_server = server, pt_uid = uid, pt_route = route, pt_service = service\<rparr>"
  shows "splices (fine D L T Q W M) P (open_private_socket uid route service)"
proof (rule splicesI)
  fix s assume "fine D L T Q W M s"
  then show "fine D L T Q W M (snd (open_private_socket uid route service s)) \<and>
      (\<exists>ups. spliced (snd (open_private_socket uid route service s)) = spliced s @ ups \<and> (\<forall>u \<in> set ups. P u))"
    using assms by (auto simp: client_ok_def open_private_socket_def Let_def split: sum.split prod.split)
qed

text \<open>The private transport: the session is joined to the client end of a loopback pair.\<close>

lemma sp_private_transport:
  assumes "\<And>server. Q \<lparr>pt_server = server, pt_uid = uid, pt_route = route, pt_service = up\<rparr>"
    and "\<And>n client a u req. lb_client (L n) = Inr (client, a) \<Longrightarrow> tx u = tx client @ packet req \<Longrightarrow> P u"
  shows "splices (fine D L T Q W M) P (private_transport pipe uid e route up)"
proof (rule splicesI)
  fix s assume I: "fine D L T Q W M s"
  let ?m = "open_private_socket uid route up"
  have "splices (fine D L T Q W M) (\<lambda>_. False) ?m" by (rule sp_open_private) (rule assms(1))
  with I have m: "fine D L T Q W M (snd (?m s))" "spliced (snd (?m s)) = spliced s"
    by (auto simp: splices_def set_empty [symmetric] simp del: set_empty)
  show "fine D L T Q W M (snd (private_transport pipe uid e route up s)) \<and>
      (\<exists>ups. spliced (snd (private_transport pipe uid e route up s)) = spliced s @ ups \<and> (\<forall>u \<in> set ups. P u))"
  proof (cases "fst (?m s)")
    case (Inl x)
    then have "private_transport pipe uid e route up s = (Inl x, snd (?m s))"
      by (cases "?m s") (simp add: private_transport_def bind_a_def)
    with m show ?thesis by simp
  next
    case (Inr u)
    then have lb: "lb_client (L (d_pairs s)) = Inr (u, snd (projr (lb_client (L (d_pairs s)))))"
      using I by (auto simp: open_private_socket_def Let_def client_ok_def split: sum.splits prod.splits)
    let ?k = "transport pipe u up (public_serial e) (Some uid) (OpenPrivate uid route (''host:transport:'' @ upstream_serial e))"
    have "splices (fine D L T Q W M) P ?k" by (intro sp_transport) (auto intro: assms(2) [OF lb])
    then have "fine D L T Q W M (snd (?k (snd (?m s)))) \<and>
        (\<exists>ups. spliced (snd (?k (snd (?m s)))) = spliced (snd (?m s)) @ ups \<and> (\<forall>u \<in> set ups. P u))"
      using m(1) unfolding splices_def by blast
    moreover have "private_transport pipe uid e route up s = ?k (snd (?m s))"
      using Inr by (cases "?m s") (simp add: private_transport_def bind_a_def)
    ultimately show ?thesis using m(2) by simp
  qed
qed

lemma sp_forward_shared:
  assumes "\<And>u. opened_for D addr None service u \<Longrightarrow> P u"
  shows "splices (fine D L T Q W M) P (forward_shared pipe addr service)"
  unfolding forward_shared_def
proof (rule sp_try_dial)
  fix n u assume D: "D n addr = Inr u"
  have "P v" if "write_service service u = (Inr x, v)" for x v
  proof (rule assms)
    from write_service_Inr_tx [OF that] have "tx v = tx u @ upstream_prelude None service @ []"
      by (simp add: upstream_prelude_def)
    with D show "opened_for D addr None service v" unfolding opened_for_def by blast
  qed
  then show "splices (fine D L T Q W M) P (case Inr u of
       Inl err \<Rightarrow> on_client (write_fail (''backend '' @ addr_string addr @ '': '' @ err_msg err))
     | Inr upstream \<Rightarrow> on_up (write_service service) upstream (\<lambda>_ up. splice_quiet pipe up))"
    by (auto intro!: sp_on_up sp_splice_quiet)
qed (simp add: sp_on_client)

lemma sp_track:
  "list_all (\<lambda>(kind, f). steady J f) evs \<Longrightarrow> splices (fine D L T Q W M) P (track_devices_multi u long evs)"
proof -
  have "list_all (\<lambda>(kind, f). steady J f) evs \<Longrightarrow> splices (fine D L T Q W M) P (track_multi_loop u long evs)"
  proof (induction evs)
    case Nil
    show ?case unfolding track_multi_loop.simps by (rule sp_ret)
  next
    case (Cons ev evs)
    obtain kind f where ev: "ev = (kind, f)" by (cases ev)
    with Cons have f: "steady J f" and IH: "splices (fine D L T Q W M) P (track_multi_loop u long evs)" by simp_all
    show ?case
      unfolding ev track_multi_loop.simps Let_def
      by (cases kind; simp only: recv_kind.case)
        (intro sp_then sp_bind sp_try sp_on_client sp_branch sp_ret sp_throw sp_reads sp_elsewhere [OF f] IH)+
  qed
  then show "list_all (\<lambda>(kind, f). steady J f) evs \<Longrightarrow> ?thesis"
    unfolding track_devices_multi_def by (intro sp_then sp_bind sp_on_client sp_reads)
qed

end

section \<open>Where a request may go\<close>

text \<open>The shared local server with the request as it is; the shared server that has a shared device of the
  user's view, with the request rewritten for it; or a loopback pair whose other end serves a private
  device of the view.\<close>

definition daemon_target ::
  "(nat \<Rightarrow> SocketAddr \<Rightarrow> io_error + conn) \<Rightarrow> (nat \<Rightarrow> loopback) \<Rightarrow> DeviceSnapshot \<Rightarrow> BackendConfig option \<Rightarrow> string \<Rightarrow> conn \<Rightarrow> bool" where
  "daemon_target D L snap loc service u \<longleftrightarrow>
     (\<exists>b. loc = Some b \<and> opened_for D (bc_addr b) None service u)
   \<or> (\<exists>e \<in> set (devices snap). \<exists>up. route_id e = None
        \<and> rewrite_upstream_service service snap (backend_order snap loc) = Inr (Some (e, up)) \<and> opened_for D (backend_addr e) None up u)
   \<or> (\<exists>e \<in> set (devices snap). \<exists>n client a req. route_id e \<noteq> None \<and> lb_client (L n) = Inr (client, a) \<and> tx u = tx client @ packet req)"

definition task_for :: "Uid \<Rightarrow> DeviceSnapshot \<Rightarrow> BackendConfig option \<Rightarrow> string \<Rightarrow> private_task \<Rightarrow> bool" where
  "task_for uid snap loc service t \<longleftrightarrow> pt_uid t = uid \<and>
     (\<exists>e \<in> set (devices snap). route_id e = Some (pt_route t)
        \<and> rewrite_upstream_service service snap (backend_order snap loc) = Inr (Some (e, pt_service t)))"

lemma route_multi_shared:
  assumes "route_multi service snap (backend_order snap loc) loc = Inr (Shared a up)" "opened_for D a None up u"
  shows "daemon_target D L snap loc service u"
proof (cases "rewrite_upstream_service service snap (backend_order snap loc)")
  case (Inr r)
  show ?thesis
  proof (cases r)
    case None
    with assms Inr show ?thesis by (auto simp: route_multi_def daemon_target_def bind_r_def split: option.splits)
  next
    case (Some p)
    obtain e v where p: "p = (e, v)" by (cases p)
    from assms Inr Some p have "route_id e = None" "a = backend_addr e" "up = v"
      by (auto simp: route_multi_def bind_r_def split: option.splits)
    with assms(2) Inr Some p rewrite_in [of service snap "backend_order snap loc" e v] show ?thesis
      by (auto simp: daemon_target_def)
  qed
qed (use assms in \<open>simp add: route_multi_def bind_r_def\<close>)

text \<open>What a session may send to agents: the messages of one new stream to the user's own agent, for the route of a
  private device of the view that the request names.\<close>

definition asks_for :: "Uid \<Rightarrow> DeviceSnapshot \<Rightarrow> BackendConfig option \<Rightarrow> string \<Rightarrow> dsess \<Rightarrow> ckey \<times> IpcMessage \<Rightarrow> bool" where
  "asks_for uid snap loc service s km \<longleftrightarrow> (\<exists>e \<in> set (devices snap). \<exists>route up. route_id e = Some route
     \<and> rewrite_upstream_service service snap (backend_order snap loc) = Inr (Some (e, up)) \<and> private_target uid route up s km)"

lemma route_multi_private:
  assumes "route_multi service snap (backend_order snap loc) loc = Inr (Private rid up)"
  obtains e where "e \<in> set (devices snap)" "route_id e = Some rid"
    "rewrite_upstream_service service snap (backend_order snap loc) = Inr (Some (e, up))"
  using assms rewrite_in [of service snap "backend_order snap loc"]
  by (fastforce simp: route_multi_def bind_r_Inr_iff split: option.splits prod.splits)

lemma transport_route_in:
  assumes "transport_route service snap (backend_order snap loc) = Some (e, rid, up)"
  shows "e \<in> set (devices snap)" "route_id e = Some rid"
    "rewrite_upstream_service service snap (backend_order snap loc) = Inr (Some (e, up))"
  using assms rewrite_in [of service snap "backend_order snap loc"]
  by (auto simp: transport_route_def split: if_splits sum.splits option.splits prod.splits)

context client_guard
begin

lemma sp_forward_device:
  assumes "env_steady J env" "\<And>km. asks_for uid snap loc service s km \<Longrightarrow> M km"
    and "fine D L T (task_for uid snap loc service) W M s"
  shows "splices_at (fine D L T (task_for uid snap loc service) W M) (daemon_target D L snap loc service)
    (forward_device js env uid service snap loc) s"
proof (cases "transport_route service snap (backend_order snap loc)")
  case None
  show ?thesis
  proof (cases "route_multi service snap (backend_order snap loc) loc")
    case (Inr r)
    show ?thesis
    proof (cases r)
      case (Shared a up)
      with None Inr assms(3) show ?thesis
        by (auto simp: forward_device_def intro!: splices_from sp_forward_shared route_multi_shared)
    next
      case (Private rid up)
      obtain e where e: "e \<in> set (devices snap)" "route_id e = Some rid"
        "rewrite_upstream_service service snap (backend_order snap loc) = Inr (Some (e, up))"
        using Inr Private by (auto elim: route_multi_private)
      have M: "M km" if "private_target uid rid up s km" for km
        using that e by (intro assms(2)) (auto simp: asks_for_def)
      have "splices_at (fine D L T (task_for uid snap loc service) W M) (daemon_target D L snap loc service)
          (forward_private js uid rid up (ce_wait env) (ce_relay env)) s"
        by (rule sp_forward_private [OF _ _ M assms(3)]) (use assms(1) in \<open>simp_all add: env_steady_def\<close>)
      with None Inr Private show ?thesis by (simp add: forward_device_def)
    qed
  qed (auto simp: None forward_device_def intro!: splices_from sp_on_client assms(3))
next
  case (Some t)
  obtain e rid up where t: "t = (e, rid, up)" by (cases t)
  note r = transport_route_in [OF Some [unfolded t]]
  have "splices (fine D L T (task_for uid snap loc service) W M) (daemon_target D L snap loc service)
      (private_transport (ce_pipe env) uid e rid up)"
    by (rule sp_private_transport) (use r in \<open>auto simp: task_for_def daemon_target_def\<close>)
  with Some t assms(3) show ?thesis by (simp add: forward_device_def splices_from)
qed

lemma sp_daemon_answer:
  assumes "env_steady J env" "\<And>km. asks_for uid snap loc service s km \<Longrightarrow> M km"
    and "fine D L T (task_for uid snap loc service) W M s"
  shows "splices_at (fine D L T (task_for uid snap loc service) W M) (daemon_target D L snap loc service)
    (daemon_answer js env uid service snap loc version) s"
proof -
  have t: "list_all (\<lambda>(kind, f). steady J f) (ce_track env)" using assms(1) by (simp add: env_steady_def)
  show ?thesis
    unfolding daemon_answer_def
    by (intro splices_at_if sp_forward_device assms)
      (rule splices_from [rotated], rule assms(3), intro sp_if sp_sum sp_on_client sp_then sp_reads sp_track t)+
qed

text \<open>A whole session.\<close>

lemma session_keeps:
  fixes js :: json
  assumes "env_steady J env" "J (d_core s) (tunnels s)"
  defines "s' \<equiv> snd (handle_adb_client js env (Inr uid) s)"
    and "snap \<equiv> snapshot_for uid (dc_tenants (d_core s))"
  shows "J (d_core s') (tunnels s')
    \<and> (\<exists>ups. spliced s' = spliced s @ ups \<and> (\<forall>u \<in> set ups. \<exists>service. fst (read_packet (cl s)) = Inr service
         \<and> daemon_target (dialer s) (d_loops s) snap (dc_local (d_core s)) service u))
    \<and> (\<exists>ts. d_spawned s' = d_spawned s @ ts \<and> (\<forall>t \<in> set ts. \<exists>service. fst (read_packet (cl s)) = Inr service
         \<and> task_for uid snap (dc_local (d_core s)) service t))
    \<and> (\<exists>ms. d_sent s' = d_sent s @ ms \<and> (\<forall>km \<in> set ms. \<exists>service. fst (read_packet (cl s)) = Inr service
         \<and> asks_for uid snap (dc_local (d_core s)) service s km))"
proof -
  obtain r c where rp: "read_packet (cl s) = (r, c)" by fastforce
  let ?s = "s\<lparr>cl := c\<rparr>"
  show ?thesis
  proof (cases "\<exists>service. r = Inr service \<and> utf8_valid service")
    case False
    then show ?thesis using assms(2)
      by (auto simp: s'_def handle_adb_client_def try_a_def on_client_def rp from_utf8_def split: sum.splits prod.splits)
  next
    case True
    then obtain service where sv: "r = Inr service" "utf8_valid service" by blast
    let ?loc = "dc_local (d_core s)" and ?I = "fine (dialer s) (d_loops s) (d_spawned s)
      (task_for uid snap (dc_local (d_core s)) service) (d_sent s) (asks_for uid snap (dc_local (d_core s)) service s)"
    have h: "s' = snd (daemon_answer js env uid service snap ?loc (dc_version (d_core s)) ?s)"
      using sv by (simp add: s'_def snap_def handle_adb_client_def try_a_def on_client_def rp from_utf8_def daemon_service_def)
    have "?I ?s" using assms(2) by (simp add: client_ok_def)
    moreover have "asks_for uid snap ?loc service s km" if "asks_for uid snap ?loc service ?s km" for km
      using that by (simp add: asks_for_def private_target_def)
    ultimately have "splices_at ?I (daemon_target (dialer s) (d_loops s) snap ?loc service)
        (daemon_answer js env uid service snap ?loc (dc_version (d_core s))) ?s"
      by (intro sp_daemon_answer [OF assms(1)])
    then have "?I s'" "\<exists>ups. spliced s' = spliced s @ ups \<and> (\<forall>u \<in> set ups. daemon_target (dialer s) (d_loops s) snap ?loc service u)"
      unfolding h splices_at_def by auto
    with sv(1) rp show ?thesis by (auto simp: client_ok_def)
  qed
qed

text \<open>A task that was spawned for a private stream, whenever it runs.\<close>

lemma forward_private_sends:
  assumes "steady J wait" "list_all (relay_steady J) evs" "J (d_core s) (tunnels s)"
  shows "\<exists>ms. d_sent (snd (forward_private js uid route service wait evs s)) = d_sent s @ ms
    \<and> (\<forall>km \<in> set ms. private_target uid route service s km)"
proof -
  have "fine (dialer s) (d_loops s) (d_spawned s) (\<lambda>_. True) (d_sent s) (private_target uid route service s) s"
    using assms(3) by (simp add: client_ok_def)
  from sp_forward_private [OF assms(1,2) _ this, of route service] show ?thesis
    by (auto simp: splices_at_def client_ok_def)
qed

end

lemma relay_steady_True: "relay_steady (\<lambda>_ _. True) ev"
  by (cases ev) (simp_all add: steady_def)

lemma env_steady_True: "env_steady (\<lambda>_ _. True) env"
  by (auto simp: env_steady_def steady_def list_all_iff relay_steady_True)

section \<open>The contract holds\<close>

text \<open>Three conditions the code's own operations keep: none at all; that what belongs to another user stays
  as it is; and that every tunnel belongs to a user and opens only that user's private streams.\<close>

definition own_core :: "Uid \<Rightarrow> dcore \<Rightarrow> DeviceSnapshot option \<times> nat option \<times> (nat \<Rightarrow> AgentConn option)" where
  "own_core v c = (tr_private (dc_tenants c) v, dc_agents c v, (\<lambda>n. dc_conns c (v, n)))"

definition tunnels_private :: "TunnelManager \<Rightarrow> bool" where
  "tunnels_private tm \<longleftrightarrow> (\<forall>p l. tm_listeners tm p = Some l \<longrightarrow> (\<exists>w route sel. l_owner l = Some w \<and> l_open l = OpenPrivate w route sel))"

interpretation anything: client_guard uid "\<lambda>_ _. True" for uid
  by unfold_locales simp_all

lemma own_core_on_conn: "v \<noteq> uid \<Longrightarrow> own_core v (on_conn (uid, n) f c) = own_core v c"
  by (simp add: own_core_def)

interpretation apart: client_guard uid "\<lambda>c tm. v \<noteq> uid \<longrightarrow> own_core v c = X" for uid v X
  by unfold_locales (auto simp: own_core_on_conn own_core_def)

lemma tunnels_private_add:
  "tunnels_private tm \<Longrightarrow> tunnels_private (snd (TunnelManager_add port serial socket (Some uid) (OpenPrivate uid route sel) tm))"
  by (auto simp: tunnels_private_def TunnelManager_add_def bind_listener_def Let_def split: option.splits sum.splits if_splits)

lemma tunnels_private_remove: "tunnels_private tm \<Longrightarrow> tunnels_private (snd (TunnelManager_remove port serial owner tm))"
  by (auto simp: tunnels_private_def TunnelManager_remove_def split: option.splits if_splits)

interpretation owned_tunnels: client_guard uid "\<lambda>c tm. tunnels_private tm" for uid
  by unfold_locales (simp_all add: tunnels_private_add tunnels_private_remove)

section \<open>Properties\<close>

lemma client_upstreams:
  "let s' = snd (handle_adb_client js env (Inr uid) s);
       snap = snapshot_for uid (dc_tenants (d_core s));
       loc = dc_local (d_core s) in
    (\<exists>ups. spliced s' = spliced s @ ups \<and> (\<forall>u \<in> set ups. \<exists>service. fst (read_packet (cl s)) = Inr service
       \<and> daemon_target (dialer s) (d_loops s) snap loc service u))
  \<and> (\<exists>ts. d_spawned s' = d_spawned s @ ts \<and> (\<forall>t \<in> set ts. \<exists>service. fst (read_packet (cl s)) = Inr service
       \<and> task_for uid snap loc service t))
  \<and> (\<exists>ms. d_sent s' = d_sent s @ ms \<and> (\<forall>km \<in> set ms. \<exists>service. fst (read_packet (cl s)) = Inr service
       \<and> asks_for uid snap loc service s km))"
  using anything.session_keeps [OF env_steady_True TrueI] by (simp add: Let_def)

lemma task_sends:
  "\<exists>ms. d_sent (snd (run_private_task js t wait evs s)) = d_sent s @ ms
     \<and> (\<forall>km \<in> set ms. private_target (pt_uid t) (pt_route t) (pt_service t) s km)"
proof -
  have "list_all (relay_steady (\<lambda>_ _. True)) evs" by (simp add: list_all_iff relay_steady_True)
  moreover have "steady (\<lambda>_ _. True) wait" by (simp add: steady_def)
  ultimately show ?thesis
    using anything.forward_private_sends [where wait = wait and evs = evs and s = "s\<lparr>cl := pt_server t\<rparr>"
        and uid = "pt_uid t" and js = js and route = "pt_route t" and service = "pt_service t"]
    by (simp add: run_private_task_def private_target_def case_prod_unfold)
qed

text \<open>C1: Where the daemon lets a client's data go. Whatever a client identified as user \<open>uid\<close> sends and
  whatever other tasks do meanwhile, (1) each connection its data is joined to is the shared local server, a
  shared device's server with the request rewritten for that device of the user's view, or the loopback pair of a private stream;
  (2) each task spawned for a private stream is to ask the agent of that same user for the route of a device in that user's view,
  with the request rewritten for that device, and whenever it runs it sends messages of one new stream for just that to the agent registered
  for that user and to no other; (3) so does the session itself: every message it sends to any agent is a request, data or close
  of one new stream, to the agent registered for \<open>uid\<close>, for the route of the device of the view that the request names.\<close>

theorem daemon_upstreams:
  "let s' = snd (handle_adb_client js env (Inr uid) s);
       snap = snapshot_for uid (dc_tenants (d_core s));
       loc = dc_local (d_core s) in
    (\<exists>ups. spliced s' = spliced s @ ups \<and> (\<forall>u \<in> set ups. \<exists>service. fst (read_packet (cl s)) = Inr service
       \<and> daemon_target (dialer s) (d_loops s) snap loc service u))
  \<and> (\<exists>ts. d_spawned s' = d_spawned s @ ts \<and> (\<forall>t \<in> set ts. (\<exists>service. fst (read_packet (cl s)) = Inr service
       \<and> task_for uid snap loc service t)
       \<and> (\<forall>wait evs s2. \<exists>ms. d_sent (snd (run_private_task js t wait evs s2)) = d_sent s2 @ ms
            \<and> (\<forall>km \<in> set ms. private_target uid (pt_route t) (pt_service t) s2 km))))
  \<and> (\<exists>ms. d_sent s' = d_sent s @ ms \<and> (\<forall>km \<in> set ms. \<exists>service. fst (read_packet (cl s)) = Inr service
       \<and> asks_for uid snap loc service s km))"
proof -
  have t: "\<exists>ms. d_sent (snd (run_private_task js t wait evs s2)) = d_sent s2 @ ms
      \<and> (\<forall>km \<in> set ms. private_target uid (pt_route t) (pt_service t) s2 km)"
    if "task_for uid snap loc service t" for snap loc service t wait evs s2
    using task_sends [of js t wait evs s2] that by (simp add: task_for_def)
  note c = client_upstreams [of js env uid s, unfolded Let_def]
  show ?thesis unfolding Let_def
    by (intro conjI) (use c in blast, use c t in meson, use c in blast)
qed

lemma session_confined:
  assumes "user \<noteq> Inr v" "env_steady (\<lambda>c tm. own_core v c = own_core v (d_core s)) env"
  shows "own_core v (d_core (snd (handle_adb_client js env user s))) = own_core v (d_core s)
    \<and> (isl user \<longrightarrow> snd (handle_adb_client js env user s) = s\<lparr>cl := snd (write_fail ''unable to identify client user'' (cl s))\<rparr>)"
proof (cases user)
  case (Inl e)
  then show ?thesis by (simp add: handle_adb_client_def on_client_def split: prod.split)
next
  case (Inr uid)
  with assms(1) have v: "v \<noteq> uid" by simp
  have "env_steady (\<lambda>c tm. v \<noteq> uid \<longrightarrow> own_core v c = own_core v (d_core s)) env" using assms(2) v by simp
  from apart.session_keeps [OF this] v have "own_core v (d_core (snd (handle_adb_client js env (Inr uid) s))) = own_core v (d_core s)"
    by simp
  with Inr show ?thesis by simp
qed

text \<open>C9: A session stays within its user. Unless the kernel identified the client as user \<open>v\<close>, the session
  leaves the private devices, the registered agent and every connection of \<open>v\<close> as they are (if the other tasks do);
  a client that cannot be identified changes nothing but its own connection.\<close>

theorem daemon_confined:
  assumes "user \<noteq> Inr v" "env_steady (\<lambda>c tm. own_core v c = own_core v (d_core s)) env"
  shows "own_core v (d_core (snd (handle_adb_client js env user s))) = own_core v (d_core s)
    \<and> (isl user \<longrightarrow> snd (handle_adb_client js env user s) = s\<lparr>cl := snd (write_fail ''unable to identify client user'' (cl s))\<rparr>)"
  using assms by (rule session_confined)

text \<open>Private tunnels. If every tunnel listener belongs to a user and opens private streams of that same
  user's agent, this is so after any client session.\<close>

theorem daemon_tunnels_private:
  assumes "tunnels_private (tunnels s)" "env_steady (\<lambda>_. tunnels_private) env"
  shows "tunnels_private (tunnels (snd (handle_adb_client js env user s)))"
proof (cases user)
  case (Inl e)
  with assms(1) show ?thesis by (simp add: handle_adb_client_def on_client_def split: prod.split)
next
  case (Inr uid)
  from owned_tunnels.session_keeps [of env s js uid, OF assms(2,1)] Inr show ?thesis by simp
qed

text \<open>The device list. For \<^verbatim>\<open>host:devices\<close> and \<^verbatim>\<open>host:devices-l\<close> an identified client gets exactly one
  OKAY reply with the formatted list of the shared devices and the user's own; nothing is dialled,
  handed over or spawned and the daemon's state stays as it is.\<close>

theorem daemon_devices_reply:
  assumes "rx (cl s) = packet service @ r" "service = ''host:devices'' \<or> service = ''host:devices-l''" "tx_room (cl s) = None"
  shows "handle_adb_client js env (Inr uid) s = (Inr (), s\<lparr>cl := (cl s)\<lparr>rx := r, tx := tx (cl s) @ okay_reply
        (format_devices (service = ''host:devices-l'') (snapshot_for uid (dc_tenants (d_core s))))\<rparr>\<rparr>)"
proof -
  have "read_packet (cl s) = (Inr service, (cl s)\<lparr>rx := r\<rparr>)"
    using assms(1,2) by (intro read_packet_packet) (auto simp: fits16_def)
  moreover have "utf8_valid service" using assms(2) by (auto intro: utf8_ascii_test)
  ultimately have "handle_adb_client js env (Inr uid) s = daemon_service js env uid service (s\<lparr>cl := (cl s)\<lparr>rx := r\<rparr>\<rparr>)"
    by (simp add: handle_adb_client_def try_a_def on_client_def from_utf8_def)
  moreover have "ends_with ''-l'' ''host:devices-l''" "\<not> ends_with ''-l'' ''host:devices''" by code_simp+
  then have "ends_with ''-l'' service = (service = ''host:devices-l'')" using assms(2) by auto
  ultimately show ?thesis
    using assms(2,3) by (simp add: daemon_service_def daemon_answer_def on_client_def write_okay_payload_unlimited)
qed

section \<open>Witnesses\<close>

definition demo_core :: dcore where
  "demo_core = \<lparr>dc_tenants = \<lparr>tr_shared = empty_snapshot, tr_private = [7 \<mapsto> sanitized_to_snapshot (ds_devices (run_snap ''X''))],
       tr_notified = 1\<rparr>, dc_agents = [7 \<mapsto> 0], dc_conns = [(7, 0) \<mapsto> new_conn (open_conn [])], dc_next_stream = 1, dc_local = None, dc_version = 41\<rparr>"

definition demo_dsess :: "bytes \<Rightarrow> dsess" where
  "demo_dsess b = \<lparr>cl = open_conn b, dialer = (\<lambda>_ _. Inr (open_conn ''OKAY'')), dials = 0, spliced = [],
     tunnels = \<lparr>tm_listeners = Map.empty, tm_bind = (\<lambda>_ p. Inr p), tm_binds = 0\<rparr>, d_core = demo_core,
     d_loops = (\<lambda>_. \<lparr>lb_client = Inr (open_conn [], localhost 4000), lb_before = [], lb_server = open_conn []\<rparr>),
     d_pairs = 0, d_spawned = [], d_kills = 0, d_sent = []\<rparr>"

definition demo_env :: client_env where
  "demo_env = \<lparr>ce_pipe = (\<lambda>c u. (Inr (), c, u)), ce_wait = (\<lambda>x. x), ce_relay = [], ce_track = []\<rparr>"

lemma demo_rewrite:
  "rewrite_upstream_service ''host:transport:X'' (snapshot_for 7 (dc_tenants demo_core)) od
     = Inr (Some (hd (devices (sanitized_to_snapshot (ds_devices (run_snap ''X'')))), ''host:transport:X''))"
  by (simp add: rewrite_upstream_service_def demo_core_def snapshot_for_def empty_snapshot_def sanitized_to_snapshot_def run_snap_def
      starts_with_def lookup_online_def lookup_device_def find_device_def bind_r_def ok_or_def)

text \<open>A transport of the private device \<open>X\<close> spawns a task; a direct request for it is sent to the agent by the session.\<close>

lemma demo_transport:
  "d_spawned (snd (handle_adb_client js demo_env (Inr 7) (demo_dsess (packet ''host:transport:X''))))
     = [\<lparr>pt_server = open_conn [], pt_uid = 7, pt_route = ''r'', pt_service = ''host:transport:X''\<rparr>]"
proof -
  let ?s = "demo_dsess (packet ''host:transport:X'')"
  have rp: "read_packet (cl ?s) = (Inr ''host:transport:X'', (cl ?s)\<lparr>rx := []\<rparr>)"
    by (rule read_packet_packet) (simp_all add: fits16_def demo_dsess_def)
  have u: "utf8_valid ''host:transport:X''" by (rule utf8_ascii_test) simp
  have "handle_adb_client js demo_env (Inr 7) ?s = forward_device js demo_env 7 ''host:transport:X'' (snapshot_for 7 (dc_tenants demo_core)) None (?s\<lparr>cl := (cl ?s)\<lparr>rx := []\<rparr>\<rparr>)"
    using rp u by (simp add: handle_adb_client_def try_a_def on_client_def from_utf8_def daemon_service_def daemon_answer_def
        is_unsafe_global_host_def starts_with_def demo_dsess_def demo_core_def)
  moreover have "transport_route ''host:transport:X'' (snapshot_for 7 (dc_tenants demo_core)) od
      = Some (hd (devices (sanitized_to_snapshot (ds_devices (run_snap ''X'')))), ''r'', ''host:transport:X'')" for od
    by (simp add: transport_route_def demo_rewrite is_transport_def starts_with_def sanitized_to_snapshot_def run_snap_def)
  ultimately show ?thesis
    by (simp add: forward_device_def private_transport_def bind_a_def open_private_socket_def demo_dsess_def Let_def
        transport_def on_up_def read_status_def read_exact_def)
qed

lemma demo_direct:
  "d_sent (snd (handle_adb_client run_json demo_env (Inr 7) (demo_dsess (packet ''host-serial:X:features''))))
     = [((7, 0), MOpenPrivateStream \<lparr>op_stream_id = 1, op_route_id = ''r'', op_service = ''host-serial:X:features''\<rparr>)]"
proof -
  let ?s = "demo_dsess (packet ''host-serial:X:features'')"
  let ?sn = "snapshot_for 7 (dc_tenants demo_core)"
  have rp: "read_packet (cl ?s) = (Inr ''host-serial:X:features'', (cl ?s)\<lparr>rx := []\<rparr>)"
    by (rule read_packet_packet) (simp_all add: fits16_def demo_dsess_def)
  have u: "utf8_valid ''host-serial:X:features''" by (rule utf8_ascii_test) simp
  have "handle_adb_client run_json demo_env (Inr 7) ?s = forward_device run_json demo_env 7 ''host-serial:X:features'' ?sn None (?s\<lparr>cl := (cl ?s)\<lparr>rx := []\<rparr>\<rparr>)"
    using rp u by (simp add: handle_adb_client_def try_a_def on_client_def from_utf8_def daemon_service_def daemon_answer_def
        is_unsafe_global_host_def starts_with_def demo_dsess_def demo_core_def)
  moreover have "rewrite_upstream_service ''host-serial:X:features'' ?sn od
      = Inr (Some (hd (devices (sanitized_to_snapshot (ds_devices (run_snap ''X'')))), ''host-serial:X:features''))" for od
    by (simp add: rewrite_upstream_service_def demo_core_def snapshot_for_def empty_snapshot_def sanitized_to_snapshot_def run_snap_def
        starts_with_def lookup_device_def find_device_def bind_r_def ok_or_def)
  ultimately show ?thesis
    by (simp add: forward_device_def transport_route_def is_transport_def starts_with_def route_multi_def bind_r_def
        sanitized_to_snapshot_def run_snap_def forward_private_def demo_dsess_def demo_core_def private_stream_def bind_a_def
        then_a_def fresh_stream_def core_do_def try_a_def agent_send_def on_conn_def write_message_def encode_message_def to_json_def
        run_json_def lift_r_def throw_def map_err_def)
qed

theorem daemon_upstreams_witness:
  "task_for 7 (snapshot_for 7 (dc_tenants demo_core)) None ''host:transport:X''
     \<lparr>pt_server = open_conn [], pt_uid = 7, pt_route = ''r'', pt_service = ''host:transport:X''\<rparr>
   \<and> asks_for 7 (snapshot_for 7 (dc_tenants demo_core)) None ''host-serial:X:features'' (demo_dsess (packet ''host-serial:X:features''))
     ((7, 0), MOpenPrivateStream \<lparr>op_stream_id = 1, op_route_id = ''r'', op_service = ''host-serial:X:features''\<rparr>)"
proof -
  have rp: "fst (read_packet (cl (demo_dsess (packet b)))) = Inr b" if "b = ''host:transport:X'' \<or> b = ''host-serial:X:features''" for b
  proof -
    have "read_packet (cl (demo_dsess (packet b))) = (Inr b, (cl (demo_dsess (packet b)))\<lparr>rx := []\<rparr>)"
      by (rule read_packet_packet) (use that in \<open>auto simp: fits16_def demo_dsess_def\<close>)
    then show ?thesis by simp
  qed
  from daemon_upstreams [of run_json demo_env 7 "demo_dsess (packet ''host:transport:X'')"]
    daemon_upstreams [of run_json demo_env 7 "demo_dsess (packet ''host-serial:X:features'')"]
  show ?thesis by (simp add: Let_def rp demo_transport demo_direct) (simp add: demo_dsess_def demo_core_def)
qed

lemma demo_env_steady: "env_steady J demo_env"
  by (simp add: env_steady_def steady_def demo_env_def)

theorem daemon_confined_witness:
  "own_core 8 (d_core (snd (handle_adb_client run_json demo_env (Inr 7) (demo_dsess (packet ''host:transport:X''))))) = own_core 8 demo_core"
  using daemon_confined [of "Inr 7" 8 "demo_dsess (packet ''host:transport:X'')" demo_env run_json] demo_env_steady
  by (simp add: demo_dsess_def)

theorem daemon_tunnels_private_witness:
  "tunnels_private (tunnels (snd (handle_adb_client run_json demo_env (Inr 7) (demo_dsess (packet ''host:transport:X'')))))"
  by (rule daemon_tunnels_private [OF _ demo_env_steady]) (simp add: tunnels_private_def demo_dsess_def)

theorem daemon_devices_reply_witness:
  "tx (cl (snd (handle_adb_client run_json demo_env (Inr 7) (demo_dsess (packet ''host:devices''))))) = okay_reply (''X'' @ [TAB] @ ''device'' @ [LF])"
  using daemon_devices_reply [of "demo_dsess (packet ''host:devices'')" "''host:devices''" "[]" run_json demo_env 7]
  by (simp add: demo_dsess_def demo_core_def snapshot_for_def empty_snapshot_def sanitized_to_snapshot_def run_snap_def
      format_devices_concat format_device_def)

end
