(* ===== verification/Daemon_Streams.thy ===== *)
theory Daemon_Streams
  imports Daemon_Sessions "HOL-Library.Sublist"
begin

text \<open>
  One private stream from end to end inside the daemon: the client's session together with the messages
  the agent sends for the stream, as its read loop dispatches them.
\<close>

section \<open>The agent's side of a stream\<close>

text \<open>What the read loop of connection \<open>k\<close> does with a message, as something another task does.\<close>

definition dispatched :: "json \<Rightarrow> ckey \<Rightarrow> IpcMessage \<Rightarrow> others" where
  "dispatched js k msg = (\<lambda>(c, tm). (snd (agent_dispatch js k msg c), tm))"

text \<open>The events of an open stream: client bytes are ready, the channel is ready, the agent sends data.\<close>

datatype stream_event =
    FromClient nat
  | ToClient
  | FromAgent bytes

primrec relay_event_of :: "json \<Rightarrow> ckey \<Rightarrow> u32 \<Rightarrow> stream_event \<Rightarrow> relay_event" where
  "relay_event_of js k i (FromClient n) = ClientReady n"
| "relay_event_of js k i ToClient = AgentReady"
| "relay_event_of js k i (FromAgent d) = Elsewhere (dispatched js k (MStreamData i d))"

primrec arriving :: "stream_event \<Rightarrow> bytes" where
  "arriving (FromClient n) = []"
| "arriving ToClient = []"
| "arriving (FromAgent d) = d"

definition data_frames :: "json \<Rightarrow> u32 \<Rightarrow> bytes list \<Rightarrow> bytes" where
  "data_frames js i chunks = concat (map (\<lambda>c. ipc_frame js (MStreamData i c)) chunks)"

lemma data_frames_simps [simp]:
  "data_frames js i [] = []" "data_frames js i (c # cs) = ipc_frame js (MStreamData i c) @ data_frames js i cs"
  by (simp_all add: data_frames_def)

lemma agent_send_unlimited:
  assumes "dc_conns (d_core s) k = Some a" "tx_room (ag_io a) = None" "encode_message js msg = Inr (ty, p)"
  shows "agent_send js k msg s = (Inr (), s\<lparr>d_core := on_conn k (\<lambda>b. b\<lparr>ag_io := (ag_io a)\<lparr>tx := tx (ag_io a) @ ipc_frame js msg\<rparr>\<rparr>) (d_core s),
    d_sent := d_sent s @ [(k, msg)]\<rparr>)"
  using assms write_message_tx [OF assms(2,3)] by (simp add: agent_send_def)

lemma encode_data: "encode_message js (MStreamData i d) = Inr (MtStreamData, be32 i @ d)"
  by (simp add: encode_message_def)

text \<open>What one relay leaves behind, for a client and an agent whose connections hold.\<close>

definition holds :: "ckey \<Rightarrow> AgentConn \<Rightarrow> dsess \<Rightarrow> bool" where
  "holds k a s \<longleftrightarrow> dc_conns (d_core s) k = Some a \<and> tx_room (ag_io a) = None \<and> tx_room (cl s) = None \<and> rx_end (cl s) = None"

text \<open>From \<open>s\<close> to \<open>s'\<close> the relay took \<open>chunks\<close> from the client to the agent and \<open>sent\<close>, the beginning of what
  was available from the agent, to the client.\<close>

definition relayed ::
  "json \<Rightarrow> ckey \<Rightarrow> u32 \<Rightarrow> bytes \<Rightarrow> AgentConn \<Rightarrow> dsess \<Rightarrow> AgentConn \<Rightarrow> dsess \<Rightarrow> bytes list \<Rightarrow> bytes \<Rightarrow> bool" where
  "relayed js k i available a s a' s' chunks sent \<longleftrightarrow> holds k a' s'
     \<and> rx (cl s) = concat chunks @ rx (cl s') \<and> tx (cl s') = tx (cl s) @ sent \<and> prefix sent available
     \<and> tx (ag_io a') = tx (ag_io a) @ data_frames js i chunks
     \<and> ag_senders a' = ag_senders a \<and> ag_waiters a' = ag_waiters a \<and> dc_next_stream (d_core s') = dc_next_stream (d_core s)"

lemma relayed_refl: "holds k a s \<Longrightarrow> relayed js k i available a s a s [] []"
  by (simp add: relayed_def)

lemma relay_loop_data:
  assumes "holds k a s" "i \<in> ag_senders a"
  shows "\<exists>b s' a' chunks sent. relay_loop js k i (map (relay_event_of js k i) xs) s = (Inr b, s')
    \<and> relayed js k i (concat (ag_queues a i) @ concat (map arriving xs)) a s a' s' chunks sent"
  using assms
proof (induction xs arbitrary: s a)
  case Nil
  then show ?case by simp (metis relayed_refl)
next
  case (Cons x xs)
  show ?case
  proof (cases x)
    case (FromClient n)
    show ?thesis
    proof (cases "rx (cl s) = []")
      case True
      then have "relay_loop js k i (map (relay_event_of js k i) (x # xs)) s = (Inr True, s)"
        using Cons.prems by (simp add: FromClient try_a_def on_client_def read_some_def holds_def)
      with relayed_refl [OF Cons.prems(1)] show ?thesis by blast
    next
      case False
      let ?d = "take (read_size n) (rx (cl s))"
      let ?a = "a\<lparr>ag_io := (ag_io a)\<lparr>tx := tx (ag_io a) @ ipc_frame js (MStreamData i ?d)\<rparr>\<rparr>"
      let ?s = "s\<lparr>cl := (cl s)\<lparr>rx := drop (read_size n) (rx (cl s))\<rparr>,
        d_core := on_conn k (\<lambda>b. b\<lparr>ag_io := (ag_io a)\<lparr>tx := tx (ag_io a) @ ipc_frame js (MStreamData i ?d)\<rparr>\<rparr>) (d_core s), d_sent := d_sent s @ [(k, MStreamData i ?d)]\<rparr>"
      have "?d \<noteq> []" using False by (simp add: read_size_def)
      then have run: "relay_loop js k i (map (relay_event_of js k i) (x # xs)) s = relay_loop js k i (map (relay_event_of js k i) xs) ?s"
        using Cons.prems False agent_send_unlimited [OF _ _ encode_data, of "s\<lparr>cl := (cl s)\<lparr>rx := drop (read_size n) (rx (cl s))\<rparr>\<rparr>" k a js i ?d]
        by (simp add: FromClient try_a_def on_client_def read_some_def holds_def then_a_def bind_a_def)
      have "holds k ?a ?s" "i \<in> ag_senders ?a" using Cons.prems by (simp_all add: holds_def)
      from Cons.IH [OF this] obtain b s' a' chunks sent where
        r: "relay_loop js k i (map (relay_event_of js k i) xs) ?s = (Inr b, s')"
        "relayed js k i (concat (ag_queues ?a i) @ concat (map arriving xs)) ?a ?s a' s' chunks sent" by blast
      have "relayed js k i (concat (ag_queues a i) @ concat (map arriving (x # xs))) a s a' s' (?d # chunks) sent"
        using r(2) append_take_drop_id [of "read_size n" "rx (cl s)"] by (simp add: relayed_def FromClient on_conn_def)
      with run r(1) show ?thesis by metis
    qed
  next
    case ToClient
    show ?thesis
    proof (cases "ag_queues a i")
      case Nil
      then have "relay_loop js k i (map (relay_event_of js k i) (x # xs)) s = relay_loop js k i (map (relay_event_of js k i) xs) s"
        using Cons.prems by (simp add: ToClient bind_a_def recv_chunk_def holds_def)
      with Cons.IH [OF Cons.prems] show ?thesis by (simp add: ToClient)
    next
      case (Cons d q)
      let ?a = "a\<lparr>ag_queues := (ag_queues a)(i := q)\<rparr>"
      let ?s = "s\<lparr>d_core := on_conn k (\<lambda>b. b\<lparr>ag_queues := (ag_queues b)(i := q)\<rparr>) (d_core s), cl := (cl s)\<lparr>tx := tx (cl s) @ d\<rparr>\<rparr>"
      have run: "relay_loop js k i (map (relay_event_of js k i) (x # xs)) s = relay_loop js k i (map (relay_event_of js k i) xs) ?s"
        using Cons.prems Cons by (simp add: ToClient bind_a_def recv_chunk_def holds_def try_a_def on_client_def write_all_unlimited)
      have "holds k ?a ?s" "i \<in> ag_senders ?a" using Cons.prems by (simp_all add: holds_def)
      from Cons.IH [OF this] obtain b s' a' chunks sent where
        r: "relay_loop js k i (map (relay_event_of js k i) xs) ?s = (Inr b, s')"
        "relayed js k i (concat (ag_queues ?a i) @ concat (map arriving xs)) ?a ?s a' s' chunks sent" by blast
      have "relayed js k i (concat (ag_queues a i) @ concat (map arriving (x # xs))) a s a' s' chunks (d @ sent)"
        using r(2) by (simp add: relayed_def ToClient Cons on_conn_def)
      with run r(1) show ?thesis by metis
    qed
  next
    case (FromAgent d)
    let ?a = "queue_data i d a"
    let ?s = "s\<lparr>d_core := on_conn k (queue_data i d) (d_core s)\<rparr>"
    have run: "relay_loop js k i (map (relay_event_of js k i) (x # xs)) s = relay_loop js k i (map (relay_event_of js k i) xs) ?s"
      by (simp add: FromAgent then_a_def bind_a_def elsewhere_def dispatched_def agent_dispatch_def)
    have "holds k ?a ?s" "i \<in> ag_senders ?a" using Cons.prems by (simp_all add: holds_def queue_data_def)
    from Cons.IH [OF this] obtain b s' a' chunks sent where
      r: "relay_loop js k i (map (relay_event_of js k i) xs) ?s = (Inr b, s')"
      "relayed js k i (concat (ag_queues ?a i) @ concat (map arriving xs)) ?a ?s a' s' chunks sent" by blast
    have "relayed js k i (concat (ag_queues a i) @ concat (map arriving (x # xs))) a s a' s' chunks sent"
      using r(2) Cons.prems(2) by (simp add: relayed_def FromAgent queue_data_def on_conn_def)
    with run r(1) show ?thesis by metis
  qed
qed

section \<open>Opening a stream\<close>

definition open_request :: "u32 \<Rightarrow> string \<Rightarrow> string \<Rightarrow> IpcMessage" where
  "open_request i route service = MOpenPrivateStream \<lparr>op_stream_id = i, op_route_id = route, op_service = service\<rparr>"

definition close_notice :: "u32 \<Rightarrow> IpcMessage" where
  "close_notice i = MStreamClose \<lparr>sc_stream_id = i, sc_reason = ''client closed''\<rparr>"

text \<open>The connection once the request is out, and once the agent's answer was dispatched.\<close>

definition asked :: "json \<Rightarrow> u32 \<Rightarrow> string \<Rightarrow> string \<Rightarrow> AgentConn \<Rightarrow> AgentConn" where
  "asked js i route service a =
     (add_stream i a)\<lparr>ag_io := (ag_io a)\<lparr>tx := tx (ag_io a) @ ipc_frame js (open_request i route service)\<rparr>\<rparr>"

definition answered :: "OpenResult \<Rightarrow> AgentConn \<Rightarrow> AgentConn" where
  "answered r = resolve (or_stream_id r) \<lparr>oo_ok = or_ok r, oo_fail_reason = or_fail_reason r\<rparr>"

lemma add_stream_sel [simp]: "ag_io (add_stream i a) = ag_io a"
  by (simp add: add_stream_def)

lemma answered_sel:
  assumes "or_stream_id r = i"
  shows "ag_outcomes (answered r (asked js i route service a)) i = Some \<lparr>oo_ok = or_ok r, oo_fail_reason = or_fail_reason r\<rparr>"
    and "ag_senders (answered r (asked js i route service a)) = insert i (ag_senders a)"
    and "ag_waiters (answered r (asked js i route service a)) = ag_waiters a - {i}"
    and "ag_queues (answered r (asked js i route service a)) i = []"
    and "ag_io (answered r (asked js i route service a)) = (ag_io a)\<lparr>tx := tx (ag_io a) @ ipc_frame js (open_request i route service)\<rparr>"
  using assms by (auto simp: answered_def asked_def resolve_def add_stream_def)

lemma elsewhere_answer:
  "elsewhere (dispatched js k (MOpenResult r)) s = (Inr (), s\<lparr>d_core := on_conn k (answered r) (d_core s)\<rparr>)"
  by (simp add: elsewhere_def dispatched_def agent_dispatch_def answered_def)

lemma private_stream_answered:
  assumes "dc_agents (d_core s) uid = Some n" "dc_conns (d_core s) (uid, n) = Some a" "tx_room (ag_io a) = None"
    and "dc_next_stream (d_core s) = i" "or_stream_id r = i" "encode_message js (open_request i route service) = Inr (ty, p)"
  shows "forward_private js uid route service (dispatched js (uid, n) (MOpenResult r)) evs s =
    (if or_ok r then private_relay js (uid, n) i evs
     else then_a (core_do (on_conn (uid, n) (drop_sender i))) (on_client (write_fail (unwrap_or ''open failed'' (or_fail_reason r)))))
    (s\<lparr>d_sent := d_sent s @ [((uid, n), open_request i route service)],
       d_core := (d_core s)\<lparr>dc_next_stream := i + 1,
         dc_conns := (dc_conns (d_core s))((uid, n) \<mapsto> answered r (asked js i route service a))\<rparr>\<rparr>)"
proof -
  let ?k = "(uid, n)"
  let ?s1 = "s\<lparr>d_core := (d_core s)\<lparr>dc_next_stream := i + 1, dc_conns := (dc_conns (d_core s))(?k \<mapsto> add_stream i a)\<rparr>\<rparr>"
  have 1: "dc_conns (d_core ?s1) ?k = Some (add_stream i a)" by simp
  have "tx_room (ag_io (add_stream i a)) = None" using assms(3) by simp
  note send = agent_send_unlimited [OF 1 this assms(6)]
  show ?thesis
    using assms(1,2,4) send answered_sel(1) [OF assms(5), of js route service a] assms(5)
    by (simp add: forward_private_def private_stream_def fresh_stream_def bind_a_def then_a_def core_do_def try_a_def
        elsewhere_answer stream_outcome_def open_request_def [symmetric] on_conn_def asked_def [symmetric])
qed

section \<open>Properties\<close>

text \<open>C7: A private stream carries the client's bytes. When the agent accepts, it has received the request to open
  the route, then the client's bytes in order, framed for this stream, and a close at most once at the end; the client
  has received the beginning of what the agent sent for this stream; what was not carried is still there to be read.\<close>

theorem private_stream_carries:
  assumes "dc_agents (d_core s) uid = Some n" "holds (uid, n) a s" "dc_next_stream (d_core s) = i"
    and "or_stream_id r = i" "or_ok r"
    and "encode_message js (open_request i route service) = Inr (ty, p)" "encode_message js (close_notice i) = Inr (ty', p')"
  shows "\<exists>s' a' chunks sent. forward_private js uid route service (dispatched js (uid, n) (MOpenResult r))
      (map (relay_event_of js (uid, n) i) xs) s = (Inr (), s')
    \<and> dc_conns (d_core s') (uid, n) = Some a'
    \<and> rx (cl s) = concat chunks @ rx (cl s') \<and> tx (cl s') = tx (cl s) @ sent \<and> prefix sent (concat (map arriving xs))
    \<and> (tx (ag_io a') = tx (ag_io a) @ ipc_frame js (open_request i route service) @ data_frames js i chunks
       \<or> tx (ag_io a') = tx (ag_io a) @ ipc_frame js (open_request i route service) @ data_frames js i chunks @ ipc_frame js (close_notice i))"
proof -
  let ?k = "(uid, n)"
  let ?a = "answered r (asked js i route service a)"
  let ?s = "s\<lparr>d_sent := d_sent s @ [(?k, open_request i route service)],
    d_core := (d_core s)\<lparr>dc_next_stream := i + 1, dc_conns := (dc_conns (d_core s))(?k \<mapsto> ?a)\<rparr>\<rparr>"
  note sel = answered_sel [OF assms(4), of js route service a]
  have a: "dc_conns (d_core s) ?k = Some a" "tx_room (ag_io a) = None" using assms(2) by (simp_all add: holds_def)
  have run: "forward_private js uid route service (dispatched js ?k (MOpenResult r)) evs s = private_relay js ?k i evs ?s" for evs
    using private_stream_answered [OF assms(1) a assms(3,4,6)] assms(5) by simp
  have "holds ?k ?a ?s" using assms(2) by (simp add: holds_def sel)
  from relay_loop_data [OF this, of i js xs] obtain b s1 a1 chunks sent where
    l: "relay_loop js ?k i (map (relay_event_of js ?k i) xs) ?s = (Inr b, s1)"
    and r: "relayed js ?k i (concat (map arriving xs)) ?a ?s a1 s1 chunks sent" by (auto simp: sel)
  have r1: "dc_conns (d_core s1) ?k = Some a1" "tx_room (ag_io a1) = None" "rx (cl s) = concat chunks @ rx (cl s1)"
    "tx (cl s1) = tx (cl s) @ sent" "prefix sent (concat (map arriving xs))"
    "tx (ag_io a1) = tx (ag_io a) @ ipc_frame js (open_request i route service) @ data_frames js i chunks"
    using r by (simp_all add: relayed_def holds_def sel)
  show ?thesis
  proof (cases b)
    case False
    with l r1 show ?thesis by (auto simp: run private_relay_def bind_a_def)
  next
    case True
    let ?s1 = "s1\<lparr>d_core := on_conn ?k (drop_sender i) (d_core s1)\<rparr>"
    have c: "dc_conns (d_core ?s1) ?k = Some (drop_sender i a1)" "tx_room (ag_io (drop_sender i a1)) = None"
      using r1(1,2) by (simp_all add: drop_sender_def)
    from agent_send_unlimited [OF c assms(7)] True l r1
    have "private_relay js ?k i (map (relay_event_of js ?k i) xs) ?s
      = (Inr (), ?s1\<lparr>d_core := on_conn ?k (\<lambda>d. d\<lparr>ag_io := (ag_io a1)\<lparr>tx := tx (ag_io a1) @ ipc_frame js (close_notice i)\<rparr>\<rparr>) (d_core ?s1),
          d_sent := d_sent ?s1 @ [(?k, close_notice i)]\<rparr>)"
      by (simp add: private_relay_def bind_a_def then_a_def core_do_def try_a_def close_notice_def [symmetric] drop_sender_def)
    with r1 show ?thesis by (auto simp: run)
  qed
qed

text \<open>C17: A refused private stream leaves nothing behind. When the agent answers with a failure, the client gets
  exactly one FAIL with the agent's reason, the agent got exactly the request, and the stream is forgotten: its
  sender and its waiter are gone and only the counter has moved on.\<close>

theorem private_stream_refused:
  assumes "dc_agents (d_core s) uid = Some n" "holds (uid, n) a s" "dc_next_stream (d_core s) = i"
    and "or_stream_id r = i" "\<not> or_ok r" "i \<notin> ag_senders a" "i \<notin> ag_waiters a"
    and "encode_message js (open_request i route service) = Inr (ty, p)"
  shows "\<exists>s' a'. forward_private js uid route service (dispatched js (uid, n) (MOpenResult r)) evs s = (Inr (), s')
    \<and> cl s' = (cl s)\<lparr>tx := tx (cl s) @ fail_reply (unwrap_or ''open failed'' (or_fail_reason r))\<rparr>
    \<and> dc_conns (d_core s') = (dc_conns (d_core s))((uid, n) \<mapsto> a')
    \<and> ag_senders a' = ag_senders a \<and> ag_waiters a' = ag_waiters a
    \<and> ag_io a' = (ag_io a)\<lparr>tx := tx (ag_io a) @ ipc_frame js (open_request i route service)\<rparr>
    \<and> dc_next_stream (d_core s') = i + 1"
proof -
  have a: "dc_conns (d_core s) (uid, n) = Some a" "tx_room (ag_io a) = None" "tx_room (cl s) = None"
    using assms(2) by (simp_all add: holds_def)
  note sel = answered_sel [OF assms(4), of js route service a]
  have "forward_private js uid route service (dispatched js (uid, n) (MOpenResult r)) evs s
    = (Inr (), s\<lparr>d_sent := d_sent s @ [((uid, n), open_request i route service)], d_core := (d_core s)\<lparr>dc_next_stream := i + 1, dc_conns := (dc_conns (d_core s))((uid, n) \<mapsto> drop_sender i (answered r (asked js i route service a)))\<rparr>,
        cl := (cl s)\<lparr>tx := tx (cl s) @ fail_reply (unwrap_or ''open failed'' (or_fail_reason r))\<rparr>\<rparr>)"
    using private_stream_answered [OF assms(1) a(1,2) assms(3,4,8), of evs] assms(5) a(3)
    by (simp add: then_a_def bind_a_def core_do_def on_client_def write_fail_unlimited on_conn_def)
  moreover have "ag_senders (drop_sender i (answered r (asked js i route service a))) = ag_senders a"
    using assms(6) by (auto simp: drop_sender_def sel)
  moreover have "ag_waiters (drop_sender i (answered r (asked js i route service a))) = ag_waiters a"
    using assms(7) by (auto simp: drop_sender_def sel)
  ultimately show ?thesis by (auto simp: drop_sender_def sel)
qed

definition stream_json :: json where
  "stream_json = demo_json\<lparr>j_open := \<lambda>m. Inr (op_route_id m), j_close := \<lambda>m. Inr (sc_reason m)\<rparr>"

lemma stream_json_enc:
  "encode_message stream_json (open_request i route service) = Inr (MtOpenPrivateStream, route)"
  "encode_message stream_json (close_notice i) = Inr (MtStreamClose, ''client closed'')"
  by (simp_all add: encode_message_def stream_json_def open_request_def close_notice_def to_json_def)

lemma demo_holds: "holds (7, 0) (new_conn (open_conn [])) (demo_dsess b)" "dc_agents (d_core (demo_dsess b)) 7 = Some 0"
  "dc_next_stream (d_core (demo_dsess b)) = 1"
  by (simp_all add: holds_def demo_dsess_def demo_core_def)

theorem private_stream_carries_witness:
  "\<exists>s'. forward_private stream_json 7 ''r'' ''shell:'' (dispatched stream_json (7, 0) (MOpenResult \<lparr>or_stream_id = 1, or_ok = True, or_fail_reason = None\<rparr>))
      (map (relay_event_of stream_json (7, 0) 1) [FromClient 3, FromAgent ''ab'', ToClient]) (demo_dsess ''hello'') = (Inr (), s')
    \<and> prefix (tx (cl s')) ''ab''"
  using private_stream_carries [OF demo_holds(2,1,3), of "\<lparr>or_stream_id = 1, or_ok = True, or_fail_reason = None\<rparr>" stream_json "''r''" "''shell:''"
      _ _ _ _ "[FromClient 3, FromAgent ''ab'', ToClient]" "''hello''", OF _ _ stream_json_enc]
  by (fastforce simp: demo_dsess_def)

theorem private_stream_refused_witness:
  "\<exists>s'. forward_private stream_json 7 ''r'' ''shell:'' (dispatched stream_json (7, 0) (MOpenResult \<lparr>or_stream_id = 1, or_ok = False, or_fail_reason = Some ''no''\<rparr>))
      [] (demo_dsess []) = (Inr (), s') \<and> tx (cl s') = fail_reply ''no''"
  using private_stream_refused [OF demo_holds(2,1,3), of "\<lparr>or_stream_id = 1, or_ok = False, or_fail_reason = Some ''no''\<rparr>" stream_json "''r''" "''shell:''"
      _ _ "[]" "[]", OF _ _ _ _ stream_json_enc(1)]
  by (fastforce simp: demo_dsess_def new_conn_def)

lemma find_append_some: "List.find P xs = Some x \<Longrightarrow> List.find P (xs @ ys) = Some x"
  by (induction xs) (auto split: if_splits)

text \<open>Shared serials win. A request for the serial of a shared device goes to a shared device, whatever private
  devices the user has: a private device with the same serial cannot be selected.\<close>

theorem daemon_shared_serial_wins:
  assumes "\<exists>e \<in> set (devices (tr_shared t)). public_serial e = k"
    and "rewrite_upstream_service (''host:transport:'' @ k) (snapshot_for u t) order = Inr (Some (e, up))"
  shows "e \<in> set (devices (tr_shared t)) \<and> public_serial e = k"
proof -
  have "lookup_device (snapshot_for u t) k = Inr e"
    using assms(2) by (auto simp: rewrite_upstream_service_def bind_r_Inr_iff lookup_online_def split: if_splits)
  then have "List.find (\<lambda>d. public_serial d = k) (devices (tr_shared t) @ (case tr_private t u of None \<Rightarrow> [] | Some p \<Rightarrow> devices p)) = Some e"
    by (auto simp: lookup_device_def ok_or_def find_device_def snapshot_for_eq split: option.splits)
  moreover obtain e' where "List.find (\<lambda>d. public_serial d = k) (devices (tr_shared t)) = Some e'"
    using assms(1) by (metis (mono_tags, lifting) find_None_iff not_Some_eq)
  ultimately show ?thesis by (auto simp: find_append_some dest: find_Some_in_set)
qed

theorem daemon_shared_serial_wins_witness:
  "public_serial (mk_entry ''A1'' (demo_backend ''local'', ''A1'', ''device'', [])) = ''A1''"
proof -
  let ?e = "mk_entry ''A1'' (demo_backend ''local'', ''A1'', ''device'', [])"
  let ?t = "\<lparr>tr_shared = \<lparr>devices = [?e]\<rparr>, tr_private = [7 \<mapsto> sanitized_to_snapshot (ds_devices (run_snap ''A1''))], tr_notified = 0\<rparr>"
  have "rewrite_upstream_service (''host:transport:'' @ ''A1'') (snapshot_for 7 ?t) [] = Inr (Some (?e, ''host:transport:A1''))"
    by (simp add: rewrite_upstream_service_def snapshot_for_def lookup_online_def lookup_device_def find_device_def
        bind_r_def ok_or_def mk_entry_def)
  from daemon_shared_serial_wins [OF _ this] show ?thesis by (simp add: mk_entry_def)
qed

text \<open>Host-global requests go through. Every request that names no device, is not one the daemon answers itself
  and is not one of the three refused ones reaches the shared local server exactly as the client sent it, whoever the client is.\<close>

definition answered_here :: "string \<Rightarrow> bool" where
  "answered_here service \<longleftrightarrow> service \<in> {''host:devices'', ''host:devices-l'', ''host:track-devices'', ''host:track-devices-l'',
     ''host:kill'', ''host:version'', ''host:get-state'', ''host:get-serialno'', ''host:get-connection-state''}"

theorem daemon_forwards_global:
  assumes "fst (read_packet (cl s)) = Inr service" "utf8_valid service"
    and "\<not> answered_here service" "\<not> is_unsafe_global_host service"
    and "rewrite_upstream_service service (snapshot_for uid (dc_tenants (d_core s)))
           (backend_order (snapshot_for uid (dc_tenants (d_core s))) (dc_local (d_core s))) = Inr None"
    and "dc_local (d_core s) = Some b"
  shows "handle_adb_client js env (Inr uid) s
    = forward_shared (ce_pipe env) (bc_addr b) service (s\<lparr>cl := snd (read_packet (cl s))\<rparr>)"
proof -
  obtain c where "read_packet (cl s) = (Inr service, c)" using assms(1) by (cases "read_packet (cl s)") simp
  then have "handle_adb_client js env (Inr uid) s = daemon_service js env uid service (s\<lparr>cl := snd (read_packet (cl s))\<rparr>)"
    using assms(2) by (simp add: handle_adb_client_def try_a_def on_client_def from_utf8_def)
  also have "\<dots> = forward_device js env uid service (snapshot_for uid (dc_tenants (d_core s))) (dc_local (d_core s)) (s\<lparr>cl := snd (read_packet (cl s))\<rparr>)"
    using assms(3,4) by (simp add: daemon_service_def daemon_answer_def answered_here_def)
  also have "\<dots> = forward_shared (ce_pipe env) (bc_addr b) service (s\<lparr>cl := snd (read_packet (cl s))\<rparr>)"
    using assms(5,6) by (simp add: forward_device_def transport_route_def route_multi_def bind_r_def)
  finally show ?thesis .
qed

theorem daemon_forwards_global_witness:
  "spliced (snd (handle_adb_client run_json demo_env (Inr 7) ((demo_dsess (packet ''host:killforward-all''))\<lparr>d_core := demo_core\<lparr>dc_local := Some (demo_backend ''local'')\<rparr>\<rparr>)))
     = [(open_conn ''OKAY'')\<lparr>tx := packet ''host:killforward-all''\<rparr>]"
proof -
  let ?s = "(demo_dsess (packet ''host:killforward-all''))\<lparr>d_core := demo_core\<lparr>dc_local := Some (demo_backend ''local'')\<rparr>\<rparr>"
  have rp: "read_packet (cl ?s) = (Inr ''host:killforward-all'', (cl ?s)\<lparr>rx := []\<rparr>)"
    by (rule read_packet_packet) (simp_all add: fits16_def demo_dsess_def)
  have u: "utf8_valid ''host:killforward-all''" by (rule utf8_ascii_test) simp
  have "rewrite_upstream_service ''host:killforward-all'' sn od = Inr None" for sn od
    by (simp add: rewrite_upstream_service_def)
  then have "handle_adb_client run_json demo_env (Inr 7) ?s
    = forward_shared (ce_pipe demo_env) (localhost 5038) ''host:killforward-all'' (?s\<lparr>cl := snd (read_packet (cl ?s))\<rparr>)"
    using daemon_forwards_global [OF _ u, of ?s 7 "demo_backend ''local''" run_json demo_env] rp
    by (simp add: answered_here_def is_unsafe_global_host_def starts_with_def demo_backend_def)
  then show ?thesis
    by (simp add: rp forward_shared_def try_a_def dial_def demo_dsess_def on_up_def write_service_def write_packet_unlimited
        splice_quiet_def splice_def demo_env_def)
qed

end
