(* ===== verification/Watcher.thy ===== *)
theory Watcher
  imports Backend
begin

text \<open>
  The watcher of one backend, \<^verbatim>\<open>run_backend_watcher\<close> of src/backend.rs: a probe decides between following
  \<^verbatim>\<open>track-devices-l\<close> with reconnects and polling \<^verbatim>\<open>devices-l\<close>. Neither loop ends; the number of rounds is an
  argument, and statements hold for every number.
\<close>

section \<open>Rounds\<close>

text \<open>One connection of the tracking watcher; its error is logged and the loop reconnects.\<close>

definition track_round :: "BackendConfig \<Rightarrow> BackendConfig list \<Rightarrow> (bsess, unit) act" where
  "track_round b order = try_a (watch_track_devices b order) (\<lambda>_. ret ())"

primrec rounds :: "nat \<Rightarrow> ('s, unit) act \<Rightarrow> ('s, unit) act" where
  "rounds 0 m = ret ()"
| "rounds (Suc n) m = then_a m (rounds n m)"

definition run_backend_watcher :: "nat \<Rightarrow> BackendConfig \<Rightarrow> BackendConfig list \<Rightarrow> (bsess, unit) act" where
  "run_backend_watcher n b order =
     try_a (probe_track_support b) (\<lambda>r. case r of
       Inr True \<Rightarrow> rounds n (track_round b order)
     | _ \<Rightarrow> rounds n (fallback_poll b order))"

section \<open>Lemmas\<close>

lemma rounds_inv:
  assumes "\<And>s. I s \<Longrightarrow> \<exists>s'. m s = (Inr (), s') \<and> I s'" "I s"
  shows "\<exists>s'. rounds n m s = (Inr (), s') \<and> I s'"
  using assms(2)
proof (induction n arbitrary: s)
  case (Suc n)
  obtain s1 where "m s = (Inr (), s1)" "I s1" using assms(1) [OF Suc.prems] by blast
  with Suc.IH [of s1] show ?case by (auto simp: then_a_def bind_a_def)
qed simp

text \<open>A backend nobody can reach.\<close>

definition unreachable :: "BackendConfig \<Rightarrow> (nat \<Rightarrow> SocketAddr \<Rightarrow> io_error + conn) \<Rightarrow> bool" where
  "unreachable b D \<longleftrightarrow> (\<forall>n. \<exists>e. D n (bc_addr b) = Inl e)"

lemma unreachable_connect:
  assumes "unreachable b (dialer s)"
  shows "\<exists>e. backend_connect (bc_addr b) c s = (Inl e, s\<lparr>dials := Suc (dials s)\<rparr>)"
proof -
  obtain e where "dialer s (dials s) (bc_addr b) = Inl e" using assms by (auto simp: unreachable_def)
  then show ?thesis by (auto simp: backend_connect_def bind_a_def dial_def)
qed

lemma unreachable_track:
  assumes "unreachable b (dialer s)"
  shows "track_round b order s = (Inr (), s\<lparr>dials := Suc (dials s)\<rparr>)"
  using unreachable_connect [OF assms, of "bc_pair_code b"]
  by (auto simp: track_round_def watch_track_devices_def bind_a_def try_a_def)

lemma unreachable_poll:
  assumes "unreachable b (dialer s)"
  shows "fallback_poll b order s = (Inr (), snd (store_publish order b [] (s\<lparr>dials := Suc (dials s)\<rparr>)))"
proof -
  have "fallback_poll b order s = store_publish order b [] (s\<lparr>dials := Suc (dials s)\<rparr>)"
    using unreachable_connect [OF assms, of "bc_pair_code b"]
    by (auto simp: fallback_poll_def fetch_or_empty_def fetch_devices_l_def query_def bind_a_def try_a_def)
  moreover have "fst (store_publish order b [] t) = Inr ()" for t by (simp add: store_publish_eq Let_def)
  ultimately show ?thesis by (metis prod.collapse)
qed

section \<open>Properties\<close>

text \<open>C25: A backend that disappears. A watcher that follows changes leaves the list of an unreachable backend as it was, however often
  it tries to reconnect: the devices it listed last stay in the registry. A watcher that polls empties the list in its first round.\<close>

theorem watcher_unreachable:
  assumes "unreachable b (dialer s)"
  shows "(\<exists>s'. rounds n (track_round b order) s = (Inr (), s') \<and> b_registry s' = b_registry s \<and> b_shared s' = b_shared s)
    \<and> (published order s \<longrightarrow> distinct (map bc_name order) \<longrightarrow> b \<in> set order \<longrightarrow>
       (\<exists>s'. rounds (Suc n) (fallback_poll b order) s = (Inr (), s') \<and> published order s' \<and> b_shared s' (bc_name b) = Some (b, [])
          \<and> (\<forall>d \<in> set (devices (dr_inner (b_registry s'))). backend_name d \<noteq> bc_name b)))"
proof (intro conjI impI)
  let ?I = "\<lambda>t. dialer t = dialer s \<and> b_registry t = b_registry s \<and> b_shared t = b_shared s"
  have "\<exists>t'. track_round b order t = (Inr (), t') \<and> ?I t'" if "?I t" for t
    using unreachable_track [of b t order] that assms by simp
  from rounds_inv [where I = ?I and m = "track_round b order" and s = s and n = n, OF this]
  show "\<exists>s'. rounds n (track_round b order) s = (Inr (), s') \<and> b_registry s' = b_registry s \<and> b_shared s' = b_shared s" by auto
next
  assume p: "published order s" "distinct (map bc_name order)" "b \<in> set order"
  let ?P = "\<lambda>t. dialer t = dialer s \<and> published order t"
  let ?I = "\<lambda>t. ?P t \<and> b_shared t (bc_name b) = Some (b, [])"
  have step: "\<exists>t'. fallback_poll b order t = (Inr (), t') \<and> ?I t'" if t: "?P t" for t
  proof -
    let ?t = "t\<lparr>dials := Suc (dials t)\<rparr>"
    have u: "unreachable b (dialer t)" using t assms by simp
    have "table_ok order (b_shared ?t)" using t by (simp add: published_def)
    from store_publish_published [OF this p(2,3), of "[]"]
    have "published order (snd (store_publish order b [] ?t))"
      "b_shared (snd (store_publish order b [] ?t)) (bc_name b) = Some (b, [])" by simp_all
    moreover have "dialer (snd (store_publish order b [] ?t)) = dialer s" using t by (simp add: store_publish_eq Let_def)
    ultimately show ?thesis using unreachable_poll [OF u, of order] by auto
  qed
  obtain s1 where s1: "fallback_poll b order s = (Inr (), s1)" "?I s1" using step [of s] p(1) by auto
  have "\<exists>t'. fallback_poll b order t = (Inr (), t') \<and> ?I t'" if "?I t" for t using step that by blast
  from rounds_inv [where I = ?I and m = "fallback_poll b order" and s = s1 and n = n, OF this s1(2)] s1(1)
  obtain s' where s': "rounds (Suc n) (fallback_poll b order) s = (Inr (), s')" "?I s'" by (auto simp: then_a_def bind_a_def)
  have "backend_name d \<noteq> bc_name b" if d: "d \<in> set (devices (dr_inner (b_registry s')))" for d
  proof -
    from d s'(2) obtain c body where c: "(c, body) \<in> set (map (\<lambda>b. the (b_shared s' (bc_name b))) order)" "body \<noteq> []" "backend_name d = bc_name c"
      using merge_entry_from_row by (fastforce simp: published_def)
    then obtain x where x: "x \<in> set order" "the (b_shared s' (bc_name x)) = (c, body)" by auto
    from x(1) s'(2) obtain xb where xb: "b_shared s' (bc_name x) = Some (x, xb)" by (auto simp: published_def table_ok_def)
    with x(2) have "x = c" "xb = body" by simp_all
    show ?thesis
    proof
      assume "backend_name d = bc_name b"
      then have n: "bc_name x = bc_name b" unfolding c(3) \<open>x = c\<close> .
      have "b_shared s' (bc_name b) = Some (b, [])" using s'(2) by blast
      with xb n have "xb = []" by (metis option.inject prod.inject)
      with \<open>xb = body\<close> c(2) show False by blast
    qed
  qed
  with s' show "\<exists>s'. rounds (Suc n) (fallback_poll b order) s = (Inr (), s') \<and> published order s' \<and> b_shared s' (bc_name b) = Some (b, [])
          \<and> (\<forall>d \<in> set (devices (dr_inner (b_registry s'))). backend_name d \<noteq> bc_name b)" by blast
qed

theorem watcher_unreachable_witness:
  "\<exists>s'. rounds 7 (track_round (demo_backend ''a'') [demo_backend ''a'', demo_backend ''b''])
       (demo_bsess\<lparr>b_shared := [''a'' \<mapsto> (demo_backend ''a'', ''S device''), ''b'' \<mapsto> (demo_backend ''b'', [])]\<rparr>) = (Inr (), s')
     \<and> b_shared s' ''a'' = Some (demo_backend ''a'', ''S device'')"
proof -
  let ?s = "demo_bsess\<lparr>b_shared := [''a'' \<mapsto> (demo_backend ''a'', ''S device''), ''b'' \<mapsto> (demo_backend ''b'', [])]\<rparr>"
  have "unreachable (demo_backend ''a'') (dialer ?s)" by (simp add: unreachable_def demo_bsess_def)
  from watcher_unreachable [OF this, of 7 "[demo_backend ''a'', demo_backend ''b'']"] show ?thesis by auto
qed

end
