(* ===== verification/Platform.thy ===== *)
theory Platform
  imports Tenant Rust_Num
begin

text \<open>
  What src/peercred.rs says about the platform and about local users: whether shared mode is supported and why
  not, the name shown for a user, and the credentials of a local peer. The compile-time
  \<^verbatim>\<open>cfg!(target_os)\<close> is the argument \<open>os\<close>; \<open>getpwuid\<close> is the entry of the password database, if
  the call finds one, and \<open>getsockopt\<close> the outcome of asking for \<^verbatim>\<open>SO_PEERCRED\<close>.
\<close>

datatype os = Linux | MacOs | Windows | OtherOs

definition multi_user_supported :: "os \<Rightarrow> bool" where
  "multi_user_supported os \<longleftrightarrow> os = Linux"

definition multi_user_unsupported_reason :: "os \<Rightarrow> string" where
  "multi_user_unsupported_reason os =
     (case os of
        Linux \<Rightarrow> ''''
      | MacOs \<Rightarrow> ''macOS does not support shared :5037 multi-user mode: no portable ''
          @ ''unprivileged API to resolve the owner UID of an accepted loopback TCP peer. ''
          @ ''Use one port per user with ADB_SERVER_SOCKET=tcp:127.0.0.1:<port>.''
      | Windows \<Rightarrow> ''Windows does not support shared :5037 multi-user mode yet. ''
          @ ''Use one port per user with ADB_SERVER_SOCKET=tcp:127.0.0.1:<port>.''
      | OtherOs \<Rightarrow> ''shared :5037 multi-user mode is only supported on Linux (same network namespace). ''
          @ ''Use one port per user or an isolated network namespace.'')"

definition username_for_uid :: "(Uid \<Rightarrow> bytes option) \<Rightarrow> Uid \<Rightarrow> string" where
  "username_for_uid getpwuid uid =
     (case Option.bind (getpwuid uid) from_utf8 of
        Some s \<Rightarrow> (if s \<noteq> [] then s else ''uid='' @ dec (unat uid))
      | None \<Rightarrow> ''uid='' @ dec (unat uid))"

record PeerCred =
  pc_uid :: Uid
  pc_pid :: u32
  pc_gid :: u32

text \<open>The kernel's process id is a signed integer; \<^verbatim>\<open>as u32\<close> keeps its bits.\<close>

definition peer_cred_fd :: "io_error + Uid \<times> int \<times> u32 \<Rightarrow> io_error + PeerCred" where
  "peer_cred_fd getsockopt =
     (case getsockopt of
        Inl e \<Rightarrow> Inl e
      | Inr (uid, pid, gid) \<Rightarrow> Inr \<lparr>pc_uid = uid, pc_pid = word_of_int pid, pc_gid = gid\<rparr>)"

text \<open>There is a reason exactly where shared mode is missing, and a user always has a name to show.\<close>

lemma reason_iff: "multi_user_unsupported_reason os = [] \<longleftrightarrow> multi_user_supported os"
  by (cases os) (simp_all add: multi_user_unsupported_reason_def multi_user_supported_def)

lemma username_shown: "username_for_uid getpwuid uid \<noteq> []"
  by (auto simp: username_for_uid_def split: option.split)

end
