(* ===== verification/Agent_Main.thy ===== *)
theory Agent_Main
  imports Agent Platform
begin

text \<open>
  A run of the agent from start to end, \<^verbatim>\<open>run_agent_with_shutdown\<close> of src/agent.rs: the platform check,
  the permissions of the configuration, the connection to the daemon, the registration and the first list, and
  the loop over the shutdown signal and the daemon's messages. The other tasks (the poller and the
  streams) are the steps of theory Agent between them.
\<close>

section \<open>Definitions\<close>

datatype AgentError = AgIo io_error | AgConfig string | AgUnsupported

definition AgentError_display :: "os \<Rightarrow> AgentError \<Rightarrow> string" where
  "AgentError_display os e = (case e of
     AgIo err \<Rightarrow> ''io error: '' @ err_msg err
   | AgConfig m \<Rightarrow> ''config error: '' @ m
   | AgUnsupported \<Rightarrow> multi_user_unsupported_reason os)"

definition AgentConfig_default :: "string \<Rightarrow> AgentConfig" where
  "AgentConfig_default default_path = \<lparr>ac_config_path = default_path, ac_control_abstract = DEFAULT_CONTROL_ABSTRACT,
     ac_control_path = None, ac_poll_interval = 1000, ac_inline_backends = None, ac_connect_retries = 50,
     ac_connect_retry_delay = 100\<rparr>"

text \<open>The state of a fresh agent on the connection it got.\<close>

definition agent_fresh :: "(nat \<Rightarrow> SocketAddr \<Rightarrow> io_error + conn) \<Rightarrow> conn \<Rightarrow> asess" where
  "agent_fresh net stream = \<lparr>cl = stream, dialer = net, dials = 0, spliced = [], a_routes = Map.empty, a_streams = Map.empty,
     a_tasks = [], a_compat = ([], {}), a_generation = 0, a_polling = True, a_running = True\<rparr>"

text \<open>The loop ends at the signal or when reading from the daemon fails; a closed connection is a normal
  end. \<open>None\<close>: it still runs when the events end.\<close>

datatype agent_main_event = AgShutdown | AgDo agent_event

definition agent_stop :: "asess \<Rightarrow> asess" where
  "agent_stop s = s\<lparr>a_polling := False, a_running := False\<rparr>"

fun agent_loop ::
  "hub_toml \<Rightarrow> json \<Rightarrow> AgentConfig \<Rightarrow> agent_main_event list \<Rightarrow> asess \<Rightarrow> (AgentError + unit) option \<times> asess" where
  "agent_loop toml js config [] s = (None, s)"
| "agent_loop toml js config (AgShutdown # evs) s = (Some (Inr ()), agent_stop s)"
| "agent_loop toml js config (AgDo ev # evs) s =
     (case (if ev = EvMessage then fst (on_client (read_message js) s) else Inr MPong) of
        Inl err \<Rightarrow> (Some (if err_kind err = UnexpectedEof then Inr () else Inl (AgIo err)), agent_step toml js config ev s)
      | Inr _ \<Rightarrow> agent_loop toml js config evs (agent_step toml js config ev s))"

text \<open>\<open>unix\<close> and \<open>sock\<close> are the outcomes of the attempts to connect, \<open>net\<close> is the network of the
  backends; \<open>fs1\<close> is the file system after the first poll.\<close>

definition run_agent ::
  "os \<Rightarrow> hub_toml \<Rightarrow> json \<Rightarrow> (nat \<Rightarrow> u8) \<Rightarrow> (nat \<Rightarrow> string \<Rightarrow> io_error + conn) \<Rightarrow> (nat \<Rightarrow> string \<Rightarrow> io_error + conn)
     \<Rightarrow> (nat \<Rightarrow> SocketAddr \<Rightarrow> io_error + conn) \<Rightarrow> AgentConfig \<Rightarrow> fsys \<Rightarrow> fsys \<Rightarrow> agent_main_event list
     \<Rightarrow> (AgentError + unit) option \<times> asess option \<times> fsys" where
  "run_agent os toml js rng unix sock net config fs fs1 evs =
     (if \<not> multi_user_supported os then (Some (Inl AgUnsupported), None, fs)
      else
        let fs0 = ensure_owner_only_config (ac_config_path config) fs in
        case connect_control_with_retry unix sock config of
          Inl e \<Rightarrow> (Some (Inl (AgIo e)), None, fs0)
        | Inr stream \<Rightarrow>
            (case agent_start toml js config rng fs0 fs1 (agent_fresh net stream) of
               (Inl e, s) \<Rightarrow> (Some (Inl (AgIo e)), Some s, fs0)
             | (Inr _, s) \<Rightarrow> (case agent_loop toml js config evs s of (r, s') \<Rightarrow> (r, Some s', fs0))))"

section \<open>Lemmas\<close>

text \<open>The permissions: nobody else can read the file when changing its mode succeeds, and nothing else changes.\<close>

lemma owner_only_mode:
  assumes "fs_left fs \<noteq> Some 0" "fs_files (ensure_owner_only_config path fs) path = Some n"
  shows "fn_mode n mod 64 = 0"
  using assms by (auto simp: ensure_owner_only_config_def fs_set_mode_def fs_try_def mode_600_def split: option.splits if_splits nat.splits)

lemma owner_only_text:
  "fs_read (ensure_owner_only_config path fs) p = fs_read fs p"
  by (auto simp: ensure_owner_only_config_def fs_set_mode_def fs_try_def fs_read_def split: option.splits nat.splits)

text \<open>A run of the loop is a run of the steps, up to the event that ends it, if any.\<close>

definition loop_read :: "json \<Rightarrow> asess \<Rightarrow> io_error + IpcMessage" where
  "loop_read js s = fst (read_message js (cl s))"

lemma loop_read_on: "fst (on_client (read_message js) s) = loop_read js s"
  by (simp add: loop_read_def on_client_def split: prod.split)

definition loop_end :: "io_error \<Rightarrow> AgentError + unit" where
  "loop_end err = (if err_kind err = UnexpectedEof then Inr () else Inl (AgIo err))"

lemma agent_loop_do:
  "agent_loop toml js config (AgDo ev # evs) s =
     (case (ev = EvMessage, loop_read js s) of
        (True, Inl err) \<Rightarrow> (Some (loop_end err), agent_step toml js config ev s)
      | _ \<Rightarrow> agent_loop toml js config evs (agent_step toml js config ev s))"
  by (auto simp: loop_read_on loop_end_def split: sum.split)

declare agent_loop.simps(3) [simp del]

text \<open>\<open>loop_ends \<dots> before s r s' evs\<close>: from \<open>s\<close> the loop does the steps \<open>before\<close>, in which every
  read from the daemon succeeds, and then the events are over, or it is told to stop, or a read fails.\<close>

definition reads_fine :: "hub_toml \<Rightarrow> json \<Rightarrow> AgentConfig \<Rightarrow> agent_event list \<Rightarrow> asess \<Rightarrow> bool" where
  "reads_fine toml js config before s \<longleftrightarrow>
     (\<forall>xs ys. before = xs @ EvMessage # ys \<longrightarrow> (\<exists>m. loop_read js (fold (agent_step toml js config) xs s) = Inr m))"

definition loop_ends ::
  "hub_toml \<Rightarrow> json \<Rightarrow> AgentConfig \<Rightarrow> agent_event list \<Rightarrow> asess \<Rightarrow> (AgentError + unit) option \<Rightarrow> asess \<Rightarrow> agent_main_event list \<Rightarrow> bool" where
  "loop_ends toml js config before s r s' evs \<longleftrightarrow> reads_fine toml js config before s
     \<and> (let t = fold (agent_step toml js config) before s in
         r = None \<and> evs = map AgDo before \<and> s' = t
       \<or> r = Some (Inr ()) \<and> (\<exists>rest. evs = map AgDo before @ AgShutdown # rest) \<and> s' = agent_stop t
       \<or> (\<exists>err rest. loop_read js t = Inl err \<and> r = Some (if err_kind err = UnexpectedEof then Inr () else Inl (AgIo err))
            \<and> evs = map AgDo before @ AgDo EvMessage # rest \<and> s' = agent_step toml js config EvMessage t))"

lemma loop_ends_step:
  assumes "loop_ends toml js config before (agent_step toml js config e s) r s' evs" "e = EvMessage \<Longrightarrow> \<exists>m. loop_read js s = Inr m"
  shows "loop_ends toml js config (e # before) s r s' (AgDo e # evs)"
proof -
  have "reads_fine toml js config (e # before) s"
    using assms by (auto simp: loop_ends_def reads_fine_def Cons_eq_append_conv)
  with assms(1) show ?thesis by (auto simp: loop_ends_def Let_def)
qed

lemma agent_loop_run:
  "agent_loop toml js config evs s = (r, s') \<Longrightarrow> \<exists>before. loop_ends toml js config before s r s' evs"
proof (induction evs arbitrary: s)
  case Nil
  then show ?case by (intro exI [of _ "[]"]) (simp add: loop_ends_def reads_fine_def)
next
  case (Cons ev evs)
  show ?case
  proof (cases ev)
    case AgShutdown
    with Cons.prems show ?thesis by (intro exI [of _ "[]"]) (simp add: loop_ends_def reads_fine_def)
  next
    case (AgDo e)
    show ?thesis
    proof (cases "e = EvMessage \<and> isl (loop_read js s)")
      case True
      with Cons.prems AgDo show ?thesis
        by (intro exI [of _ "[]"]) (auto simp: agent_loop_do isl_def loop_ends_def reads_fine_def loop_end_def)
    next
      case False
      then have "agent_loop toml js config evs (agent_step toml js config e s) = (r, s')"
        using Cons.prems AgDo by (auto simp: agent_loop_do split: sum.splits bool.splits)
      from Cons.IH [OF this] obtain before where
        "loop_ends toml js config before (agent_step toml js config e s) r s' evs" by blast
      from loop_ends_step [OF this] False AgDo show ?thesis by (cases "loop_read js s") auto
    qed
  qed
qed

text \<open>What the start has written.\<close>

definition register_message :: "(nat \<Rightarrow> u8) \<Rightarrow> IpcMessage" where
  "register_message rng = MRegisterAgent \<lparr>ra_version = PROTOCOL_VERSION, ra_capabilities = [''devices'', ''streams''],
     ra_instance_token = random_token rng\<rparr>"

lemma agent_start_eq:
  "agent_start toml js config rng fs0 fs1 =
     then_a (send js (register_message rng)) (try_a (refresh_and_publish toml js config fs0 fs1 False) (\<lambda>_. ret ()))"
  by (simp add: agent_start_def register_message_def)

text \<open>\<open>announced\<close>: from \<open>s\<close> the agent has registered, and published the list of a first round if that succeeded.\<close>

definition announced :: "hub_toml \<Rightarrow> json \<Rightarrow> AgentConfig \<Rightarrow> (nat \<Rightarrow> u8) \<Rightarrow> fsys \<Rightarrow> fsys \<Rightarrow> asess \<Rightarrow> asess \<Rightarrow> bool" where
  "announced toml js config rng fs0 fs1 s s' \<longleftrightarrow>
     (let s1 = s\<lparr>cl := snd (write_message js (register_message rng) (cl s))\<rparr> in
       tx (cl s1) = tx (cl s) @ ipc_frame js (register_message rng)
     \<and> (\<forall>c. agent_config toml fs0 config = Inr c \<and> fst (refresh_and_publish toml js config fs0 fs1 False s1) = Inr ()
          \<longrightarrow> tx (cl s') = tx (cl s1) @ ipc_frame js (snapshot_message False (a_generation s + 1) (round_list toml c fs0 fs1 s1))
            \<and> a_routes s' = route_table (round_list toml c fs0 fs1 s1)))"

lemma agent_start_announced:
  assumes "agent_start toml js config rng fs0 fs1 s = (Inr u, s')"
  shows "announced toml js config rng fs0 fs1 s s'"
proof -
  let ?s1 = "s\<lparr>cl := snd (write_message js (register_message rng) (cl s))\<rparr>"
  have w: "write_message js (register_message rng) (cl s) = (Inr (), cl ?s1)"
    and s': "s' = snd (refresh_and_publish toml js config fs0 fs1 False ?s1)"
    using assms by (auto simp: agent_start_eq then_a_def bind_a_def send_def on_client_def try_a_def split: prod.splits sum.splits)
  have "tx (cl s') = tx (cl ?s1) @ ipc_frame js (snapshot_message False (a_generation s + 1) (round_list toml c fs0 fs1 ?s1))
      \<and> a_routes s' = route_table (round_list toml c fs0 fs1 ?s1)"
    if c: "agent_config toml fs0 config = Inr c" "fst (refresh_and_publish toml js config fs0 fs1 False ?s1) = Inr ()" for c
  proof -
    have "refresh_and_publish toml js config fs0 fs1 False ?s1 = (Inr (), s')" using c(2) s' by (simp add: prod_eq_iff)
    then have "agent_round toml js fs0 fs1 False c ?s1 = (Inr (), s')"
      using c(1) by (simp add: refresh_and_publish_def bind_a_def)
    from agent_round_result(4,6) [OF this] write_message_Inr_tx show ?thesis by fastforce
  qed
  with write_message_Inr_tx [OF w] show ?thesis by (simp add: announced_def Let_def)
qed

lemma start_streams:
  "a_streams (snd (agent_start toml js config rng fs0 fs1 s)) = a_streams s \<and> a_tasks (snd (agent_start toml js config rng fs0 fs1 s)) = a_tasks s"
proof -
  have p: "keeps (\<lambda>s. (a_streams s, a_tasks s)) (send js m)" for m
    by (simp add: keeps_def)
  have "keeps (\<lambda>s. (a_streams s, a_tasks s)) (agent_start toml js config rng fs0 fs1)"
    unfolding agent_start_def then_a_def by (intro keeps_rules keeps_refresh p)
  then show ?thesis by (simp add: keeps_def)
qed

section \<open>Properties\<close>



end
