(* ===== verification/Proxy.thy ===== *)
theory Proxy
  imports Tunnel Config_Store Compat
begin

text \<open>
  One client of the authenticating proxy, \<^verbatim>\<open>proxy_connection\<close> of src/lib.rs: the pair-code gate, the
  version probe, the device policy check on transports, the filtered device lists, and the opaque
  relay to the adb server. Byte counts and durations (\<^verbatim>\<open>ProxyStats\<close>) are only logged: a served client
  is \<open>Some ()\<close>, a rejected one \<open>None\<close>.

  \<open>p_fs n\<close> is the file system at the \<open>n\<close>-th look of the session at the policy file.
\<close>

section \<open>Definitions\<close>

abbreviation VERSION :: string where "VERSION \<equiv> ''0.4.5''"

record psess = sess +
  p_policy :: ReloadableProxyPolicy
  p_fs :: "nat \<Rightarrow> fsys"
  p_looks :: nat

type_synonym px_toml = "string \<Rightarrow> string + RawDevice list option"

definition look :: "px_toml \<Rightarrow> psess \<Rightarrow> DevicePolicyTable \<times> psess" where
  "look toml s =
     (case ReloadableProxyPolicy_refresh toml (p_fs s (p_looks s)) (p_policy s) of
        (t, pol) \<Rightarrow> (t, s\<lparr>p_policy := pol, p_looks := Suc (p_looks s)\<rparr>))"

definition look_a :: "px_toml \<Rightarrow> (psess, DevicePolicyTable) act" where
  "look_a toml s = (case look toml s of (t, s') \<Rightarrow> (Inr t, s'))"

text \<open>The tracking loop: one filtered list per list of the adb server, until either side ends.\<close>

function proxy_track :: "px_toml \<Rightarrow> conn \<Rightarrow> psess \<Rightarrow> (io_error + unit) \<times> psess" where
  "proxy_track toml up s =
     (case read_packet up of
        (Inl err, _) \<Rightarrow> (if is_benign err then (Inr (), s) else (Inl err, s))
      | (Inr body, up') \<Rightarrow>
          (case look toml s of
             (table, s1) \<Rightarrow>
               (case on_client (write_packet (filter_devices_body (utf8_lossy body) (is_enabled table))) s1 of
                  (Inl err, s2) \<Rightarrow> (if is_benign err then (Inr (), s2) else (Inl err, s2))
                | (Inr _, s2) \<Rightarrow> proxy_track toml up' s2)))"
  by pat_completeness auto
termination
proof (relation "measure (\<lambda>(_, up, _). length (rx up))")
  fix toml :: px_toml and up up' :: conn and s :: psess and body p q
  assume "(p, up') = read_packet up" "p = Inr body"
  then have "read_packet up = (Inr body, up')" by simp
  then show "((toml, up', q), (toml, up, s)) \<in> measure (\<lambda>(_, up, _). length (rx up))"
    by (auto simp: read_packet_Inr_iff)
qed simp

declare proxy_track.simps [simp del]

definition serve_list :: "px_toml \<Rightarrow> string \<Rightarrow> conn \<Rightarrow> (psess, unit option) act" where
  "serve_list toml service upstream =
     on_up (write_service service) upstream (\<lambda>_ up1.
     on_up read_okay_payload up1 (\<lambda>body _.
     bind_a (look_a toml) (\<lambda>table.
     then_a (on_client (write_okay_payload (filter_devices_body (utf8_lossy body) (is_enabled table))))
       (ret (Some ())))))"

definition serve_track :: "px_toml \<Rightarrow> string \<Rightarrow> conn \<Rightarrow> (psess, unit option) act" where
  "serve_track toml service upstream =
     on_up (write_service service) upstream (\<lambda>_ up1.
     on_up read_status up1 (\<lambda>status up2.
     if status \<noteq> ''OKAY'' then
       then_a (on_client (write_all status))
      (then_a (if status = ''FAIL''
               then on_client (write_packet (unwrap_or [] (ok (fst (read_packet up2))))) else ret ())
         (ret (Some ())))
     else then_a (on_client write_okay) (then_a (proxy_track toml up2) (ret (Some ())))))"

definition serve_service :: "px_toml \<Rightarrow> pipe \<Rightarrow> SocketAddr \<Rightarrow> string \<Rightarrow> (psess, unit option) act" where
  "serve_service toml pipe target service =
     bind_a (dial target) (\<lambda>upstream.
     if service = ''host:devices'' \<or> service = ''host:devices-l'' then serve_list toml service upstream
     else if service = ''host:track-devices'' \<or> service = ''host:track-devices-l'' then serve_track toml service upstream
     else on_up (write_service service) upstream (\<lambda>_ up. then_a (splice pipe up) (ret (Some ()))))"

text \<open>The first ADB service of an authenticated client.\<close>

definition proxy_dispatch :: "px_toml \<Rightarrow> pipe \<Rightarrow> SocketAddr \<Rightarrow> string \<Rightarrow> (psess, unit option) act" where
  "proxy_dispatch toml pipe target service =
     (if service = PROXY_VERSION_SERVICE then
        then_a (on_client (write_okay_payload VERSION)) (ret (Some ()))
      else
      (case transport_serial service of
         Some serial \<Rightarrow>
           bind_a (look_a toml) (\<lambda>table.
           if \<not> is_enabled table serial then
             then_a (on_client (write_fail (''device '' @ [CHR 0x27] @ serial @ [CHR 0x27] @ '' is disabled'')))
               (ret (Some ()))
           else serve_service toml pipe target service)
       | None \<Rightarrow> serve_service toml pipe target service))"

definition proxy_connection :: "px_toml \<Rightarrow> pipe \<Rightarrow> SocketAddr \<Rightarrow> string \<Rightarrow> (psess, unit option) act" where
  "proxy_connection toml pipe target code =
     bind_a (on_client (accept_auth code)) (\<lambda>authed.
     if \<not> authed then ret None
     else
     try_a (on_client read_packet) (\<lambda>r. case r of
       Inl err \<Rightarrow> (if err_kind err = UnexpectedEof then ret (Some ()) else throw err)
     | Inr payload \<Rightarrow> proxy_dispatch toml pipe target (utf8_lossy payload)))"

section \<open>Lemmas\<close>

lemma rejected_no_effect:
  assumes "fst (accept_auth code (cl s)) \<noteq> Inr True"
  shows "dials (snd (proxy_connection toml pipe target code s)) = dials s
    \<and> spliced (snd (proxy_connection toml pipe target code s)) = spliced s
    \<and> fst (proxy_connection toml pipe target code s) \<noteq> Inr (Some ())"
  using assms by (auto simp: proxy_connection_def bind_a_def on_client_def split: prod.splits sum.splits)

text \<open>The state once the client was accepted and its service read.\<close>

definition served :: "psess \<Rightarrow> bytes \<Rightarrow> psess" where
  "served s r = s\<lparr>cl := (cl s)\<lparr>rx := r, tx := tx (cl s) @ ''OKAY''\<rparr>\<rparr>"

text \<open>An accepted client's first service.\<close>

definition asks :: "psess \<Rightarrow> string \<Rightarrow> string \<Rightarrow> bytes \<Rightarrow> bool" where
  "asks s code service r \<longleftrightarrow> rx (cl s) = packet (auth_service code) @ packet service @ r \<and> pair_code_ok code
     \<and> tx_room (cl s) = None \<and> fits16 service \<and> utf8_valid service"

lemma proxy_connection_asks:
  assumes "asks s code service r"
  shows "proxy_connection toml pipe target code s = proxy_dispatch toml pipe target service (served s r)"
proof -
  let ?c1 = "(cl s)\<lparr>rx := packet service @ r, tx := tx (cl s) @ ''OKAY''\<rparr>"
  have k: "pair_code_ok code" using assms by (simp add: asks_def)
  have "parse_auth_service (auth_service code) = Inr code"
    using k by (simp add: parse_auth_service_Inr_iff auth_service_def)
  then have "accept_auth code (cl s) = (Inr True, ?c1)"
    using assms accept_auth_on_packet [OF _ auth_frame(1) [OF k], of "cl s" "packet service @ r" code]
    by (simp add: asks_def auth_frame(2) [OF k])
  moreover have "read_packet ?c1 = (Inr service, (cl s)\<lparr>rx := r, tx := tx (cl s) @ ''OKAY''\<rparr>)"
    using assms read_packet_packet [of service ?c1 r] by (simp add: asks_def)
  moreover have "utf8_lossy service = service" using assms by (simp add: asks_def utf8_lossy_valid)
  ultimately show ?thesis
    by (simp add: proxy_connection_def bind_a_def try_a_def on_client_def served_def)
qed

text \<open>The adb server's side: connecting succeeds and gives a connection that accepts everything.\<close>

definition reaches :: "psess \<Rightarrow> SocketAddr \<Rightarrow> conn \<Rightarrow> bool" where
  "reaches s target up \<longleftrightarrow> dialer s (dials s) target = Inr up \<and> tx_room up = None"

lemma serve_service_reaches:
  assumes "reaches s target up"
  shows "serve_service toml pipe target service s =
    (if service = ''host:devices'' \<or> service = ''host:devices-l'' then serve_list toml service up
     else if service = ''host:track-devices'' \<or> service = ''host:track-devices-l'' then serve_track toml service up
     else on_up (write_service service) up (\<lambda>_ up. then_a (splice pipe up) (ret (Some ())))) (s\<lparr>dials := Suc (dials s)\<rparr>)"
  using assms by (simp add: serve_service_def bind_a_def dial_def reaches_def)

lemma write_service_unlimited: "tx_room c = None \<Longrightarrow> write_service p c = (Inr (), c\<lparr>tx := tx c @ packet p\<rparr>)"
  by (simp add: write_service_def write_packet_unlimited)

section \<open>Properties\<close>

text \<open>C39: The proxy's gate. Unless the client's first packet is the authentication request for the
  configured, well-formed code, the adb server is never contacted, nothing is relayed, and the client
  is not served; whatever the client sends and however its connection behaves.\<close>

theorem proxy_auth_gate:
  assumes "\<not> (pair_code_ok code \<and> (\<exists>hdr r. rx (cl s) = hdr @ auth_service code @ r \<and> length hdr = 4 \<and> parse_hex4 hdr = Inr 13))"
  shows "dials (snd (proxy_connection toml pipe target code s)) = dials s
    \<and> spliced (snd (proxy_connection toml pipe target code s)) = spliced s
    \<and> fst (proxy_connection toml pipe target code s) \<noteq> Inr (Some ())"
proof (rule rejected_no_effect, rule notI)
  assume "fst (accept_auth code (cl s)) = Inr True"
  then obtain c where "accept_auth code (cl s) = (Inr True, c)" by (metis prod.collapse)
  from accept_auth_True [OF this] assms show False by blast
qed

definition demo_psess :: "bytes \<Rightarrow> bytes \<Rightarrow> string list \<Rightarrow> psess" where
  "demo_psess client server disabled =
     \<lparr>cl = open_conn client, dialer = (\<lambda>_ _. Inr (open_conn server)), dials = 0, spliced = [],
      p_policy = \<lparr>rpp_path = ''c.toml'', rpp_cache = \<lparr>pc_mtime = Some 1,
        pc_table = fold (\<lambda>d. set_enabled d False) disabled DevicePolicyTable_default\<rparr>\<rparr>,
      p_fs = (\<lambda>_. file_fs ''off'' 1), p_looks = 0\<rparr>"

theorem proxy_auth_gate_witness:
  "dials (snd (proxy_connection demo_toml (\<lambda>c u. (Inr (), c, u)) (localhost 5037) ''ABCD1234'' (demo_psess ''0004host'' [] []))) = 0"
proof -
  have "\<not> (pair_code_ok ''ABCD1234'' \<and> (\<exists>hdr r. rx (cl (demo_psess ''0004host'' [] [])) = hdr @ auth_service ''ABCD1234'' @ r
      \<and> length hdr = 4 \<and> parse_hex4 hdr = Inr 13))"
    by (auto simp: demo_psess_def auth_service_def dest: arg_cong [of _ _ length])
  from proxy_auth_gate [OF this] show ?thesis by (simp add: demo_psess_def)
qed

lemma look_unfold: "look_a toml s = (Inr (fst (look toml s)), snd (look toml s))"
  by (simp add: look_a_def split: prod.split)

lemma look_keeps [simp]:
  "cl (snd (look toml s)) = cl s" "dials (snd (look toml s)) = dials s" "spliced (snd (look toml s)) = spliced s"
  "dialer (snd (look toml s)) = dialer s"
  by (simp_all add: look_def split: prod.split)

lemma look_served: "fst (look toml (served s r)) = fst (look toml s)"
  by (simp add: look_def served_def split: prod.split)

text \<open>A disabled device cannot be named in a transport. An accepted client that asks for
  \<^verbatim>\<open>host:transport:S\<close> or \<^verbatim>\<open>host:tport:serial:S\<close> with \<open>S\<close> disabled by the policy file in force gets
  OKAY for the authentication and a FAIL naming the device; the adb server is not contacted.\<close>

theorem proxy_disabled_refused:
  assumes "asks s code service r" "transport_serial service = Some serial"
    and "\<not> is_enabled (fst (look toml s)) serial"
  shows "fst (proxy_connection toml pipe target code s) = Inr (Some ())
    \<and> tx (cl (snd (proxy_connection toml pipe target code s)))
        = tx (cl s) @ ''OKAY'' @ fail_reply (''device '' @ [CHR 0x27] @ serial @ [CHR 0x27] @ '' is disabled'')
    \<and> dials (snd (proxy_connection toml pipe target code s)) = dials s
    \<and> spliced (snd (proxy_connection toml pipe target code s)) = spliced s"
proof -
  have "service \<noteq> PROXY_VERSION_SERVICE" using assms(2) by (auto simp: transport_serial_def)
  moreover have "tx_room (cl (served s r)) = None" using assms(1) by (simp add: asks_def served_def)
  ultimately show ?thesis
    using assms(2,3)
    by (simp add: proxy_connection_asks [OF assms(1)] proxy_dispatch_def bind_a_def look_unfold look_served then_a_def on_client_def
        write_fail_unlimited) (simp add: served_def)
qed

lemma demo_asks:
  "list_all (\<lambda>c. byte_val c < 128) service \<Longrightarrow> length service \<le> 65535 \<Longrightarrow>
     asks (demo_psess (packet ''auth:ABCD1234'' @ packet service) server ds) ''ABCD1234'' service []"
  by (auto simp: asks_def demo_psess_def auth_service_def pair_code_ok_def PAIR_ALPHABET_def fits16_def
      ascii_def list_all_iff intro!: utf8_valid_ascii)

lemma demo_look: "fst (look demo_toml (demo_psess client server ds)) = fold (\<lambda>d. set_enabled d False) ds DevicePolicyTable_default"
  by (simp add: look_def demo_psess_def ReloadableProxyPolicy_refresh_def fs_mtime_def file_fs_def)

theorem proxy_disabled_refused_witness:
  "dials (snd (proxy_connection demo_toml (\<lambda>c u. (Inr (), c, u)) (localhost 5037) ''ABCD1234''
     (demo_psess (packet ''auth:ABCD1234'' @ packet ''host:transport:A1'') [] [''A1'']))) = 0"
proof -
  have a: "asks (demo_psess (packet ''auth:ABCD1234'' @ packet ''host:transport:A1'') [] [''A1'']) ''ABCD1234'' ''host:transport:A1'' []"
    by (rule demo_asks) simp_all
  have t: "transport_serial ''host:transport:A1'' = Some ''A1''" by (simp add: transport_serial_def)
  have "\<not> is_enabled (fst (look demo_toml (demo_psess (packet ''auth:ABCD1234'' @ packet ''host:transport:A1'') [] [''A1'']))) ''A1''"
    by (simp add: demo_look is_enabled_set_enabled)
  from proxy_disabled_refused [OF a t this] show ?thesis by (simp add: demo_psess_def)
qed

text \<open>The policy is not complete. Services that select a device in another way are relayed to the adb
  server whatever the policy says: \<^verbatim>\<open>host-serial:S:..\<close> with any serial, and the selectors without a
  serial, which the adb server resolves to a device of its choice.\<close>

theorem proxy_policy_bypass:
  assumes "asks s code service r" "reaches s target up"
    and "service \<in> {''host:transport-any'', ''host:transport:any'', ''host:tport:any''} \<or> (\<exists>t. service = ''host-serial:'' @ t)"
  shows "spliced (snd (proxy_connection toml pipe target code s)) = spliced s @ [up\<lparr>tx := tx up @ packet service\<rparr>]"
proof -
  have "transport_serial service = None \<and> service \<noteq> PROXY_VERSION_SERVICE
    \<and> service \<notin> {''host:devices'', ''host:devices-l'', ''host:track-devices'', ''host:track-devices-l''}"
    using assms(3) by (auto simp: transport_serial_def)
  moreover have "reaches (served s r) target up" using assms(2) by (simp add: reaches_def served_def)
  moreover have "tx_room up = None" using assms(2) by (simp add: reaches_def)
  ultimately show ?thesis
    by (simp add: proxy_connection_asks [OF assms(1)] proxy_dispatch_def serve_service_reaches on_up_def write_service_unlimited
        then_a_def bind_a_def splice_def split: prod.split sum.split) (simp add: served_def)
qed

theorem proxy_policy_bypass_witness:
  "spliced (snd (proxy_connection demo_toml (\<lambda>c u. (Inr (), c, u)) (localhost 5037) ''ABCD1234''
     (demo_psess (packet ''auth:ABCD1234'' @ packet ''host-serial:A1:get-state'') [] [''A1''])))
   = [(open_conn [])\<lparr>tx := packet ''host-serial:A1:get-state''\<rparr>]"
proof -
  have a: "asks (demo_psess (packet ''auth:ABCD1234'' @ packet ''host-serial:A1:get-state'') [] [''A1'']) ''ABCD1234'' ''host-serial:A1:get-state'' []"
    by (rule demo_asks) simp_all
  have "reaches (demo_psess (packet ''auth:ABCD1234'' @ packet ''host-serial:A1:get-state'') [] [''A1'']) (localhost 5037) (open_conn [])"
    by (simp add: reaches_def demo_psess_def)
  from proxy_policy_bypass [OF a this] show ?thesis by (simp add: demo_psess_def)
qed

section \<open>Device lists\<close>

text \<open>The filtered list. For \<^verbatim>\<open>host:devices(-l)\<close> an accepted client gets the adb server's list
  without the disabled devices, in one OKAY reply.\<close>

theorem proxy_list_filtered:
  assumes "asks s code service r" "service = ''host:devices'' \<or> service = ''host:devices-l''"
    and "reaches s target up" "rx up = okay_reply body @ rest" "fits16 body" "utf8_valid body"
  shows "fst (proxy_connection toml pipe target code s) = Inr (Some ())
    \<and> tx (cl (snd (proxy_connection toml pipe target code s)))
        = tx (cl s) @ ''OKAY'' @ okay_reply (filter_devices_body body (is_enabled (fst (look toml s))))"
proof -
  have n: "transport_serial service = None" "service \<noteq> PROXY_VERSION_SERVICE"
    using assms(2) by (auto simp: transport_serial_def)
  have r: "reaches (served s r) target up" "tx_room up = None" using assms(3) by (simp_all add: reaches_def served_def)
  have ro: "read_okay_payload (up\<lparr>tx := tx up @ packet service\<rparr>) = (Inr body, up\<lparr>tx := tx up @ packet service, rx := rest\<rparr>)"
    using read_okay_payload_okay [OF assms(5), of "up\<lparr>tx := tx up @ packet service\<rparr>" rest] assms(4) by simp
  have lk: "fst (look toml (served s r\<lparr>dials := d\<rparr>)) = fst (look toml s)" for d
    by (simp add: look_def served_def split: prod.split)
  have room: "tx_room (cl (served s r)) = None" using assms(1) by (simp add: asks_def served_def)
  show ?thesis
    using assms(2) n r room
    by (simp add: proxy_connection_asks [OF assms(1)] proxy_dispatch_def serve_service_reaches serve_list_def
        on_up_def write_service_unlimited ro bind_a_def look_unfold lk then_a_def on_client_def
        write_okay_payload_unlimited utf8_lossy_valid [OF assms(6)])
      (simp add: served_def)
qed

theorem proxy_list_filtered_witness:
  "tx (cl (snd (proxy_connection demo_toml (\<lambda>c u. (Inr (), c, u)) (localhost 5037) ''ABCD1234''
     (demo_psess (packet ''auth:ABCD1234'' @ packet ''host:devices'')
        (okay_reply (''A1'' @ [TAB] @ ''device'' @ [LF] @ ''A2'' @ [TAB] @ ''device'' @ [LF])) [''A1'']))))
   = ''OKAY'' @ okay_reply (''A2'' @ [TAB] @ ''device'' @ [LF])"
proof -
  let ?b = "''A1'' @ [TAB] @ ''device'' @ [LF] @ ''A2'' @ [TAB] @ ''device'' @ [LF]"
  let ?s = "demo_psess (packet ''auth:ABCD1234'' @ packet ''host:devices'') (okay_reply ?b) [''A1'']"
  have a: "asks ?s ''ABCD1234'' ''host:devices'' []" by (rule demo_asks) simp_all
  have r: "reaches ?s (localhost 5037) (open_conn (okay_reply ?b))" by (simp add: reaches_def demo_psess_def)
  have v: "fits16 ?b" "utf8_valid ?b" by (simp_all add: utf8_valid_ascii ascii_def fits16_def)
  have "filter_devices_body ?b (\<lambda>s. s \<noteq> ''A1'') = ''A2'' @ [TAB] @ ''device'' @ [LF]" by code_simp
  moreover have "is_enabled (fst (look demo_toml ?s)) = (\<lambda>s. s \<noteq> ''A1'')"
    by (simp add: demo_look is_enabled_set_enabled fun_eq_iff)
  moreover have "tx (cl ?s) = []" by (simp add: demo_psess_def)
  moreover have "rx (open_conn (okay_reply ?b)) = okay_reply ?b @ []" by simp
  ultimately show ?thesis
    using proxy_list_filtered [OF a disjI1 [OF refl] r _ v, of "[]" demo_toml "\<lambda>c u. (Inr (), c, u)"]
    by (simp del: append.simps)
qed

text \<open>The lists a tracking client should see: each list of the adb server filtered by the policy in force
  when it arrives.\<close>

fun proxy_views :: "px_toml \<Rightarrow> psess \<Rightarrow> string list \<Rightarrow> string list" where
  "proxy_views toml s [] = []"
| "proxy_views toml s (b # bs) =
     filter_devices_body b (is_enabled (fst (look toml s))) # proxy_views toml (snd (look toml s)) bs"

lemma look_cl: "look toml (s\<lparr>cl := c\<rparr>) = (fst (look toml s), (snd (look toml s))\<lparr>cl := c\<rparr>)"
  by (simp add: look_def split: prod.split)

lemma look_dials: "look toml (s\<lparr>dials := d\<rparr>) = (fst (look toml s), (snd (look toml s))\<lparr>dials := d\<rparr>)"
  by (simp add: look_def split: prod.split)

lemma proxy_views_cl [simp]: "proxy_views toml (s\<lparr>cl := c\<rparr>) bs = proxy_views toml s bs"
  by (induction bs arbitrary: s) (simp_all add: look_cl)

lemma proxy_views_dials [simp]: "proxy_views toml (s\<lparr>dials := d\<rparr>) bs = proxy_views toml s bs"
  by (induction bs arbitrary: s) (simp_all add: look_dials)

lemma proxy_track_output:
  assumes "\<forall>b \<in> set bodies. fits16 b \<and> utf8_valid b"
    and "rx up = concat (map packet bodies)" "rx_end up = None" "tx_room (cl s) = None"
  shows "fst (proxy_track toml up s) = Inr ()
    \<and> tx (cl (snd (proxy_track toml up s))) = tx (cl s) @ concat (map packet (proxy_views toml s bodies))"
  using assms
proof (induction bodies arbitrary: up s)
  case Nil
  then have "read_packet up = (Inl (IoErr UnexpectedEof ''early eof''), up\<lparr>rx := []\<rparr>)"
    by (simp add: read_packet_def bind_a_def read_exact_eof)
  then show ?case by (subst (1 2) proxy_track.simps) (simp add: is_benign_def)
next
  case (Cons b bs)
  let ?up = "up\<lparr>rx := concat (map packet bs)\<rparr>"
  let ?v = "filter_devices_body b (is_enabled (fst (look toml s)))"
  let ?s = "(snd (look toml s))\<lparr>cl := (cl s)\<lparr>tx := tx (cl s) @ packet ?v\<rparr>\<rparr>"
  have "read_packet up = (Inr b, ?up)" using Cons.prems by (intro read_packet_packet) simp_all
  moreover obtain t s1 where lk: "look toml s = (t, s1)" by fastforce
  moreover have "cl s1 = cl s" using look_keeps(1) [of toml s] lk by simp
  ultimately have "proxy_track toml up s = proxy_track toml ?up ?s"
    using Cons.prems
    by (subst proxy_track.simps) (simp add: on_client_def write_packet_unlimited utf8_lossy_valid)
  then show ?case using Cons.IH [of ?up ?s] Cons.prems by simp
qed

text \<open>Filtered tracking. A tracking client of the proxy gets OKAY and then, for every list the adb
  server sends, that list without the devices disabled at that moment, in order; when the server closes
  the connection the session ends normally.\<close>

theorem proxy_track_filtered:
  assumes "asks s code service r" "service = ''host:track-devices'' \<or> service = ''host:track-devices-l''"
    and "reaches s target up" "rx up = ''OKAY'' @ concat (map packet bodies)" "rx_end up = None"
    and "\<forall>b \<in> set bodies. fits16 b \<and> utf8_valid b"
  shows "fst (proxy_connection toml pipe target code s) = Inr (Some ())
    \<and> tx (cl (snd (proxy_connection toml pipe target code s)))
        = tx (cl s) @ ''OKAY'' @ ''OKAY'' @ concat (map packet (proxy_views toml s bodies))"
proof -
  have n: "transport_serial service = None" "service \<noteq> PROXY_VERSION_SERVICE"
    "service \<noteq> ''host:devices'' \<and> service \<noteq> ''host:devices-l''"
    using assms(2) by (auto simp: transport_serial_def)
  have r: "reaches (served s r) target up" "tx_room up = None" using assms(3) by (simp_all add: reaches_def served_def)
  let ?up = "up\<lparr>tx := tx up @ packet service, rx := concat (map packet bodies)\<rparr>"
  have st: "read_status (up\<lparr>tx := tx up @ packet service\<rparr>) = (Inr ''OKAY'', ?up)"
    using read_status_okay [of "up\<lparr>tx := tx up @ packet service\<rparr>" "concat (map packet bodies)"] assms(4) by simp
  have room: "tx_room (cl (served s r)) = None" using assms(1) by (simp add: asks_def served_def)
  let ?t = "served s r\<lparr>dials := Suc (dials (served s r)), cl := (cl (served s r))\<lparr>tx := tx (cl (served s r)) @ ''OKAY''\<rparr>\<rparr>"
  have "fst (proxy_track toml ?up ?t) = Inr ()
    \<and> tx (cl (snd (proxy_track toml ?up ?t))) = tx (cl ?t) @ concat (map packet (proxy_views toml ?t bodies))"
    using assms(5,6) room by (intro proxy_track_output) simp_all
  moreover have "proxy_views toml ?t bodies = proxy_views toml s bodies" by (simp add: served_def)
  moreover have "proxy_connection toml pipe target code s = then_a (proxy_track toml ?up) (ret (Some ())) ?t"
    using assms(2) n r room
    by (simp add: proxy_connection_asks [OF assms(1)] proxy_dispatch_def serve_service_reaches serve_track_def
        on_up_def write_service_unlimited st then_a_def bind_a_def on_client_def write_okay_unlimited)
  ultimately show ?thesis
    by (auto simp: then_a_def bind_a_def served_def split: prod.split sum.split)
qed

theorem proxy_track_filtered_witness:
  "tx (cl (snd (proxy_connection demo_toml (\<lambda>c u. (Inr (), c, u)) (localhost 5037) ''ABCD1234''
     (demo_psess (packet ''auth:ABCD1234'' @ packet ''host:track-devices'') (''OKAY'' @ packet ''A1 device'' @ packet []) [''A1'']))))
   = ''OKAYOKAY'' @ packet [] @ packet []"
proof -
  let ?s = "demo_psess (packet ''auth:ABCD1234'' @ packet ''host:track-devices'') (''OKAY'' @ packet ''A1 device'' @ packet []) [''A1'']"
  have a: "asks ?s ''ABCD1234'' ''host:track-devices'' []" by (rule demo_asks) simp_all
  have r: "reaches ?s (localhost 5037) (open_conn (''OKAY'' @ packet ''A1 device'' @ packet []))" by (simp add: reaches_def demo_psess_def)
  have v: "\<forall>b \<in> set [''A1 device'', []]. fits16 b \<and> utf8_valid b" by (simp add: utf8_valid_ascii ascii_def fits16_def)
  have "filter_devices_body ''A1 device'' (\<lambda>s. s \<noteq> ''A1'') = []" by code_simp
  moreover have "filter_devices_body [] f = []" for f by (simp add: filter_devices_body_def)
  moreover have "is_enabled (fst (look demo_toml ?s)) = (\<lambda>s. s \<noteq> ''A1'')"
    by (simp add: demo_look is_enabled_set_enabled fun_eq_iff)
  moreover have "tx (cl ?s) = []" by (simp add: demo_psess_def)
  ultimately show ?thesis
    using proxy_track_filtered [OF a disjI1 [OF refl] r _ _ v, of demo_toml "\<lambda>c u. (Inr (), c, u)"] by simp
qed

end
