(* ===== verification/Local.thy ===== *)
theory Local
  imports Backend
begin

text \<open>
  The real adb server on a side port, src/local.rs, and the wait for a port of src/lib.rs. A machine adds
  to a session's network the environment, the programs it can run and a clock in milliseconds: \<open>m_took n\<close>
  is how long the \<open>n\<close>-th connection attempt takes, \<open>m_exec n\<close> what the \<open>n\<close>-th program started does. Both
  waiting loops are instances of the locale \<open>waiting\<close>, which bounds the number of attempts.
\<close>

section \<open>State\<close>

record ExitStatus =
  xs_success :: bool
  xs_text :: string

record machine = sess +
  m_env :: "string \<rightharpoonup> string"
  m_is_file :: "string \<Rightarrow> bool"
  m_exec :: "nat \<Rightarrow> string \<Rightarrow> string list \<Rightarrow> io_error + ExitStatus"
  m_ran :: "(string \<times> string list) list"
  m_clock :: nat
  m_took :: "nat \<Rightarrow> nat"

definition run_command :: "string \<Rightarrow> string list \<Rightarrow> ('x machine_scheme, ExitStatus) act" where
  "run_command prog args s = (m_exec s (length (m_ran s)) prog args, s\<lparr>m_ran := m_ran s @ [(prog, args)]\<rparr>)"

definition sleep_ms :: "nat \<Rightarrow> ('x machine_scheme, unit) act" where
  "sleep_ms ms s = (Inr (), s\<lparr>m_clock := m_clock s + ms\<rparr>)"

text \<open>A connection attempt and the time it takes.\<close>

definition attempt :: "SocketAddr \<Rightarrow> ('x machine_scheme, conn) act" where
  "attempt addr s = (case dial addr s of (r, s') \<Rightarrow> (r, s'\<lparr>m_clock := m_clock s' + m_took s' (dials s)\<rparr>))"

section \<open>The local server\<close>

record LocalAdb =
  la_addr :: SocketAddr
  la_adb_path :: string
  la_started_by_us :: bool

definition local_backend_name :: string where
  "local_backend_name = ''local''"

text \<open>\<^verbatim>\<open>Path::join\<close> of a relative name, and \<^verbatim>\<open>env::split_paths\<close> on Unix.\<close>

definition path_join :: "string \<Rightarrow> string \<Rightarrow> string" where
  "path_join d f = (if d = [] \<or> last d = CHR ''/'' then d @ f else d @ ''/'' @ f)"

definition which :: "string \<Rightarrow> 'x machine_scheme \<Rightarrow> string option" where
  "which bin s = Option.bind (m_env s ''PATH'')
     (\<lambda>path. find (m_is_file s) (map (\<lambda>dir. path_join dir bin) (split_on (CHR '':'') path)))"

definition adb_missing :: io_error where
  "adb_missing = IoErr NotFound ''adb not found in PATH (set ADB=/path/to/adb)''"

definition find_adb :: "'x machine_scheme \<Rightarrow> io_error + string" where
  "find_adb s =
     (case m_env s ''ADB'' of
        Some p \<Rightarrow> (if m_is_file s p then Inr p else ok_or (which ''adb'' s) adb_missing)
      | None \<Rightarrow> ok_or (which ''adb'' s) adb_missing)"

definition tcp_ready :: "SocketAddr \<Rightarrow> 'x machine_scheme \<Rightarrow> bool \<times> 'x machine_scheme" where
  "tcp_ready addr s = (case attempt addr s of (r, s') \<Rightarrow> (is_ok r, s'))"

text \<open>\<open>until\<close> is the time at which \<^verbatim>\<open>start.elapsed() >= max_wait\<close> becomes true.\<close>

function wait_loop :: "SocketAddr \<Rightarrow> nat \<Rightarrow> 'x machine_scheme \<Rightarrow> (io_error + unit) \<times> 'x machine_scheme" where
  "wait_loop addr until s =
     (case tcp_ready addr s of (ready, s1) \<Rightarrow>
        if ready then (Inr (), s1)
        else if m_clock s1 \<ge> until then
          (Inl (IoErr TimedOut (''local adb server at '' @ addr_string addr @ '' did not become ready'')), s1)
        else wait_loop addr until (snd (sleep_ms 50 s1)))"
  by pat_completeness auto
termination
  by (relation "measure (\<lambda>(_, until, s). until - m_clock s)")
    (auto simp: tcp_ready_def attempt_def dial_def sleep_ms_def split: if_splits prod.splits)

declare wait_loop.simps [simp del]

definition wait_until_ready :: "SocketAddr \<Rightarrow> nat \<Rightarrow> ('x machine_scheme, unit) act" where
  "wait_until_ready addr max_wait s = wait_loop addr (m_clock s + max_wait) s"

text \<open>The side server is started on a port nobody answers on.\<close>

definition start_server :: "string \<Rightarrow> u16 \<Rightarrow> ('x machine_scheme, LocalAdb) act" where
  "start_server adb_path port =
     bind_a (run_command adb_path [''-P'', dec (unat port), ''start-server'']) (\<lambda>status.
     if \<not> xs_success status then
       throw (IoErr OtherKind (''adb -P '' @ dec (unat port) @ '' start-server failed with '' @ xs_text status))
     else
       then_a (wait_until_ready (localhost port) 5000)
         (ret \<lparr>la_addr = localhost port, la_adb_path = adb_path, la_started_by_us = True\<rparr>))"

definition use_server :: "string \<Rightarrow> u16 \<Rightarrow> ('x machine_scheme, LocalAdb) act" where
  "use_server adb_path port s =
     (case tcp_ready (localhost port) s of (ready, s1) \<Rightarrow>
        if ready then (Inr \<lparr>la_addr = localhost port, la_adb_path = adb_path, la_started_by_us = False\<rparr>, s1)
        else start_server adb_path port s1)"

definition prepare :: "u16 \<Rightarrow> ('x machine_scheme, LocalAdb) act" where
  "prepare port s =
     bind_a (lift_r (find_adb s)) (\<lambda>adb_path.
     try_a (run_command adb_path [''kill-server'']) (\<lambda>_.
     then_a (sleep_ms 150) (use_server adb_path port))) s"

text \<open>What is left when the value is dropped.\<close>

definition LocalAdb_drop :: "LocalAdb \<Rightarrow> 'x machine_scheme \<Rightarrow> 'x machine_scheme" where
  "LocalAdb_drop l s =
     (if \<not> la_started_by_us l then s
      else snd (run_command (la_adb_path l) [''-P'', dec (unat (addr_port (la_addr l))), ''kill-server''] s))"

section \<open>Waiting for a port\<close>

datatype ProxyError = ProxyIo io_error | PortNotReady SocketAddr nat

text \<open>\<^verbatim>\<open>timeout(100 ms, connect)\<close>: an attempt that takes longer is abandoned.\<close>

definition timed_attempt :: "SocketAddr \<Rightarrow> 'x machine_scheme \<Rightarrow> (io_error + conn) option \<times> 'x machine_scheme" where
  "timed_attempt addr s =
     (case dial addr s of (r, s1) \<Rightarrow>
        if m_took s (dials s) \<le> 100 then (Some r, s1\<lparr>m_clock := m_clock s1 + m_took s (dials s)\<rparr>)
        else (None, s1\<lparr>m_clock := m_clock s1 + 100\<rparr>))"

function port_loop :: "SocketAddr \<Rightarrow> nat \<Rightarrow> nat \<Rightarrow> 'x machine_scheme \<Rightarrow> (ProxyError + unit) \<times> 'x machine_scheme" where
  "port_loop addr max_wait until s =
     (case timed_attempt addr s of (r, s1) \<Rightarrow>
        (case r of
           Some (Inr _) \<Rightarrow> (Inr (), s1)
         | Some (Inl err) \<Rightarrow>
             if m_clock s1 \<ge> until then (Inl (ProxyIo err), s1)
             else port_loop addr max_wait until (snd (sleep_ms 10 s1))
         | None \<Rightarrow>
             if m_clock s1 \<ge> until then (Inl (PortNotReady addr max_wait), s1)
             else port_loop addr max_wait until (snd (sleep_ms 10 s1))))"
  by pat_completeness auto
termination
  by (relation "measure (\<lambda>(_, _, until, s). until - m_clock s)")
    (auto simp: timed_attempt_def dial_def sleep_ms_def split: if_splits prod.splits)

declare port_loop.simps [simp del]

definition wait_for_port :: "SocketAddr \<Rightarrow> nat \<Rightarrow> 'x machine_scheme \<Rightarrow> (ProxyError + unit) \<times> 'x machine_scheme" where
  "wait_for_port addr max_wait s = port_loop addr max_wait (m_clock s + max_wait) s"

section \<open>Waiting\<close>

lemma pauses_fit:
  assumes "0 < p" "c \<le> c'" "c' < u"
  shows "Suc ((u - (c' + p) + (p - 1)) div p) \<le> (u - c + (p - 1)) div (p::nat)"
proof (cases "c' + p \<le> u")
  case True
  have "Suc ((u - (c' + p) + (p - 1)) div p) = (u - (c' + p) + (p - 1) + p) div p"
    by (subst div_add_self2) (use assms(1) in simp_all)
  also have "\<dots> \<le> (u - c + (p - 1)) div p" by (rule div_le_mono) (use True assms in linarith)
  finally show ?thesis .
next
  case False
  then have "(u - (c' + p) + (p - 1)) div p = 0" using assms(1) by simp
  moreover have "p div p \<le> (u - c + (p - 1)) div p" by (rule div_le_mono) (use assms in linarith)
  ultimately show ?thesis using assms(1) by simp
qed

text \<open>A loop of attempts. An attempt either settles the result, or says what the result is if it was
  the last one; when time is left the loop pauses and tries again.\<close>

locale waiting =
  fixes loop :: "nat \<Rightarrow> 'x machine_scheme \<Rightarrow> 'r \<times> 'x machine_scheme"
    and once :: "'x machine_scheme \<Rightarrow> ('r + 'r) \<times> 'x machine_scheme"
    and pause :: nat
  assumes loop: "loop until s =
      (case once s of
         (Inr r, s1) \<Rightarrow> (r, s1)
       | (Inl r, s1) \<Rightarrow> if m_clock s1 \<ge> until then (r, s1) else loop until (s1\<lparr>m_clock := m_clock s1 + pause\<rparr>))"
    and once_dials: "once s = (r, s1) \<Longrightarrow> dials s1 = Suc (dials s)"
    and once_clock: "once s = (r, s1) \<Longrightarrow> m_clock s \<le> m_clock s1"
    and once_ran: "once s = (r, s1) \<Longrightarrow> m_ran s1 = m_ran s"
    and once_dialer: "once s = (r, s1) \<Longrightarrow> dialer s1 = dialer s"
    and pause: "0 < pause"
begin

definition paused :: "'x machine_scheme \<Rightarrow> 'x machine_scheme" where
  "paused s = s\<lparr>m_clock := m_clock s + pause\<rparr>"

lemma paused [simp]:
  "dials (paused s) = dials s" "m_ran (paused s) = m_ran s" "m_clock (paused s) = m_clock s + pause" "dialer (paused s) = dialer s"
  by (simp_all add: paused_def)

lemma loop_cases:
  obtains (stop) x s1 where "once s = (x, s1)" "loop until s = (case x of Inl r \<Rightarrow> r | Inr r \<Rightarrow> r, s1)"
      "\<exists>r. x = Inr r \<or> x = Inl r \<and> until \<le> m_clock s1"
  | (again) r s1 where "once s = (Inl r, s1)" "m_clock s1 < until" "loop until s = loop until (paused s1)"
      "until - m_clock (paused s1) < until - m_clock s"
proof -
  obtain x s1 where o1: "once s = (x, s1)" by force
  note c = once_clock [OF o1]
  show thesis
  proof (cases "(\<exists>r. x = Inl r) \<and> m_clock s1 < until")
    case True
    then obtain r where r: "x = Inl r" "m_clock s1 < until" by blast
    have "until - m_clock (paused s1) < until - m_clock s" using c r(2) pause paused(3) [of s1] by linarith
    moreover have "loop until s = loop until (paused s1)" using r o1 by (subst loop) (simp add: paused_def)
    ultimately show ?thesis using again o1 r by blast
  next
    case False
    then have "\<exists>r. x = Inr r \<or> x = Inl r \<and> until \<le> m_clock s1" by (cases x) auto
    moreover have "loop until s = (case x of Inl r \<Rightarrow> r | Inr r \<Rightarrow> r, s1)"
      using False o1 by (subst loop) (auto split: sum.splits)
    ultimately show ?thesis using stop o1 by blast
  qed
qed

lemma ran: "m_ran (snd (loop until s)) = m_ran s"
proof (induction "until - m_clock s" arbitrary: s rule: less_induct)
  case less
  show ?case
    by (cases rule: loop_cases [of s until]) (use less once_ran in \<open>fastforce+\<close>)
qed

text \<open>One attempt at least, and one more for every pause that fits into the time.\<close>

lemma attempts:
  "dials s < dials (snd (loop until s)) \<and> dials (snd (loop until s)) \<le> dials s + 1 + (until - m_clock s + (pause - 1)) div pause"
proof (induction "until - m_clock s" arbitrary: s rule: less_induct)
  case less
  show ?case
  proof (cases rule: loop_cases [of s until])
    case (stop x s1)
    then show ?thesis using once_dials by fastforce
  next
    case (again r s1)
    from pauses_fit [OF pause once_clock [OF again(1)] again(2)] less [OF again(4)] once_dials [OF again(1)]
    show ?thesis unfolding again(3) by simp
  qed
qed

text \<open>The result is the one of the last attempt; it was not settled only if the time had come.\<close>

lemma outcome:
  "\<exists>t x. once t = (x, snd (loop until s)) \<and> dials s \<le> dials t \<and> dialer t = dialer s \<and> fst (loop until s) = (case x of Inl r \<Rightarrow> r | Inr r \<Rightarrow> r)
     \<and> ((\<exists>r. x = Inl r) \<longrightarrow> until \<le> m_clock (snd (loop until s)))"
proof (induction "until - m_clock s" arbitrary: s rule: less_induct)
  case less
  show ?case
  proof (cases rule: loop_cases [of s until])
    case (stop x s1)
    then show ?thesis by (intro exI [of _ s] exI [of _ x]) auto
  next
    case (again r s1)
    from less [OF again(4)] once_dials [OF again(1)] once_dialer [OF again(1)] show ?thesis unfolding again(3)
      by (metis Suc_leD paused(1,4))
  qed
qed

end

definition ready_once :: "SocketAddr \<Rightarrow> 'x machine_scheme \<Rightarrow> ((io_error + unit) + (io_error + unit)) \<times> 'x machine_scheme" where
  "ready_once addr s = (case tcp_ready addr s of (ready, s1) \<Rightarrow>
     (if ready then Inr (Inr ())
      else Inl (Inl (IoErr TimedOut (''local adb server at '' @ addr_string addr @ '' did not become ready''))), s1))"

definition port_once :: "SocketAddr \<Rightarrow> nat \<Rightarrow> 'x machine_scheme \<Rightarrow> ((ProxyError + unit) + (ProxyError + unit)) \<times> 'x machine_scheme" where
  "port_once addr max_wait s = (case timed_attempt addr s of (r, s1) \<Rightarrow>
     (case r of Some (Inr _) \<Rightarrow> Inr (Inr ()) | Some (Inl err) \<Rightarrow> Inl (Inl (ProxyIo err)) | None \<Rightarrow> Inl (Inl (PortNotReady addr max_wait)), s1))"

interpretation server_wait: waiting "wait_loop addr" "ready_once addr" 50 for addr
proof unfold_locales
  fix until and s :: "'a machine_scheme"
  show "wait_loop addr until s =
      (case ready_once addr s of
         (Inr r, s1) \<Rightarrow> (r, s1)
       | (Inl r, s1) \<Rightarrow> if m_clock s1 \<ge> until then (r, s1) else wait_loop addr until (s1\<lparr>m_clock := m_clock s1 + 50\<rparr>))"
    by (subst wait_loop.simps) (auto simp: ready_once_def sleep_ms_def split: prod.split)
qed (auto simp: ready_once_def tcp_ready_def attempt_def dial_def split: prod.splits)

interpretation port_wait: waiting "port_loop addr max_wait" "port_once addr max_wait" 10 for addr max_wait
proof unfold_locales
  fix until and s :: "'a machine_scheme"
  show "port_loop addr max_wait until s =
      (case port_once addr max_wait s of
         (Inr r, s1) \<Rightarrow> (r, s1)
       | (Inl r, s1) \<Rightarrow> if m_clock s1 \<ge> until then (r, s1) else port_loop addr max_wait until (s1\<lparr>m_clock := m_clock s1 + 10\<rparr>))"
    by (subst port_loop.simps) (auto simp: port_once_def sleep_ms_def split: prod.split sum.split option.split)
qed (auto simp: port_once_def timed_attempt_def dial_def split: prod.splits if_splits)

lemma server_wait_conn:
  assumes "wait_until_ready addr max_wait s = (r, s')"
  shows "(r = Inr () \<longleftrightarrow> is_ok (dialer s (dials s' - 1) addr)) \<and> (r = Inr () \<or> m_clock s + max_wait \<le> m_clock s')"
proof -
  let ?u = "m_clock s + max_wait"
  have w: "wait_loop addr ?u s = (r, s')" using assms by (simp add: wait_until_ready_def)
  obtain t x where t: "ready_once addr t = (x, s')" "dialer t = dialer s"
    "r = (case x of Inl r \<Rightarrow> r | Inr r \<Rightarrow> r)" "(\<exists>r. x = Inl r) \<longrightarrow> ?u \<le> m_clock s'"
    using server_wait.outcome [of addr ?u s] by (auto simp: w)
  have "dials s' = Suc (dials t)" by (rule server_wait.once_dials [OF t(1)])
  moreover have "r = Inr () \<longleftrightarrow> is_ok (dialer t (dials t) addr)" "r = Inr () \<or> ?u \<le> m_clock s'"
    using t(1,3,4) by (auto simp: ready_once_def tcp_ready_def attempt_def dial_def split: if_splits)
  ultimately show ?thesis using t(2) by simp
qed

section \<open>Properties\<close>

text \<open>C29: Waiting for the local server. The wait makes at least one attempt and at most one more than the pauses of 50 ms
  that fit into its time; it succeeds exactly when its last attempt connected, and fails only after the whole time has passed.\<close>

theorem wait_until_ready_bounds:
  assumes "wait_until_ready addr max_wait s = (r, s')"
  shows "dials s < dials s' \<and> dials s' \<le> dials s + 1 + (max_wait + 49) div 50
    \<and> (r = Inr () \<longleftrightarrow> is_ok (dialer s (dials s' - 1) addr))
    \<and> (r = Inr () \<or> m_clock s + max_wait \<le> m_clock s')"
proof -
  have "wait_loop addr (m_clock s + max_wait) s = (r, s')" using assms by (simp add: wait_until_ready_def)
  with server_wait.attempts [of s addr "m_clock s + max_wait"] server_wait_conn [OF assms] show ?thesis by auto
qed

text \<open>A machine with one adb and a server that answers from the \<open>k\<close>-th connection attempt on.\<close>

definition demo_machine :: "nat \<Rightarrow> machine" where
  "demo_machine k = \<lparr>cl = open_conn [],
     dialer = (\<lambda>n _. if n < k then Inl (IoErr ConnectionRefused ''refused'') else Inr (open_conn [])), dials = 0, spliced = [],
     m_env = [''PATH'' \<mapsto> ''/bin:/usr/bin''], m_is_file = (\<lambda>p. p = ''/usr/bin/adb''),
     m_exec = (\<lambda>_ _ _. Inr \<lparr>xs_success = True, xs_text = ''exit status: 0''\<rparr>), m_ran = [], m_clock = 0, m_took = (\<lambda>_. 1)\<rparr>"

theorem wait_until_ready_bounds_witness:
  "dials (snd (wait_until_ready (localhost 5039) 5000 (demo_machine 2))) \<le> 101"
proof -
  obtain r s' where "wait_until_ready (localhost 5039) 5000 (demo_machine 2) = (r, s')" by force
  from wait_until_ready_bounds [OF this] this show ?thesis by (simp add: demo_machine_def)
qed

text \<open>The commands a preparation runs, and what it returns.\<close>

lemma use_server_result:
  assumes "use_server adb port s = (r, s')"
  shows "\<exists>started. m_ran s' = m_ran s @ (if started then [(adb, [''-P'', dec (unat port), ''start-server''])] else [])
    \<and> (\<forall>l. r = Inr l \<longrightarrow> l = \<lparr>la_addr = localhost port, la_adb_path = adb, la_started_by_us = started\<rparr>
         \<and> is_ok (dialer s (dials s' - 1) (localhost port)))"
proof -
  obtain ready s1 where t: "tcp_ready (localhost port) s = (ready, s1)" by force
  then have s1: "m_ran s1 = m_ran s" "dialer s1 = dialer s" "dials s1 = Suc (dials s)"
      "ready = is_ok (dialer s (dials s) (localhost port))"
    by (auto simp: tcp_ready_def attempt_def dial_def)
  show ?thesis
  proof (cases ready)
    case True
    then show ?thesis using assms t s1 by (intro exI [of _ False]) (auto simp: use_server_def)
  next
    case False
    obtain rs s2 where x: "run_command adb [''-P'', dec (unat port), ''start-server''] s1 = (rs, s2)" by force
    then have s2: "m_ran s2 = m_ran s @ [(adb, [''-P'', dec (unat port), ''start-server''])]" "dialer s2 = dialer s"
      using s1 by (auto simp: run_command_def)
    obtain rw s3 where w: "wait_until_ready (localhost port) 5000 s2 = (rw, s3)" by force
    have "m_ran s3 = m_ran s2" using server_wait.ran [of "localhost port" "m_clock s2 + 5000" s2] w
      by (simp add: wait_until_ready_def)
    then show ?thesis
      using assms t x w s2 False server_wait_conn [OF w]
      by (intro exI [of _ True]) (auto simp: use_server_def start_server_def bind_a_def then_a_def split: sum.splits if_splits)
  qed
qed

lemma prepare_result:
  assumes "prepare port s = (r, s')" "find_adb s = Inr adb"
  shows "\<exists>started. m_ran s' = m_ran s @ (adb, [''kill-server'']) # (if started then [(adb, [''-P'', dec (unat port), ''start-server''])] else [])
    \<and> (\<forall>l. r = Inr l \<longrightarrow> la_addr l = localhost port \<and> is_ok (dialer s (dials s' - 1) (localhost port))
         \<and> m_ran (LocalAdb_drop l s') = m_ran s' @ (if started then [(adb, [''-P'', dec (unat port), ''kill-server''])] else []))"
proof -
  let ?s = "s\<lparr>m_ran := m_ran s @ [(adb, [''kill-server''])], m_clock := m_clock s + 150\<rparr>"
  have "use_server adb port ?s = (r, s')"
    using assms by (simp add: prepare_def bind_a_def lift_r_def try_a_def run_command_def then_a_def sleep_ms_def)
  from use_server_result [OF this] obtain started where
    "m_ran s' = m_ran ?s @ (if started then [(adb, [''-P'', dec (unat port), ''start-server''])] else [])"
    "\<And>l. r = Inr l \<Longrightarrow> l = \<lparr>la_addr = localhost port, la_adb_path = adb, la_started_by_us = started\<rparr>
       \<and> is_ok (dialer s (dials s' - 1) (localhost port))" by auto
  note R = this
  show ?thesis
  proof (intro exI [of _ started] conjI allI impI)
    fix l assume "r = Inr l"
    from R(2) [OF this] show "la_addr l = localhost port" "is_ok (dialer s (dials s' - 1) (localhost port))"
      "m_ran (LocalAdb_drop l s') = m_ran s' @ (if started then [(adb, [''-P'', dec (unat port), ''kill-server''])] else [])"
      by (simp_all add: LocalAdb_drop_def run_command_def)
  qed (simp add: R(1))
qed

text \<open>Ownership of the local server. Preparation always asks the default server to stop, and starts a server on the
  side port exactly when nobody answers there; when it succeeds somebody answered last, and the value it returns kills the side
  server on drop exactly if this process started it. A preparation that fails kills nothing on the side port.\<close>

theorem prepare_owns:
  assumes "prepare port s = (r, s')" "find_adb s = Inr adb"
  shows "\<exists>started. m_ran s' = m_ran s @ (adb, [''kill-server'']) # (if started then [(adb, [''-P'', dec (unat port), ''start-server''])] else [])
    \<and> (\<forall>l. r = Inr l \<longrightarrow> la_addr l = localhost port \<and> is_ok (dialer s (dials s' - 1) (localhost port))
         \<and> m_ran (LocalAdb_drop l s') = m_ran s' @ (if started then [(adb, [''-P'', dec (unat port), ''kill-server''])] else []))"
  using assms by (rule prepare_result)

theorem prepare_owns_witness:
  "m_ran (snd (prepare 5039 (demo_machine 0))) = [(''/usr/bin/adb'', [''kill-server''])]
    \<or> m_ran (snd (prepare 5039 (demo_machine 0))) = [(''/usr/bin/adb'', [''kill-server'']), (''/usr/bin/adb'', [''-P'', dec 5039, ''start-server''])]"
proof -
  obtain r s' where p: "prepare 5039 (demo_machine 0) = (r, s')" by force
  have "find_adb (demo_machine 0) = Inr ''/usr/bin/adb''" by code_simp
  from prepare_owns [OF p this] p show ?thesis by (auto simp: demo_machine_def)
qed

end
