(* ===== verification/Serve.thy ===== *)
theory Serve
  imports Proxy Local
begin

text \<open>
  Accept loops that only end or spawn: the shape the proxy of src/lib.rs and the daemon of src/daemon.rs
  share, and the loop of the proxy. The events of a loop are the branches of its \<^verbatim>\<open>select!\<close>.
\<close>

section \<open>Loops\<close>

fun serve :: "('e \<Rightarrow> 't list \<Rightarrow> 'r option \<times> 't list) \<Rightarrow> 'e list \<Rightarrow> 't list \<Rightarrow> 'r option \<times> 't list" where
  "serve turn [] ts = (None, ts)"
| "serve turn (ev # evs) ts =
     (case turn ev ts of
        (Some r, ts') \<Rightarrow> (Some r, ts')
      | (None, ts') \<Rightarrow> serve turn evs ts')"

text \<open>The contract of a turn: it ends the loop, or spawns a task, or does nothing.\<close>

locale server =
  fixes turn :: "'e \<Rightarrow> 't list \<Rightarrow> 'r option \<times> 't list"
    and ends :: "'e \<Rightarrow> 'r option"
    and spawns :: "'e \<Rightarrow> 't option"
  assumes turn: "turn ev ts = (case ends ev of
      Some r \<Rightarrow> (Some r, ts)
    | None \<Rightarrow> (None, case spawns ev of Some t \<Rightarrow> ts @ [t] | None \<Rightarrow> ts))"
begin

definition runs_on :: "'e list \<Rightarrow> 'e list" where
  "runs_on evs = takeWhile (\<lambda>ev. ends ev = None) evs"

lemma serve_eq:
  "serve turn evs ts =
     (Option.bind (find (\<lambda>ev. ends ev \<noteq> None) evs) ends, ts @ List.map_filter spawns (runs_on evs))"
  by (induction evs arbitrary: ts)
    (auto simp: turn runs_on_def List.map_filter_def split: option.splits)

lemma serve_running: "fst (serve turn evs ts) = None \<longleftrightarrow> (\<forall>ev \<in> set evs. ends ev = None)"
  by (induction evs arbitrary: ts) (auto simp: turn split: option.splits)

lemma serve_tasks: "t \<in> set (snd (serve turn evs ts)) \<Longrightarrow> t \<in> set ts \<or> (\<exists>ev \<in> set evs. spawns ev = Some t)"
proof (induction evs arbitrary: ts)
  case (Cons ev evs)
  show ?case
  proof (cases "ends ev")
    case None
    let ?ts = "case spawns ev of Some t \<Rightarrow> ts @ [t] | None \<Rightarrow> ts"
    have "t \<in> set (snd (serve turn evs ?ts))" using Cons.prems None by (simp add: turn [of ev ts])
    from Cons.IH [OF this] show ?thesis by (auto split: option.splits)
  qed (use Cons.prems in \<open>simp add: turn [of ev ts]\<close>)
qed simp

lemma serve_ignores:
  assumes "\<And>ev. ends ev \<noteq> None \<or> spawns ev \<noteq> None \<Longrightarrow> keep ev"
  shows "serve turn (filter keep evs) ts = serve turn evs ts"
  using assms by (induction evs arbitrary: ts) (auto simp: turn split: option.splits)

end

section \<open>The proxy\<close>

record ProxyConfig =
  pg_listen :: SocketAddr
  pg_target :: SocketAddr
  pg_pair_code :: string
  pg_policy_path :: string

datatype proxy_event = PxShutdown | PxClient "io_error + conn \<times> SocketAddr"

text \<open>A client is spawned with the target, the code and the policy shared by all of them.\<close>

definition proxy_turn :: "proxy_event \<Rightarrow> (conn \<times> SocketAddr) list \<Rightarrow> (ProxyError + unit) option \<times> (conn \<times> SocketAddr) list" where
  "proxy_turn ev ts =
     (case ev of
        PxShutdown \<Rightarrow> (Some (Inr ()), ts)
      | PxClient (Inl err) \<Rightarrow> (Some (Inl (ProxyIo err)), ts)
      | PxClient (Inr c) \<Rightarrow> (None, ts @ [c]))"

definition proxy_ends :: "proxy_event \<Rightarrow> (ProxyError + unit) option" where
  "proxy_ends ev = (case ev of PxShutdown \<Rightarrow> Some (Inr ()) | PxClient (Inl err) \<Rightarrow> Some (Inl (ProxyIo err)) | _ \<Rightarrow> None)"

definition proxy_spawns :: "proxy_event \<Rightarrow> (conn \<times> SocketAddr) option" where
  "proxy_spawns ev = (case ev of PxClient (Inr c) \<Rightarrow> Some c | _ \<Rightarrow> None)"

interpretation proxy_server: server proxy_turn proxy_ends proxy_spawns
  by unfold_locales (auto simp: proxy_turn_def proxy_ends_def proxy_spawns_def split: proxy_event.split sum.split)

text \<open>The listener, the policy object made before the loop, and the loop.\<close>

definition run_proxy ::
  "px_toml \<Rightarrow> fsys \<Rightarrow> (SocketAddr \<Rightarrow> io_error + unit) \<Rightarrow> ProxyConfig \<Rightarrow> proxy_event list
     \<Rightarrow> (ProxyError + unit) option \<times> (conn \<times> SocketAddr) list \<times> ReloadableProxyPolicy option" where
  "run_proxy toml fs bind config evs =
     (case bind (pg_listen config) of
        Inl err \<Rightarrow> (Some (Inl (ProxyIo err)), [], None)
      | Inr _ \<Rightarrow>
          (case serve proxy_turn evs [] of (r, ts) \<Rightarrow>
             (r, ts, Some (ReloadableProxyPolicy_new toml fs (pg_policy_path config)))))"

text \<open>The session of one spawned client on the machine's network.\<close>

definition proxy_session :: "px_toml \<Rightarrow> pipe \<Rightarrow> ProxyConfig \<Rightarrow> psess \<Rightarrow> (io_error + unit option) \<times> psess" where
  "proxy_session toml pipe config s = proxy_connection toml pipe (pg_target config) (pg_pair_code config) s"

end
