(* ===== verification/Daemon_Server.thy ===== *)
theory Daemon_Server
  imports Daemon Serve Platform
begin

text \<open>
  The start and the accept loop of the daemon, src/daemon.rs: the checks, the local adb server, the state,
  the first list of shared devices, the control socket and the listener; then the events the loop takes.
  Sockets of the Unix domain belong to the host: who is bound to an abstract address or a path, what \<^verbatim>\<open>socket\<close> and
  \<^verbatim>\<open>listen\<close> yield, and which paths this process may remove or whose directory it may create.
\<close>

section \<open>The control socket\<close>

record host =
  ho_abstract :: "bytes \<rightharpoonup> nat"
  ho_paths :: "string \<rightharpoonup> nat option"
  ho_socket :: "io_error + unit"
  ho_listen :: "io_error + unit"
  ho_removable :: "string \<Rightarrow> bool"
  ho_mkdir :: "string \<Rightarrow> io_error + unit"

definition addr_in_use :: io_error where
  "addr_in_use = IoErr AddrInUse ''Address already in use (os error 98)''"

definition remove_if_exists :: "string \<Rightarrow> host \<Rightarrow> host" where
  "remove_if_exists p h =
     (if ho_paths h p \<noteq> None \<and> ho_removable h p then h\<lparr>ho_paths := (ho_paths h)(p := None)\<rparr> else h)"

definition unix_bind :: "nat \<Rightarrow> string \<Rightarrow> host \<Rightarrow> (io_error + unit) \<times> host" where
  "unix_bind me p h =
     (if ho_paths h p \<noteq> None then (Inl addr_in_use, h) else (Inr (), h\<lparr>ho_paths := (ho_paths h)(p \<mapsto> Some me)\<rparr>))"

definition abstract_bind :: "nat \<Rightarrow> string \<Rightarrow> host \<Rightarrow> (io_error + unit) \<times> host" where
  "abstract_bind me name h =
     (case bind_r (ho_socket h) (\<lambda>_. abstract_addr name) of
        Inl e \<Rightarrow> (Inl e, h)
      | Inr a \<Rightarrow>
          (if ho_abstract h a \<noteq> None then (Inl addr_in_use, h)
           else (case ho_listen h of
                   Inl e \<Rightarrow> (Inl e, h)
                 | Inr _ \<Rightarrow> (Inr (), h\<lparr>ho_abstract := (ho_abstract h)(a \<mapsto> me)\<rparr>))))"

definition fallback_socket :: string where
  "fallback_socket = ''/tmp/adb-hubd.sock''"

record DaemonConfig =
  dg_listen :: SocketAddr
  dg_local_adb_port :: u16
  dg_include_local :: bool
  dg_control_abstract :: string
  dg_control_path :: "string option"
  dg_poll_interval :: nat
  dg_adb_version :: u32

definition bind_control :: "nat \<Rightarrow> DaemonConfig \<Rightarrow> host \<Rightarrow> (io_error + unit) \<times> host" where
  "bind_control me config h =
     (case dg_control_path config of
        Some path \<Rightarrow>
          (let h1 = remove_if_exists path h in
           case ho_mkdir h1 path of
             Inl e \<Rightarrow> (Inl e, h1)
           | Inr _ \<Rightarrow> unix_bind me path h1)
      | None \<Rightarrow>
          (case abstract_bind me (dg_control_abstract config) h of
             (Inr _, h1) \<Rightarrow> (Inr (), h1)
           | (Inl _, h1) \<Rightarrow> unix_bind me fallback_socket (remove_if_exists fallback_socket h1)))"

text \<open>Whom a connection reaches, and what is left when a process closes its control socket.\<close>

definition reach_path :: "host \<Rightarrow> string \<Rightarrow> io_error + nat" where
  "reach_path h p = ok_or (Option.bind (ho_paths h p) id) (IoErr ConnectionRefused ''Connection refused (os error 111)'')"

definition reach_abstract :: "host \<Rightarrow> string \<Rightarrow> io_error + nat" where
  "reach_abstract h = abstract_connect (Inr ())
     (\<lambda>a. ok_or (ho_abstract h a) (IoErr ConnectionRefused ''Connection refused (os error 111)''))"

definition close_control :: "nat \<Rightarrow> host \<Rightarrow> host" where
  "close_control me h = h\<lparr>ho_abstract := (\<lambda>n. if ho_abstract h n = Some me then None else ho_abstract h n),
     ho_paths := (\<lambda>p. if ho_paths h p = Some (Some me) then Some None else ho_paths h p)\<rparr>"

text \<open>Who holds the address of a name.\<close>

definition name_holder :: "host \<Rightarrow> string \<Rightarrow> nat option" where
  "name_holder h name = Option.bind (ok (abstract_addr name)) (ho_abstract h)"

lemma control_reaches:
  assumes "bind_control me config h = (Inr (), h')"
    and "ac_control_abstract ac = dg_control_abstract config" "ac_control_path ac = dg_control_path config"
  shows "connect_control (reach_path h') (reach_abstract h') ac =
    Inr (case (dg_control_path config, name_holder h (dg_control_abstract config)) of (None, Some other) \<Rightarrow> other | _ \<Rightarrow> me)"
  using assms
  by (auto simp: bind_control_def connect_control_def reach_path_def reach_abstract_def remove_if_exists_def unix_bind_def name_holder_def ok_def
      abstract_bind_def abstract_connect_def bind_r_def fallback_socket_def Let_def ok_or_def split: option.splits if_splits sum.splits prod.splits)

section \<open>Starting\<close>

datatype DaemonError = DaemonIo io_error | DaemonBind SocketAddr io_error | DaemonLocalAdb io_error | UnsupportedPlatform

definition shared_backend :: "LocalAdb \<Rightarrow> BackendConfig" where
  "shared_backend local = \<lparr>bc_name = local_backend_name, bc_addr = la_addr local, bc_pair_code = None, bc_enabled = True\<rparr>"

definition daemon_local :: "DaemonConfig \<Rightarrow> ('x machine_scheme, u32 \<times> LocalAdb option) act" where
  "daemon_local config =
     (if dg_include_local config then
        bind_a (prepare (dg_local_adb_port config)) (\<lambda>local.
        try_a (fetch_server_version (la_addr local) None) (\<lambda>r.
        ret (case r of Inr v \<Rightarrow> v | Inl _ \<Rightarrow> dg_adb_version config, Some local)))
      else ret (dg_adb_version config, None))"

definition seed_shared_devices :: "daemon \<Rightarrow> 'x machine_scheme \<Rightarrow> daemon \<times> 'x machine_scheme" where
  "seed_shared_devices d s =
     (case dc_local d of
        None \<Rightarrow> (d, s)
      | Some b \<Rightarrow> (case fetch_devices_l (bc_addr b) None s of (r, s') \<Rightarrow> (poll_shared_once r d, s')))"

text \<open>Leaving the function drops the local server.\<close>

definition drop_shared :: "LocalAdb option \<Rightarrow> 'x machine_scheme \<Rightarrow> 'x machine_scheme" where
  "drop_shared local s = (case local of None \<Rightarrow> s | Some l \<Rightarrow> LocalAdb_drop l s)"

text \<open>\<open>supported\<close> says whether the platform has shared mode, \<open>bind\<close> binds the listener, \<open>tbind\<close> the
  tunnel listeners, and \<open>me\<close> is this process.\<close>

definition daemon_start ::
  "bool \<Rightarrow> (SocketAddr \<Rightarrow> io_error + unit) \<Rightarrow> (nat \<Rightarrow> u16 \<Rightarrow> io_error + u16) \<Rightarrow> nat \<Rightarrow> DaemonConfig \<Rightarrow> host \<Rightarrow> 'x machine_scheme
     \<Rightarrow> (DaemonError + daemon) \<times> host \<times> 'x machine_scheme" where
  "daemon_start supported bind tbind me config h s =
     (if \<not> supported then (Inl UnsupportedPlatform, h, s)
      else if \<not> is_loopback (dg_listen config) then
        (Inl (DaemonIo (IoErr InvalidInput ''multi-user daemon must listen on loopback only'')), h, s)
      else
        (case daemon_local config s of
           (Inl e, s1) \<Rightarrow> (Inl (DaemonLocalAdb e), h, s1)
         | (Inr (version, local), s1) \<Rightarrow>
             (case seed_shared_devices (daemon_init (map_option shared_backend local) version tbind) s1 of (d, s2) \<Rightarrow>
                (case bind_control me config h of
                   (Inl e, h1) \<Rightarrow> (Inl (DaemonIo e), h1, drop_shared local s2)
                 | (Inr _, h1) \<Rightarrow>
                     (case bind (dg_listen config) of
                        Inl e \<Rightarrow> (Inl (DaemonBind (dg_listen config) e), close_control me h1, drop_shared local s2)
                      | Inr _ \<Rightarrow> (Inr d, h1, s2))))))"

section \<open>The accept loop\<close>

datatype daemon_task =
    ClientTask conn SocketAddr SocketAddr
  | AgentTask conn

text \<open>An accepted client comes with its peer address and the result of \<^verbatim>\<open>local_addr\<close>.\<close>

datatype server_event =
    SrvShutdown
  | SrvKill
  | SrvClient "io_error + (conn \<times> SocketAddr) \<times> (io_error + SocketAddr)"
  | SrvAgent "io_error + conn"

definition daemon_turn :: "server_event \<Rightarrow> daemon_task list \<Rightarrow> (DaemonError + unit) option \<times> daemon_task list" where
  "daemon_turn ev ts =
     (case ev of
        SrvShutdown \<Rightarrow> (Some (Inr ()), ts)
      | SrvKill \<Rightarrow> (None, ts)
      | SrvClient (Inl err) \<Rightarrow> (Some (Inl (DaemonIo err)), ts)
      | SrvClient (Inr ((client, peer), Inl _)) \<Rightarrow> (None, ts)
      | SrvClient (Inr ((client, peer), Inr local)) \<Rightarrow>
          (if \<not> is_loopback peer then (None, ts) else (None, ts @ [ClientTask client local peer]))
      | SrvAgent (Inl _) \<Rightarrow> (None, ts)
      | SrvAgent (Inr stream) \<Rightarrow> (None, ts @ [AgentTask stream]))"

definition daemon_ends :: "server_event \<Rightarrow> (DaemonError + unit) option" where
  "daemon_ends ev = (case ev of SrvShutdown \<Rightarrow> Some (Inr ()) | SrvClient (Inl err) \<Rightarrow> Some (Inl (DaemonIo err)) | _ \<Rightarrow> None)"

definition daemon_spawns :: "server_event \<Rightarrow> daemon_task option" where
  "daemon_spawns ev = (case ev of
     SrvClient (Inr ((client, peer), Inr local)) \<Rightarrow> (if is_loopback peer then Some (ClientTask client local peer) else None)
   | SrvAgent (Inr stream) \<Rightarrow> Some (AgentTask stream)
   | _ \<Rightarrow> None)"

interpretation daemon_server: server daemon_turn daemon_ends daemon_spawns
  by unfold_locales
    (auto simp: daemon_turn_def daemon_ends_def daemon_spawns_def split: server_event.split sum.split prod.split)

text \<open>The session of a spawned client: its user is looked up by the two ends of the connection.\<close>

definition client_task :: "json \<Rightarrow> client_env \<Rightarrow> (SocketAddr \<Rightarrow> SocketAddr \<Rightarrow> io_error + Uid) \<Rightarrow> SocketAddr \<Rightarrow> SocketAddr \<Rightarrow> (dsess, unit) act" where
  "client_task js env peer_uid local peer = handle_adb_client js env (peer_uid local peer)"

text \<open>The start of \<^verbatim>\<open>handle_agent\<close>: an agent belongs to the user the kernel names as its peer; without credentials the task ends.\<close>

definition agent_task :: "io_error + Uid \<times> int \<times> u32 \<Rightarrow> nat \<Rightarrow> conn \<Rightarrow> daemon \<Rightarrow> daemon" where
  "agent_task getsockopt n stream d =
     (case peer_cred_fd getsockopt of
        Inl _ \<Rightarrow> d
      | Inr cred \<Rightarrow> agent_accept (pc_uid cred, n) stream d)"

section \<open>Properties\<close>

text \<open>C24: The daemon stays up. Kill requests, agents that could not be accepted, clients from other hosts and clients
  without a local address change nothing: without them the loop ends the same way with the same tasks. It ends only at the shutdown
  signal or when accepting a client fails, and every client it serves has a loopback address.\<close>

theorem daemon_stays_up:
  "serve daemon_turn (filter (\<lambda>ev. daemon_ends ev \<noteq> None \<or> daemon_spawns ev \<noteq> None) evs) ts = serve daemon_turn evs ts
   \<and> daemon_ends SrvKill = None \<and> daemon_spawns SrvKill = None
   \<and> (\<forall>r ts'. serve daemon_turn evs [] = (r, ts') \<longrightarrow>
       (r = None \<longleftrightarrow> SrvShutdown \<notin> set evs \<and> (\<forall>e. SrvClient (Inl e) \<notin> set evs))
     \<and> (\<forall>c local peer. ClientTask c local peer \<in> set ts' \<longrightarrow> is_loopback peer \<and> SrvClient (Inr ((c, peer), Inr local)) \<in> set evs))"
  (is "?skip \<and> ?kill \<and> ?kill' \<and> ?all")
proof (intro conjI)
  show ?skip by (rule daemon_server.serve_ignores)
  show ?kill ?kill' by (simp_all add: daemon_ends_def daemon_spawns_def)
  have ends: "daemon_ends ev \<noteq> None \<longleftrightarrow> ev = SrvShutdown \<or> (\<exists>e. ev = SrvClient (Inl e))" for ev
    by (auto simp: daemon_ends_def split: server_event.split sum.split)
  have spawn: "daemon_spawns ev = Some (ClientTask c local peer) \<longleftrightarrow> ev = SrvClient (Inr ((c, peer), Inr local)) \<and> is_loopback peer"
    for ev c local peer
    by (auto simp: daemon_spawns_def split: server_event.splits sum.splits prod.splits if_splits)
  show ?all
  proof (intro allI impI)
    fix r ts' assume "serve daemon_turn evs [] = (r, ts')"
    then have r: "r = fst (serve daemon_turn evs [])" and ts': "ts' = snd (serve daemon_turn evs [])" by simp_all
    have "r = None \<longleftrightarrow> SrvShutdown \<notin> set evs \<and> (\<forall>e. SrvClient (Inl e) \<notin> set evs)"
      unfolding r daemon_server.serve_running by (metis ends)
    moreover have "is_loopback peer \<and> SrvClient (Inr ((c, peer), Inr local)) \<in> set evs"
      if "ClientTask c local peer \<in> set ts'" for c local peer
    proof -
      from daemon_server.serve_tasks [OF that [unfolded ts']]
      obtain ev where "ev \<in> set evs" "daemon_spawns ev = Some (ClientTask c local peer)" by auto
      then show ?thesis unfolding spawn by simp
    qed
    ultimately show "(r = None \<longleftrightarrow> SrvShutdown \<notin> set evs \<and> (\<forall>e. SrvClient (Inl e) \<notin> set evs))
      \<and> (\<forall>c local peer. ClientTask c local peer \<in> set ts' \<longrightarrow> is_loopback peer \<and> SrvClient (Inr ((c, peer), Inr local)) \<in> set evs)"
      by blast
  qed
qed

definition demo_client :: server_event where
  "demo_client = SrvClient (Inr ((open_conn [], localhost 40000), Inr (localhost 5037)))"

theorem daemon_stays_up_witness:
  "fst (serve daemon_turn [SrvKill, demo_client, SrvKill] []) = None"
proof -
  obtain r ts' where "serve daemon_turn [SrvKill, demo_client, SrvKill] [] = (r, ts')" by force
  with daemon_stays_up [of "[SrvKill, demo_client, SrvKill]" "[]"] show ?thesis by (auto simp: demo_client_def)
qed

text \<open>Which daemon an agent reaches. When a daemon has bound its control socket, a user's agent with the same settings
  reaches that daemon, unless no path is set and another process held the abstract name: then the daemon listens on the fallback path,
  but its own agent and every other one still go to the process that holds the name.\<close>

theorem control_reached:
  assumes "bind_control me config h = (Inr (), h')"
    and "ac_control_abstract ac = dg_control_abstract config" "ac_control_path ac = dg_control_path config"
  shows "connect_control (reach_path h') (reach_abstract h') ac =
    Inr (case (dg_control_path config, name_holder h (dg_control_abstract config)) of (None, Some other) \<Rightarrow> other | _ \<Rightarrow> me)"
  using assms by (rule control_reaches)

definition demo_host :: host where
  "demo_host = \<lparr>ho_abstract = [CHR 0x00 # ''adb-hubd'' \<mapsto> 7], ho_paths = Map.empty, ho_socket = Inr (), ho_listen = Inr (), ho_removable = (\<lambda>_. True),
     ho_mkdir = (\<lambda>_. Inr ())\<rparr>"

definition demo_daemon_config :: DaemonConfig where
  "demo_daemon_config = \<lparr>dg_listen = localhost 15037, dg_local_adb_port = 5039, dg_include_local = False,
     dg_control_abstract = ''adb-hubd'', dg_control_path = None, dg_poll_interval = 1000, dg_adb_version = 41\<rparr>"

definition demo_agent_config :: AgentConfig where
  "demo_agent_config = \<lparr>ac_config_path = ''c.toml'', ac_control_abstract = ''adb-hubd'', ac_control_path = None, ac_poll_interval = 1000,
     ac_inline_backends = None, ac_connect_retries = 50, ac_connect_retry_delay = 100\<rparr>"

theorem control_reached_witness:
  "\<exists>h'. bind_control 8 demo_daemon_config demo_host = (Inr (), h')
     \<and> connect_control (reach_path h') (reach_abstract h') demo_agent_config = Inr 7"
proof -
  have b: "bind_control 8 demo_daemon_config demo_host = (Inr (), demo_host\<lparr>ho_paths := [fallback_socket \<mapsto> Some 8]\<rparr>)"
    by (simp add: bind_control_def demo_daemon_config_def demo_host_def abstract_bind_def name_holder_def ok_def remove_if_exists_def unix_bind_def)
  from control_reached [OF b, of demo_agent_config] b show ?thesis
    by (simp add: demo_agent_config_def demo_daemon_config_def demo_host_def name_holder_def ok_def)
qed

text \<open>A started daemon. It runs on a platform with shared mode and listens on a loopback address; it has no agents, and
  every user sees the same list, the devices of the local adb server under the backend name local, or none without local devices.\<close>

theorem daemon_start_spec:
  assumes "daemon_start supported bind tbind me config h s = (Inr d, h', s')"
  shows "supported \<and> is_loopback (dg_listen config) \<and> bind (dg_listen config) = Inr () \<and> private_ok d \<and> tidy d
    \<and> dc_agents d = Map.empty \<and> dc_local d = (if dg_include_local config
         then Some \<lparr>bc_name = ''local'', bc_addr = localhost (dg_local_adb_port config), bc_pair_code = None, bc_enabled = True\<rparr> else None)
    \<and> (\<forall>u. snapshot_for u (dc_tenants d) = tr_shared (dc_tenants d))
    \<and> (\<forall>e \<in> set (devices (tr_shared (dc_tenants d))). dg_include_local config \<and> backend_name e = ''local'' \<and> pair_code e = None)"
proof -
  from assms obtain version local s1 s2 where l: "daemon_local config s = (Inr (version, local), s1)"
    and sd: "seed_shared_devices (daemon_init (map_option shared_backend local) version tbind) s1 = (d, s2)"
    and ok: "supported" "is_loopback (dg_listen config)" "bind (dg_listen config) = Inr ()"
    by (auto simp: daemon_start_def split: if_splits sum.splits prod.splits)
  have loc: "map_option shared_backend local = (if dg_include_local config
         then Some \<lparr>bc_name = ''local'', bc_addr = localhost (dg_local_adb_port config), bc_pair_code = None, bc_enabled = True\<rparr> else None)"
  proof (cases "dg_include_local config")
    case True
    obtain rp s0 where p0: "prepare (dg_local_adb_port config) s = (rp, s0)" by force
    with True l obtain lo where lo: "rp = Inr lo" by (cases rp) (auto simp: daemon_local_def bind_a_def)
    obtain rv s3 where "fetch_server_version (la_addr lo) None s0 = (rv, s3)" by force
    with True l p0 lo have p: "prepare (dg_local_adb_port config) s = (Inr lo, s0)" "local = Some lo"
      by (auto simp: daemon_local_def bind_a_def try_a_def)
    from p(1) obtain adbp where "find_adb s = Inr adbp"
      by (auto simp: prepare_def bind_a_def lift_r_def split: sum.splits)
    from prepare_result [OF p(1) this] p(2) True show ?thesis by (auto simp: shared_backend_def local_backend_name_def)
  qed (use l in \<open>auto simp: daemon_local_def\<close>)
  let ?d0 = "daemon_init (map_option shared_backend local) version tbind"
  show ?thesis
  proof (cases "map_option shared_backend local")
    case None
    then have "d = ?d0" using sd by (simp add: seed_shared_devices_def daemon_init_def)
    moreover have "dc_local ?d0 = None" "dc_agents ?d0 = Map.empty" "dc_tenants ?d0 = TenantRegistry_new" using None by (simp_all add: daemon_init_def)
    ultimately show ?thesis using ok loc None private_ok_init tidy_init
      by (auto simp: TenantRegistry_new_def snapshot_for_def empty_snapshot_def split: if_splits)
  next
    case (Some b)
    then obtain r where d: "d = poll_shared_once r ?d0"
      using sd by (auto simp: seed_shared_devices_def daemon_init_def split: prod.splits)
    let ?l = "[(b, case r of Inr body \<Rightarrow> body | Inl _ \<Rightarrow> [])]"
    have sel: "dc_tenants d = update_shared_from_lists ?l TenantRegistry_new" "dc_agents d = Map.empty" "dc_local d = Some b"
        "dc_conns d = Map.empty"
      unfolding d Some by (simp_all add: poll_shared_once_def daemon_init_def)
    have t: "tr_shared (dc_tenants d) = merge_device_lists ?l" "tr_private (dc_tenants d) = Map.empty"
      by (simp_all add: sel update_shared_from_lists_def update_shared_def notify_if_def TenantRegistry_new_def Let_def)
    have "private_ok d" "tidy d"
      using sel(2,4) t(2) by (simp_all add: private_ok_def tidy_def live_def in_phase_def)
    moreover have "backend_name e = bc_name b \<and> pair_code e = bc_pair_code b" if "e \<in> set (devices (merge_device_lists ?l))" for e
      using merge_entry_from_row [OF that] by auto
    ultimately show ?thesis using ok loc Some sel t
      by (auto simp: snapshot_for_def split: if_splits)
  qed
qed

theorem daemon_start_spec_witness:
  "\<exists>d h' s'. daemon_start True (\<lambda>_. Inr ()) (\<lambda>_ _. Inr 40000) 8 demo_daemon_config demo_host (demo_machine 0) = (Inr d, h', s')
     \<and> dc_agents d = Map.empty"
proof -
  have "\<exists>d h' s'. daemon_start True (\<lambda>_. Inr ()) (\<lambda>_ _. Inr 40000) 8 demo_daemon_config demo_host (demo_machine 0) = (Inr d, h', s')"
    by (simp add: daemon_start_def demo_daemon_config_def daemon_local_def seed_shared_devices_def daemon_init_def bind_control_def
        demo_host_def abstract_bind_def name_holder_def ok_def remove_if_exists_def unix_bind_def)
  then obtain d h' s' where d: "daemon_start True (\<lambda>_. Inr ()) (\<lambda>_ _. Inr 40000) 8 demo_daemon_config demo_host (demo_machine 0) = (Inr d, h', s')" by blast
  from daemon_start_spec [OF this] d show ?thesis by blast
qed

end
