(* ===== verification/Peercred.thy ===== *)
theory Peercred
  imports Ipc
begin

text \<open>
  Identification of local TCP clients, src/peercred.rs (Linux): the \<^verbatim>\<open>inet_diag\<close> query for the
  client side of a connection and the parser of the kernel's reply. Memory is little-endian, as on
  the supported targets; \<open>netlink\<close> is what sending the request and one \<^verbatim>\<open>recv\<close> yield.
\<close>

section \<open>Definitions\<close>

text \<open>Native-order reads from memory.\<close>

definition le_word :: "bytes \<Rightarrow> u32" where
  "le_word b = from_be32 (rev b)"

definition mem_at :: "nat \<Rightarrow> nat \<Rightarrow> bytes \<Rightarrow> bytes" where
  "mem_at off n b = take n (drop off b)"

definition rd32 :: "bytes \<Rightarrow> nat \<Rightarrow> u32" where
  "rd32 buf off = le_word (mem_at off 4 buf)"

definition rd16 :: "bytes \<Rightarrow> nat \<Rightarrow> u32" where
  "rd16 buf off = le_word (mem_at off 2 buf)"

definition rd8 :: "bytes \<Rightarrow> nat \<Rightarrow> nat" where
  "rd8 buf off = byte_val (buf ! off)"

text \<open>The socket tuple to look for: ports in network order as native integers, addresses as four
  32-bit words.\<close>

record sock_tuple =
  st_sport :: u32
  st_dport :: u32
  st_src :: "u32 list"
  st_dst :: "u32 list"

definition AF_INET :: nat where "AF_INET = 2"
definition AF_INET6 :: nat where "AF_INET6 = 10"

definition port_bytes :: "u16 \<Rightarrow> bytes" where
  "port_bytes p = [char_of (unat p div 256), char_of (unat p mod 256)]"

fun ip4_bytes :: "u8 \<times> u8 \<times> u8 \<times> u8 \<Rightarrow> bytes" where
  "ip4_bytes (a, b, c, d) = [byte_char a, byte_char b, byte_char c, byte_char d]"

definition ip6_bytes :: "u16 list \<Rightarrow> bytes" where
  "ip6_bytes segs = concat (map port_bytes segs)"

text \<open>\<^verbatim>\<open>port.to_be()\<close> as a native integer.\<close>

definition port_to_be :: "u16 \<Rightarrow> u32" where
  "port_to_be p = le_word (port_bytes p)"

definition fill_addrs :: "SocketAddr \<Rightarrow> SocketAddr \<Rightarrow> io_error + sock_tuple" where
  "fill_addrs src dst =
     (case (src, dst) of
        (V4 s sp, V4 d dp) \<Rightarrow>
          Inr \<lparr>st_sport = port_to_be sp, st_dport = port_to_be dp,
               st_src = [le_word (ip4_bytes s), 0, 0, 0], st_dst = [le_word (ip4_bytes d), 0, 0, 0]\<rparr>
      | (V6 s _ sp, V6 d _ dp) \<Rightarrow>
          Inr \<lparr>st_sport = port_to_be sp, st_dport = port_to_be dp,
               st_src = map (\<lambda>i. rd32 (ip6_bytes s) (4 * i)) [0..<4],
               st_dst = map (\<lambda>i. rd32 (ip6_bytes d) (4 * i)) [0..<4]\<rparr>
      | _ \<Rightarrow> Inl (IoErr InvalidInput ''address family mismatch''))"

definition addrs_equal :: "u32 list \<Rightarrow> u32 list \<Rightarrow> nat \<Rightarrow> bool" where
  "addrs_equal a b family = (if family = AF_INET then a ! 0 = b ! 0 else a = b)"

text \<open>\<^verbatim>\<open>size_of::<NlMsgHdr>()\<close> and \<^verbatim>\<open>size_of::<InetDiagMsg>()\<close>, and the message types.\<close>

definition HDR :: nat where "HDR = 16"
definition DIAG :: nat where "DIAG = 72"
definition NLMSG_ERROR :: u32 where "NLMSG_ERROR = 2"
definition NLMSG_DONE :: u32 where "NLMSG_DONE = 3"

text \<open>The \<^verbatim>\<open>InetDiagMsg\<close> at an offset: family, ports, addresses and uid at their field offsets.\<close>

definition diag_matches :: "bytes \<Rightarrow> nat \<Rightarrow> sock_tuple \<Rightarrow> nat \<Rightarrow> bool" where
  "diag_matches buf p t family \<longleftrightarrow>
     rd8 buf p = family \<and> rd16 buf (p + 4) = st_sport t \<and> rd16 buf (p + 6) = st_dport t
   \<and> addrs_equal (map (\<lambda>i. rd32 buf (p + 8 + 4 * i)) [0..<4]) (st_src t) family
   \<and> addrs_equal (map (\<lambda>i. rd32 buf (p + 24 + 4 * i)) [0..<4]) (st_dst t) family"

definition diag_uid :: "bytes \<Rightarrow> nat \<Rightarrow> Uid" where
  "diag_uid buf p = rd32 buf (p + 64)"

definition nl_align :: "nat \<Rightarrow> nat" where
  "nl_align n = (n + 3) div 4 * 4"

function diag_loop :: "bytes \<Rightarrow> sock_tuple \<Rightarrow> nat \<Rightarrow> nat \<Rightarrow> Uid list \<Rightarrow> io_error + Uid list" where
  "diag_loop buf t family offset found =
     (if \<not> offset + HDR \<le> length buf then Inr found
      else let len = unat (rd32 buf offset); ty = rd16 buf (offset + 4) in
        if len < HDR \<or> offset + len > length buf then Inr found
        else if ty = NLMSG_DONE then Inr found
        else if ty = NLMSG_ERROR then Inl (IoErr OtherKind ''netlink sock_diag error'')
        else
          let p = offset + HDR;
              found' = (if p + DIAG \<le> offset + len \<and> diag_matches buf p t family
                        then found @ [diag_uid buf p] else found)
          in diag_loop buf t family (offset + nl_align len) found')"
  by pat_completeness auto
termination
  by (relation "measure (\<lambda>(buf, _, _, offset, _). length buf - offset)") (auto simp: nl_align_def HDR_def)

declare diag_loop.simps [simp del]

definition parse_inet_diag_uid :: "bytes \<Rightarrow> sock_tuple \<Rightarrow> nat \<Rightarrow> io_error + Uid" where
  "parse_inet_diag_uid buf t family =
     bind_r (diag_loop buf t family 0 []) (\<lambda>found.
     case found of
       [uid] \<Rightarrow> Inr uid
     | [] \<Rightarrow> Inl (IoErr NotFound ''no matching TCP socket for peer UID lookup'')
     | _ \<Rightarrow> Inl (IoErr OtherKind ''ambiguous TCP peer UID (multiple matches)''))"

text \<open>The query: the request carries the family and the tuple; the reply is truncated to the
  8192-byte buffer.\<close>

definition addr_family :: "SocketAddr \<Rightarrow> SocketAddr \<Rightarrow> io_error + nat" where
  "addr_family src dst =
     (case (src, dst) of
        (V4 _ _, V4 _ _) \<Rightarrow> Inr AF_INET
      | (V6 _ _ _, V6 _ _ _) \<Rightarrow> Inr AF_INET6
      | _ \<Rightarrow> Inl (IoErr InvalidInput ''src/dst address family mismatch''))"

definition query_inet_diag_uid ::
  "(nat \<Rightarrow> sock_tuple \<Rightarrow> io_error + bytes) \<Rightarrow> SocketAddr \<Rightarrow> SocketAddr \<Rightarrow> io_error + Uid" where
  "query_inet_diag_uid netlink src dst =
     bind_r (addr_family src dst) (\<lambda>family.
     bind_r (fill_addrs src dst) (\<lambda>t.
     bind_r (netlink family t) (\<lambda>reply.
     parse_inet_diag_uid (take 8192 reply) t family)))"

definition tcp_peer_uid ::
  "(nat \<Rightarrow> sock_tuple \<Rightarrow> io_error + bytes) \<Rightarrow> SocketAddr \<Rightarrow> SocketAddr \<Rightarrow> io_error + Uid" where
  "tcp_peer_uid netlink local peer = query_inet_diag_uid netlink peer local"

section \<open>Native-order integers\<close>

abbreviation be_val :: "bytes \<Rightarrow> nat" where
  "be_val b \<equiv> foldl (\<lambda>a c. a * 256 + byte_val c) 0 b"

lemma byte_val_less: "byte_val c < 256"
proof -
  have "byte_val c = byte_val c mod 256" by (metis char_of_char of_char_of)
  also have "\<dots> < 256" by simp
  finally show ?thesis .
qed

lemma be_val_less: "be_val b < 256 ^ length b"
proof (induction b rule: rev_induct)
  case (snoc c b)
  then have "be_val b * 256 + byte_val c < (be_val b + 1) * 256" using byte_val_less [of c] by simp
  also have "\<dots> \<le> 256 ^ length b * 256" using snoc by (intro mult_right_mono) simp_all
  finally show ?case by simp
qed simp

lemma be_val_inj: "length a = length b \<Longrightarrow> be_val a = be_val b \<Longrightarrow> a = b"
proof (induction a arbitrary: b rule: rev_induct)
  case (snoc c a)
  then obtain b' d where b: "b = b' @ [d]" by (cases b rule: rev_cases) auto
  from snoc.prems b have eq: "be_val a * 256 + byte_val c = be_val b' * 256 + byte_val d" by simp
  have cd: "byte_val c < 256" "byte_val d < 256" by (rule byte_val_less)+
  have "byte_val c = byte_val d" using arg_cong [OF eq, of "\<lambda>n. n mod 256"] cd by simp
  moreover have "be_val a = be_val b'" using eq calculation by simp
  ultimately show ?case using snoc.IH [of b'] snoc.prems(1) b of_char_eq_iff by auto
qed simp

lemma from_be32_inj: "length a = length b \<Longrightarrow> length b \<le> 4 \<Longrightarrow> from_be32 a = from_be32 b \<Longrightarrow> a = b"
proof -
  assume l: "length a = length b" "length b \<le> 4" and e: "from_be32 a = from_be32 b"
  have "be_val a < 2 ^ 32" "be_val b < 2 ^ 32"
    using be_val_less [of a] be_val_less [of b] l power_increasing [of "length b" 4 "256 :: nat"] by simp_all
  then have "be_val a = be_val b"
    using arg_cong [OF e, of unat] by (simp add: from_be32_def unat_of_nat)
  with l(1) show "a = b" by (rule be_val_inj)
qed

lemma le_word_eq_iff: "length a = length b \<Longrightarrow> length b \<le> 4 \<Longrightarrow> le_word a = le_word b \<longleftrightarrow> a = b"
  unfolding le_word_def by (metis from_be32_inj length_rev rev_rev_ident)

lemma le_word_rev_be32 [simp]: "le_word (rev (be32 w)) = w"
  by (simp add: le_word_def)

lemma byte_char_inj [simp]: "byte_char a = byte_char b \<longleftrightarrow> a = b"
  by (metis byte_char_val word_unat_eq_iff)

lemma ip4_bytes_inj [simp]: "ip4_bytes a = ip4_bytes b \<longleftrightarrow> a = b"
  by (cases a; cases b) auto

lemma length_ip4_bytes [simp]: "length (ip4_bytes a) = 4"
  by (cases a) simp

lemma length_port_bytes [simp]: "length (port_bytes p) = 2"
  by (simp add: port_bytes_def)

lemma port_bytes_inj [simp]: "port_bytes p = port_bytes q \<longleftrightarrow> p = q"
proof
  assume e: "port_bytes p = port_bytes q"
  have b: "unat p div 256 < 256" "unat q div 256 < 256"
    using unat_u16_le [of p] unat_u16_le [of q] by (simp_all add: less_mult_imp_div_less)
  have "byte_val (char_of (unat p div 256)) = byte_val (char_of (unat q div 256))"
    "byte_val (char_of (unat p mod 256)) = byte_val (char_of (unat q mod 256))"
    using e by (simp_all add: port_bytes_def)
  then have "unat p div 256 = unat q div 256" "unat p mod 256 = unat q mod 256"
    using b by (simp_all add: of_char_of)
  then have "unat p = unat q" by (metis div_mult_mod_eq)
  then show "p = q" by (simp add: word_unat_eq_iff)
qed simp

section \<open>The kernel's reply\<close>

text \<open>A TCP socket the kernel reports: its address pair and owner, and the fields nobody reads
  (state, timers, interface, cookie, queues, inode, attributes).\<close>

record tcp_socket =
  ts_src :: "(u8 \<times> u8 \<times> u8 \<times> u8) \<times> u16"
  ts_dst :: "(u8 \<times> u8 \<times> u8 \<times> u8) \<times> u16"
  ts_uid :: Uid
  ts_state :: bytes
  ts_mid :: bytes
  ts_tail :: bytes

definition zeros12 :: bytes where
  "zeros12 = replicate 12 (CHR 0x00)"

text \<open>The layout of \<^verbatim>\<open>struct inet_diag_msg\<close> and \<^verbatim>\<open>struct nlmsghdr\<close>.\<close>

definition diag_bytes :: "tcp_socket \<Rightarrow> bytes" where
  "diag_bytes e = [char_of (2 :: nat)] @ ts_state e @ port_bytes (snd (ts_src e)) @ port_bytes (snd (ts_dst e))
     @ ip4_bytes (fst (ts_src e)) @ zeros12 @ ip4_bytes (fst (ts_dst e)) @ zeros12
     @ ts_mid e @ rev (be32 (ts_uid e)) @ ts_tail e"

definition nl_frame :: "nat \<Rightarrow> bytes \<Rightarrow> bytes \<Rightarrow> bytes" where
  "nl_frame ty fill payload =
     rev (be32 (word_of_nat (16 + length payload))) @ [char_of ty, CHR 0x00] @ fill @ payload"

definition socket_ok :: "tcp_socket \<Rightarrow> bool" where
  "socket_ok e \<longleftrightarrow> length (ts_state e) = 3 \<and> length (ts_mid e) = 24 \<and> 4 \<le> length (ts_tail e)
     \<and> 4 dvd length (ts_tail e) \<and> length (ts_tail e) < 2 ^ 31"

definition diag_frame :: "bytes \<Rightarrow> tcp_socket \<Rightarrow> bytes" where
  "diag_frame fill e = nl_frame 20 fill (diag_bytes e)"

lemma length_diag_bytes: "socket_ok e \<Longrightarrow> length (diag_bytes e) = 68 + length (ts_tail e)"
  by (simp add: diag_bytes_def socket_ok_def zeros12_def)

lemma field_at:
  assumes "b = h @ f @ t" "length h = k" "length f = n"
  shows "mem_at (length pre + k) n (pre @ b @ rest) = f"
  using assms by (simp add: mem_at_def)

lemma diag_fields:
  assumes "socket_ok e"
  shows "mem_at (length pre + 4) 2 (pre @ diag_bytes e @ rest) = port_bytes (snd (ts_src e))"
    and "mem_at (length pre + 6) 2 (pre @ diag_bytes e @ rest) = port_bytes (snd (ts_dst e))"
    and "mem_at (length pre + 8) 4 (pre @ diag_bytes e @ rest) = ip4_bytes (fst (ts_src e))"
    and "mem_at (length pre + 24) 4 (pre @ diag_bytes e @ rest) = ip4_bytes (fst (ts_dst e))"
    and "mem_at (length pre + 64) 4 (pre @ diag_bytes e @ rest) = rev (be32 (ts_uid e))"
    and "(pre @ diag_bytes e @ rest) ! length pre = char_of (2 :: nat)"
proof -
  have l: "length (ts_state e) = 3" "length (ts_mid e) = 24" using assms by (simp_all add: socket_ok_def)
  let ?h1 = "[char_of (2 :: nat)] @ ts_state e"
  let ?h2 = "?h1 @ port_bytes (snd (ts_src e))"
  let ?h3 = "?h2 @ port_bytes (snd (ts_dst e))"
  let ?h4 = "?h3 @ ip4_bytes (fst (ts_src e)) @ zeros12"
  let ?h5 = "?h4 @ ip4_bytes (fst (ts_dst e)) @ zeros12 @ ts_mid e"
  show "mem_at (length pre + 4) 2 (pre @ diag_bytes e @ rest) = port_bytes (snd (ts_src e))"
    by (rule field_at [of _ ?h1]) (simp_all add: diag_bytes_def l)
  show "mem_at (length pre + 6) 2 (pre @ diag_bytes e @ rest) = port_bytes (snd (ts_dst e))"
    by (rule field_at [of _ ?h2]) (simp_all add: diag_bytes_def l)
  show "mem_at (length pre + 8) 4 (pre @ diag_bytes e @ rest) = ip4_bytes (fst (ts_src e))"
    by (rule field_at [of _ ?h3]) (simp_all add: diag_bytes_def l)
  show "mem_at (length pre + 24) 4 (pre @ diag_bytes e @ rest) = ip4_bytes (fst (ts_dst e))"
    by (rule field_at [of _ ?h4]) (simp_all add: diag_bytes_def l zeros12_def)
  show "mem_at (length pre + 64) 4 (pre @ diag_bytes e @ rest) = rev (be32 (ts_uid e))"
    by (rule field_at [of _ ?h5]) (simp_all add: diag_bytes_def l zeros12_def)
  show "(pre @ diag_bytes e @ rest) ! length pre = char_of (2 :: nat)"
    by (simp add: diag_bytes_def)
qed

lemma diag_matches_frame:
  assumes "socket_ok e" "fill_addrs (V4 s sp) (V4 d dp) = Inr t"
  shows "diag_matches (pre @ diag_bytes e @ rest) (length pre) t AF_INET \<longleftrightarrow> ts_src e = (s, sp) \<and> ts_dst e = (d, dp)"
proof -
  have t: "st_sport t = port_to_be sp" "st_dport t = port_to_be dp"
    "st_src t ! 0 = le_word (ip4_bytes s)" "st_dst t ! 0 = le_word (ip4_bytes d)"
    using assms(2) by (auto simp: fill_addrs_def)
  note f = diag_fields [OF assms(1), of pre rest]
  have "rd8 (pre @ diag_bytes e @ rest) (length pre) = AF_INET"
    using f(6) by (simp add: rd8_def AF_INET_def of_char_of)
  then show ?thesis
    by (cases "ts_src e"; cases "ts_dst e")
      (auto simp: diag_matches_def addrs_equal_def t rd16_def rd32_def f port_to_be_def le_word_eq_iff)
qed

text \<open>One step of the loop over a complete message.\<close>

lemma length_nl_frame: "length fill = 10 \<Longrightarrow> length (nl_frame ty fill payload) = 16 + length payload"
  by (simp add: nl_frame_def)

lemma nl_frame_head:
  assumes "length fill = 10" "16 + length payload < 2 ^ 32" "ty < 256"
  shows "unat (rd32 (pre @ nl_frame ty fill payload @ rest) (length pre)) = 16 + length payload"
    and "rd16 (pre @ nl_frame ty fill payload @ rest) (length pre + 4) = word_of_nat ty"
proof -
  have "mem_at (length pre + 0) 4 (pre @ nl_frame ty fill payload @ rest) = rev (be32 (word_of_nat (16 + length payload)))"
    by (rule field_at [of _ "[]"]) (simp_all add: nl_frame_def)
  then show "unat (rd32 (pre @ nl_frame ty fill payload @ rest) (length pre)) = 16 + length payload"
    using assms(2) by (simp add: rd32_def unat_of_nat del: of_nat_add)
  have "mem_at (length pre + 4) 2 (pre @ nl_frame ty fill payload @ rest) = [char_of ty, CHR 0x00]"
    by (rule field_at [of _ "rev (be32 (word_of_nat (16 + length payload)))"]) (simp_all add: nl_frame_def)
  then show "rd16 (pre @ nl_frame ty fill payload @ rest) (length pre + 4) = word_of_nat ty"
    using assms(3) by (simp add: rd16_def le_word_def from_be32_def of_char_of)
qed

lemma diag_loop_frame:
  assumes "socket_ok e" "length fill = 10" "length (diag_frame fill e) < 2 ^ 32"
    and "fill_addrs (V4 s sp) (V4 d dp) = Inr t"
  shows "diag_loop (pre @ diag_frame fill e @ rest) t AF_INET (length pre) found
    = diag_loop (pre @ diag_frame fill e @ rest) t AF_INET (length (pre @ diag_frame fill e))
        (if ts_src e = (s, sp) \<and> ts_dst e = (d, dp) then found @ [ts_uid e] else found)"
proof -
  let ?buf = "pre @ diag_frame fill e @ rest"
  let ?n = "16 + length (diag_bytes e)"
  have ln: "length (diag_frame fill e) = ?n" using assms(2) by (simp add: diag_frame_def length_nl_frame)
  have hd: "unat (rd32 ?buf (length pre)) = ?n" "rd16 ?buf (length pre + 4) = 20"
    using nl_frame_head [of fill "diag_bytes e" 20 pre rest] assms(2,3) ln by (simp_all add: diag_frame_def)
  have dv: "4 dvd ?n" "72 \<le> length (diag_bytes e)"
    using assms(1) by (auto simp: length_diag_bytes [OF assms(1)] socket_ok_def)
  then have al: "nl_align ?n = ?n" by (auto simp: nl_align_def elim!: dvdE)
  let ?h = "rev (be32 (word_of_nat ?n)) @ [char_of (20 :: nat), CHR 0x00] @ fill"
  have sp: "?buf = (pre @ ?h) @ diag_bytes e @ rest" by (simp add: diag_frame_def nl_frame_def)
  have lh: "length pre + 16 = length (pre @ ?h)" using assms(2) by simp
  have m: "diag_matches ?buf (length pre + 16) t AF_INET \<longleftrightarrow> ts_src e = (s, sp) \<and> ts_dst e = (d, dp)"
    unfolding sp lh by (rule diag_matches_frame [OF assms(1,4)])
  have u: "diag_uid ?buf (length pre + 16) = ts_uid e"
    unfolding sp lh by (simp only: diag_uid_def rd32_def diag_fields(5) [OF assms(1)] le_word_rev_be32)
  show ?thesis
    by (subst diag_loop.simps)
      (use ln hd dv al m u in \<open>simp add: HDR_def DIAG_def NLMSG_DONE_def NLMSG_ERROR_def Let_def\<close>)
qed

lemma diag_loop_done:
  assumes "length fill = 10" "16 + length p < 2 ^ 32"
  shows "diag_loop (pre @ nl_frame 3 fill p @ rest) t fam (length pre) found = Inr found"
  by (subst diag_loop.simps)
    (use nl_frame_head [of fill p 3 pre rest] assms in \<open>simp add: length_nl_frame NLMSG_DONE_def HDR_def Let_def\<close>)

text \<open>The loop ends at a message that the buffer cuts off.\<close>

lemma diag_loop_short:
  assumes "length fill = 10" "16 + length p < 2 ^ 32" "m < 16 + length p"
  shows "diag_loop (pre @ take m (nl_frame ty fill p @ rest)) t fam (length pre) found = Inr found"
proof (cases "m < 16")
  case True
  with assms(1) show ?thesis by (subst diag_loop.simps) (simp add: HDR_def length_nl_frame)
next
  case False
  let ?n = "rev (be32 (word_of_nat (16 + length p)))"
  define x where "x = take m (nl_frame ty fill p @ rest)"
  have "x = ?n @ take (m - 4) ([char_of ty, CHR 0x00] @ fill @ p @ rest)"
    using False by (simp add: x_def nl_frame_def take_Cons')
  then have "mem_at (length pre + 0) 4 (pre @ x @ []) = ?n"
    by (intro field_at [of _ "[]"]) simp_all
  then have "unat (rd32 (pre @ x) (length pre)) = 16 + length p"
    using assms(2) by (simp add: rd32_def unat_of_nat del: of_nat_add)
  moreover have "length x = m"
    using assms by (simp add: x_def length_nl_frame)
  ultimately have "diag_loop (pre @ x) t fam (length pre) found = Inr found"
    using assms(3) False by (subst diag_loop.simps) (simp add: HDR_def Let_def)
  then show ?thesis by (simp only: x_def)
qed

text \<open>The sockets whose messages lie completely within \<open>n\<close> bytes; what may follow the messages of one datagram.\<close>

primrec received_in :: "nat \<Rightarrow> bytes \<Rightarrow> tcp_socket list \<Rightarrow> tcp_socket list" where
  "received_in n fill [] = []"
| "received_in n fill (e # es) =
     (if length (diag_frame fill e) \<le> n then e # received_in (n - length (diag_frame fill e)) fill es else [])"

definition datagram_end :: "bytes \<Rightarrow> bytes \<Rightarrow> bool" where
  "datagram_end fill rest \<longleftrightarrow> rest = [] \<or> (\<exists>p r. rest = nl_frame 3 fill p @ r \<and> length p < 2 ^ 31)"

lemma received_in_all:
  "length (concat (map (diag_frame fill) es)) \<le> n \<Longrightarrow> received_in n fill es = es"
  by (induction es arbitrary: n) auto

lemma diag_loop_end:
  assumes "length fill = 10" "datagram_end fill rest"
  shows "diag_loop (pre @ take m rest) t fam (length pre) found = Inr found"
proof (cases "rest = []")
  case True
  then show ?thesis by (subst diag_loop.simps) (simp add: HDR_def)
next
  case False
  then obtain p r where r: "rest = nl_frame 3 fill p @ r" "length p < 2 ^ 31"
    using assms(2) by (auto simp: datagram_end_def)
  then have l: "16 + length p < 2 ^ 32" by simp
  show ?thesis
  proof (cases "m < 16 + length p")
    case True
    then show ?thesis unfolding r by (rule diag_loop_short [OF assms(1) l])
  next
    case False
    then have "take m rest = nl_frame 3 fill p @ take (m - (16 + length p)) r"
      using r assms(1) by (simp add: length_nl_frame)
    then show ?thesis using diag_loop_done [OF assms(1) l] by simp
  qed
qed

lemma diag_loop_frames:
  assumes "\<forall>e \<in> set es. socket_ok e" "length fill = 10" "datagram_end fill rest"
    and "fill_addrs (V4 s sp) (V4 d dp) = Inr t"
  shows "diag_loop (pre @ take m (concat (map (diag_frame fill) es) @ rest)) t AF_INET (length pre) found
    = Inr (found @ map ts_uid (filter (\<lambda>e. ts_src e = (s, sp) \<and> ts_dst e = (d, dp)) (received_in m fill es)))"
  using assms(1)
proof (induction es arbitrary: pre m found)
  case Nil
  then show ?case using diag_loop_end [OF assms(2,3)] by simp
next
  case (Cons e es)
  let ?n = "length (diag_frame fill e)"
  let ?tail = "concat (map (diag_frame fill) es) @ rest"
  let ?f = "if ts_src e = (s, sp) \<and> ts_dst e = (d, dp) then found @ [ts_uid e] else found"
  have l: "?n = 16 + length (diag_bytes e)" "16 + length (diag_bytes e) < 2 ^ 32"
    using Cons.prems assms(2) by (auto simp: diag_frame_def length_nl_frame length_diag_bytes socket_ok_def)
  show ?case
  proof (cases "?n \<le> m")
    case True
    then have "diag_loop (pre @ take m (diag_frame fill e @ ?tail)) t AF_INET (length pre) found
      = diag_loop ((pre @ diag_frame fill e) @ take (m - ?n) ?tail) t AF_INET (length (pre @ diag_frame fill e)) ?f"
      using Cons.prems l by (simp add: diag_loop_frame [OF _ assms(2) _ assms(4)])
    also have "\<dots> = Inr (?f @ map ts_uid (filter (\<lambda>e. ts_src e = (s, sp) \<and> ts_dst e = (d, dp)) (received_in (m - ?n) fill es)))"
      using Cons.prems by (intro Cons.IH) simp_all
    finally show ?thesis using True by simp
  next
    case False
    with diag_loop_short [OF assms(2) l(2), of m pre 20 ?tail] l(1) show ?thesis by (simp add: diag_frame_def)
  qed
qed

text \<open>Identification of IPv4 clients is exact on what the one \<^verbatim>\<open>recv\<close> returns, and fails closed. When the first datagram of
  the kernel's answer to this query consists of the messages of the sockets \<open>es\<close>, laid out as the kernel does, and ends there or goes
  on with the message that ends the dump, the lookup sees the sockets whose messages lie within the 8192 bytes of the buffer; it returns
  a user only if exactly one of them has the client's address as its source and the daemon's as its destination, and then it is that
  socket's owner; no such socket or several give an error.\<close>

theorem tcp_peer_uid_exact:
  assumes "fill_addrs (V4 s sp) (V4 d dp) = Inr t" "netlink AF_INET t = Inr (concat (map (diag_frame fill) es) @ rest)"
    and "\<forall>e \<in> set es. socket_ok e" "length fill = 10" "datagram_end fill rest"
  shows "tcp_peer_uid netlink (V4 d dp) (V4 s sp) =
    (case filter (\<lambda>e. ts_src e = (s, sp) \<and> ts_dst e = (d, dp)) (received_in 8192 fill es) of
       [e] \<Rightarrow> Inr (ts_uid e)
     | [] \<Rightarrow> Inl (IoErr NotFound ''no matching TCP socket for peer UID lookup'')
     | _ \<Rightarrow> Inl (IoErr OtherKind ''ambiguous TCP peer UID (multiple matches)''))"
proof -
  let ?b = "concat (map (diag_frame fill) es) @ rest"
  have "diag_loop (take 8192 ?b) t AF_INET 0 []
      = Inr (map ts_uid (filter (\<lambda>e. ts_src e = (s, sp) \<and> ts_dst e = (d, dp)) (received_in 8192 fill es)))"
    using diag_loop_frames [OF assms(3-5,1), of "[]"] by simp
  then have "parse_inet_diag_uid (take 8192 ?b) t AF_INET =
    (case map ts_uid (filter (\<lambda>e. ts_src e = (s, sp) \<and> ts_dst e = (d, dp)) (received_in 8192 fill es)) of
       [uid] \<Rightarrow> Inr uid
     | [] \<Rightarrow> Inl (IoErr NotFound ''no matching TCP socket for peer UID lookup'')
     | _ \<Rightarrow> Inl (IoErr OtherKind ''ambiguous TCP peer UID (multiple matches)''))"
    by (simp add: parse_inet_diag_uid_def)
  then show ?thesis
    using assms(1,2) by (simp add: tcp_peer_uid_def query_inet_diag_uid_def addr_family_def split: list.split)
qed

definition demo_socket :: "u16 \<Rightarrow> Uid \<Rightarrow> tcp_socket" where
  "demo_socket port uid = \<lparr>ts_src = ((127, 0, 0, 1), port), ts_dst = ((127, 0, 0, 1), 5037), ts_uid = uid,
     ts_state = replicate 3 (CHR 0x01), ts_mid = replicate 24 (CHR 0x00), ts_tail = replicate 4 (CHR 0x00)\<rparr>"

text \<open>A kernel that answers the query for the socket from port \<open>port\<close> to the daemon with the given sockets, the end of the
  dump in a datagram of its own, and has nothing for any other query.\<close>

definition demo_kernel :: "u16 \<Rightarrow> tcp_socket list \<Rightarrow> nat \<Rightarrow> sock_tuple \<Rightarrow> io_error + bytes" where
  "demo_kernel port es family t =
     (if family = AF_INET \<and> fill_addrs (localhost port) (localhost 5037) = Inr t
      then Inr (concat (map (diag_frame (replicate 10 (CHR 0x00))) es)) else Inl (IoErr NotFound []))"

lemma demo_kernel_answer:
  "\<exists>t. fill_addrs (localhost port) (localhost 5037) = Inr t
     \<and> demo_kernel port es AF_INET t = Inr (concat (map (diag_frame (replicate 10 (CHR 0x00))) es) @ [])"
  by (auto simp: demo_kernel_def fill_addrs_def)

lemma demo_socket_fits:
  "received_in 8192 (replicate 10 (CHR 0x00)) [demo_socket p u, demo_socket q v] = [demo_socket p u, demo_socket q v]"
  by (rule received_in_all) (simp add: diag_frame_def length_nl_frame diag_bytes_def zeros12_def demo_socket_def)

lemma demo_socket_ok: "socket_ok (demo_socket p u)"
  by (simp add: socket_ok_def demo_socket_def)

theorem tcp_peer_uid_exact_witness:
  "tcp_peer_uid (demo_kernel 40001 [demo_socket 40000 1000, demo_socket 40001 1001]) (localhost 5037) (localhost 40001) = Inr 1001"
proof -
  let ?es = "[demo_socket 40000 1000, demo_socket 40001 1001]"
  obtain t where t: "fill_addrs (localhost 40001) (localhost 5037) = Inr t"
    "demo_kernel 40001 ?es AF_INET t = Inr (concat (map (diag_frame (replicate 10 (CHR 0x00))) ?es) @ [])"
    using demo_kernel_answer by blast
  have "tcp_peer_uid (demo_kernel 40001 ?es) (V4 (127, 0, 0, 1) 5037) (V4 (127, 0, 0, 1) 40001)
    = (case filter (\<lambda>e. ts_src e = ((127, 0, 0, 1), 40001) \<and> ts_dst e = ((127, 0, 0, 1), 5037)) (received_in 8192 (replicate 10 (CHR 0x00)) ?es) of
       [e] \<Rightarrow> Inr (ts_uid e)
     | [] \<Rightarrow> Inl (IoErr NotFound ''no matching TCP socket for peer UID lookup'')
     | _ \<Rightarrow> Inl (IoErr OtherKind ''ambiguous TCP peer UID (multiple matches)''))"
    by (rule tcp_peer_uid_exact, rule t(1), rule t(2)) (simp_all add: demo_socket_ok datagram_end_def)
  then show ?thesis unfolding demo_socket_fits by (simp add: demo_socket_def)
qed

end
