(* ===== verification/Joined.thy ===== *)
theory Joined
  imports Agent_Main Daemon_Server Daemon_Sessions Peercred
begin

text \<open>
  The agent and the daemon together: the bytes the agent of src/agent.rs writes to its control connection are
  the ones the daemon of src/daemon.rs reads from it. What a user sees on the daemon then follows what the
  user's agent published last, whatever other users, their agents and the streams do; and a client is served as the
  owner of its socket.
\<close>

section \<open>The control connection\<close>

text \<open>Bytes that arrive on a control connection, and the bytes a step of the agent wrote.\<close>

definition deliver :: "ckey \<Rightarrow> bytes \<Rightarrow> daemon \<Rightarrow> daemon" where
  "deliver k b = on_conn k (\<lambda>c. c\<lparr>ag_io := (ag_io c)\<lparr>rx := rx (ag_io c) @ b\<rparr>\<rparr>)"

definition written :: "asess \<Rightarrow> asess \<Rightarrow> bytes" where
  "written s s' = drop (length (tx (cl s))) (tx (cl s'))"

text \<open>A daemon and an agent whose connection \<open>k\<close> was accepted, with everything the agent wrote since then
  read by the daemon; \<open>ds\<close> is the list of the agent's last successful round (\<open>round_list\<close>, which is what such a round
  writes to the daemon). Between the agent's rounds come its other messages, its other steps, what the daemon does with its
  record of the connection, and the events of other users and of the shared list.\<close>

definition traffic :: "IpcMessage \<Rightarrow> bool" where
  "traffic m \<longleftrightarrow> (case m of MOpenResult _ \<Rightarrow> True | MStreamData _ _ \<Rightarrow> True | MStreamClose _ \<Rightarrow> True | MPong \<Rightarrow> True | _ \<Rightarrow> False)"

inductive linked :: "hub_toml \<Rightarrow> json \<Rightarrow> AgentConfig \<Rightarrow> ckey \<Rightarrow> DeviceEntry list \<Rightarrow> asess \<Rightarrow> daemon \<Rightarrow> bool"
  for toml js config k where
  start: "tx stream = [] \<Longrightarrow> send js (register_message rng) (agent_fresh net stream) = (Inr (), s0)
    \<Longrightarrow> refresh_and_publish toml js config fs0 fs1 False s0 = (Inr (), s)
    \<Longrightarrow> agent_config toml fs0 config = Inr c \<Longrightarrow> plain_names (hc_backends c) \<Longrightarrow> length (tx (cl s)) \<le> MAX_FRAME
    \<Longrightarrow> dc_conns d k = None \<Longrightarrow> rx io = tx (cl s)
    \<Longrightarrow> linked toml js config k (round_list toml c fs0 fs1 s0) s (agent_turn js k (agent_turn js k (agent_accept k io d)))"
| publish: "linked toml js config k ds s d \<Longrightarrow> refresh_and_publish toml js config fs0 fs1 True s = (Inr (), s')
    \<Longrightarrow> agent_config toml fs0 config = Inr c \<Longrightarrow> plain_names (hc_backends c) \<Longrightarrow> length (written s s') \<le> MAX_FRAME
    \<Longrightarrow> linked toml js config k (round_list toml c fs0 fs1 s) s' (agent_turn js k (deliver k (written s s') d))"
| message: "linked toml js config k ds s d \<Longrightarrow> traffic m \<Longrightarrow> send js m s = (Inr (), s') \<Longrightarrow> length (written s s') \<le> MAX_FRAME
    \<Longrightarrow> linked toml js config k ds s' (agent_turn js k (deliver k (written s s') d))"
| inside: "linked toml js config k ds s d \<Longrightarrow> a_routes s' = a_routes s \<Longrightarrow> tx (cl s') = tx (cl s) \<Longrightarrow> linked toml js config k ds s' d"
| bookkeeping: "linked toml js config k ds s d \<Longrightarrow> (\<And>c. ag_phase (f c) = ag_phase c \<and> rx (ag_io (f c)) = rx (ag_io c))
    \<Longrightarrow> linked toml js config k ds s (on_conn k f d)"
| others: "linked toml js config k ds s d \<Longrightarrow> \<not> event_about (fst k) ev \<or> ev = DShared r \<Longrightarrow> linked toml js config k ds s (daemon_step js ev d)"

section \<open>The daemon's side\<close>

text \<open>What the daemon holds when it has read the list \<open>ds\<close> last.\<close>

definition holds_list :: "ckey \<Rightarrow> DeviceEntry list \<Rightarrow> daemon \<Rightarrow> bool" where
  "holds_list k ds d \<longleftrightarrow> (\<exists>c. dc_conns d k = Some c \<and> ag_phase c = Reading \<and> rx (ag_io c) = [])
     \<and> dc_agents d (fst k) = Some (snd k)
     \<and> tr_private (dc_tenants d) (fst k) = Some (sanitized_to_snapshot (map sanitize ds))"

definition reads_from :: "ckey \<Rightarrow> bytes \<Rightarrow> daemon \<Rightarrow> bool" where
  "reads_from k b d \<longleftrightarrow> (\<exists>c. dc_conns d k = Some c \<and> ag_phase c = Reading \<and> rx (ag_io c) = b) \<and> dc_agents d (fst k) = Some (snd k)"

lemma fits_frame:
  assumes "json_ok js" "write_message js m c = (Inr (), c')" "length (ipc_frame js m) \<le> MAX_FRAME"
  shows "fits_ipc js m"
proof -
  obtain ty p where e: "encode_message js m = Inr (ty, p)"
    using assms(2) by (cases "encode_message js m") (auto simp: write_message_def bind_a_def lift_r_def)
  moreover have "1 + length p \<le> MAX_FRAME" using assms(3) e by (simp add: ipc_frame_def)
  ultimately show ?thesis by (rule fits_ipc_json [OF assms(1)])
qed

lemma reading_turn:
  assumes "reads_from k (ipc_frame js m @ b) d" "fits_ipc js m"
  shows "\<exists>d1. reads_from k b d1 \<and> dc_tenants d1 = dc_tenants d
    \<and> agent_turn js k d = (case agent_dispatch js k m d1 of (Inr _, d') \<Rightarrow> d' | (Inl _, d') \<Rightarrow> agent_cleanup k d')"
proof -
  obtain c where c: "dc_conns d k = Some c" "ag_phase c = Reading" "rx (ag_io c) = ipc_frame js m @ b"
    using assms(1) by (auto simp: reads_from_def)
  from read_message_frame [OF assms(2) c(3)] c assms(1) show ?thesis
    by (intro exI [of _ "on_conn k (\<lambda>a. a\<lparr>ag_io := (ag_io c)\<lparr>rx := b\<rparr>\<rparr>) d"])
      (auto simp: agent_turn_def reads_from_def on_conn_def)
qed

text \<open>A list is taken over; any other message the agent sends leaves the list.\<close>

lemma turn_takes_list:
  assumes "reads_from k (ipc_frame js (snapshot_message changed gen ds)) d" "fits_ipc js (snapshot_message changed gen ds)"
  shows "holds_list k ds (agent_turn js k d)"
proof -
  obtain d1 where d1: "reads_from k [] d1"
    "agent_turn js k d = (case agent_dispatch js k (snapshot_message changed gen ds) d1 of (Inr _, d') \<Rightarrow> d' | (Inl _, d') \<Rightarrow> agent_cleanup k d')"
    using reading_turn [of k js _ "[]"] assms by auto
  then show ?thesis
    by (cases changed) (simp_all add: snapshot_message_def Let_def agent_dispatch_def agent_snapshot_def holds_list_def reads_from_def tenant_defs)
qed

lemma holds_on_conn:
  assumes "holds_list k ds d" "\<And>c. ag_phase (f c) = ag_phase c \<and> rx (ag_io (f c)) = rx (ag_io c)"
  shows "holds_list k ds (on_conn k f d)"
  using assms by (auto simp: holds_list_def on_conn_def)

lemma turn_keeps_list:
  assumes "holds_list k ds d" "reads_from k (ipc_frame js m) (deliver k (ipc_frame js m) d)" "fits_ipc js m" "traffic m"
  shows "holds_list k ds (agent_turn js k (deliver k (ipc_frame js m) d))"
proof -
  obtain d1 where d1: "reads_from k [] d1" "dc_tenants d1 = dc_tenants (deliver k (ipc_frame js m) d)"
    "agent_turn js k (deliver k (ipc_frame js m) d) = (case agent_dispatch js k m d1 of (Inr _, d') \<Rightarrow> d' | (Inl _, d') \<Rightarrow> agent_cleanup k d')"
    using reading_turn [of k js m "[]"] assms(2,3) by auto
  have h: "holds_list k ds d1"
    using assms(1) d1(1,2) by (simp add: deliver_def on_conn_def holds_list_def reads_from_def)
  show ?thesis
    using d1(3) assms(4) h
    by (cases m) (simp_all add: traffic_def agent_dispatch_def holds_on_conn resolve_def queue_data_def)
qed

lemma deliver_reads: "holds_list k ds d \<Longrightarrow> reads_from k b (deliver k b d)"
  by (auto simp: holds_list_def reads_from_def deliver_def on_conn_def)

lemma holds_others:
  assumes "holds_list k ds d" "\<not> event_about (fst k) ev \<or> ev = DShared r"
  shows "holds_list k ds (daemon_step js ev d)"
proof (cases "event_about (fst k) ev")
  case False
  then have "own_part (fst k) (daemon_step js ev d) = own_part (fst k) d" by (simp add: hubd.others)
  then have "tr_private (dc_tenants (daemon_step js ev d)) (fst k) = tr_private (dc_tenants d) (fst k)"
    "dc_agents (daemon_step js ev d) (fst k) = dc_agents d (fst k)" "dc_conns (daemon_step js ev d) k = dc_conns d k"
    by (cases k; simp add: own_part_def; metis)+
  with assms(1) show ?thesis by (simp add: holds_list_def)
next
  case True
  with assms show ?thesis
    by (cases "dc_local d") (auto simp: poll_shared_once_def holds_list_def tenant_defs)
qed

text \<open>The registration, read first.\<close>

lemma hello_turn:
  assumes "dc_conns d k = None" "rx io = ipc_frame js (register_message rng) @ b" "fits_ipc js (register_message rng)"
  shows "reads_from k b (agent_turn js k (agent_accept k io d))"
proof -
  from read_message_frame [OF assms(3,2)] assms(1) show ?thesis
    by (cases k) (simp add: agent_turn_def agent_accept_def new_conn_def agent_hello_def register_message_def bind_a_def
        register_agent_def on_conn_def reads_from_def)
qed

section \<open>The view follows the agent\<close>

lemma written_append: "tx (cl s') = tx (cl s) @ b \<Longrightarrow> written s s' = b"
  by (simp add: written_def)

lemma linked_list:
  assumes "linked toml js config k ds s d" "json_ok js"
  shows "holds_list k ds d \<and> a_routes s = route_table ds \<and> keys_agree ds"
  using assms(1)
proof induction
  case (start stream rng net s0 fs0 fs1 s c d io)
  let ?ds = "round_list toml c fs0 fs1 s0"
  note ds = refresh_published [OF start(3-5)]
  have w0: "write_message js (register_message rng) stream = (Inr (), cl s0)"
    using start(2) by (auto simp: send_def on_client_def agent_fresh_def split: prod.splits)
  let ?h = "ipc_frame js (register_message rng)" and ?f = "ipc_frame js (snapshot_message False (a_generation s0 + 1) ?ds)"
  have t: "tx (cl s) = ?h @ ?f"
    using write_message_Inr_tx [OF w0] write_message_Inr_tx [OF ds(1)] start(1) by simp
  with start(6) have l: "length ?h \<le> MAX_FRAME" "length ?f \<le> MAX_FRAME" by simp_all
  have "reads_from k ?f (agent_turn js k (agent_accept k io d))"
    by (rule hello_turn) (use start(7,8) t fits_frame [OF assms(2) w0 l(1)] in simp_all)
  from turn_takes_list [OF this fits_frame [OF assms(2) ds(1) l(2)]] ds(2,3) show ?case by blast
next
  case (publish ds0 s d fs0 fs1 s' c)
  note ds = refresh_published [OF publish(2-4)]
  note w = written_append [OF write_message_Inr_tx [OF ds(1)]]
  from publish.IH have "holds_list k ds0 d" by blast
  from deliver_reads [OF this] have "reads_from k (written s s') (deliver k (written s s') d)" .
  then have "holds_list k (round_list toml c fs0 fs1 s) (agent_turn js k (deliver k (written s s') d))"
    unfolding w by (rule turn_takes_list) (rule fits_frame [OF assms(2) ds(1)], use publish(5) w in simp)
  with ds(2,3) show ?case by blast
next
  case (message ds s d m s')
  from message.IH have ds: "holds_list k ds d" "a_routes s = route_table ds" "keys_agree ds" by blast+
  have wm: "write_message js m (cl s) = (Inr (), cl s')" "a_routes s' = a_routes s"
    using message(3) by (auto simp: send_def on_client_def split: prod.splits)
  note w = written_append [OF write_message_Inr_tx [OF wm(1)]]
  have "holds_list k ds (agent_turn js k (deliver k (written s s') d))"
    unfolding w by (rule turn_keeps_list [OF ds(1) deliver_reads [OF ds(1)] fits_frame [OF assms(2) wm(1)] message(2)])
      (use message(4) w in simp)
  with ds(2,3) wm(2) show ?case by metis
next
  case (inside ds s d s')
  then show ?case by metis
next
  case (bookkeeping ds s d f)
  then have ds: "holds_list k ds d" "a_routes s = route_table ds" "keys_agree ds" by blast+
  from holds_on_conn [OF ds(1) bookkeeping(2)] have "holds_list k ds (on_conn k f d)" .
  with ds(2,3) show ?case by blast
next
  case (others ds s d ev r)
  then show ?case using holds_others by blast
qed

section \<open>Properties\<close>

text \<open>C5: A user sees what the user's agent published last. As long as an agent and the daemon are linked (its messages are within the size
  limit of a frame, and its backend names are distinct and hold no colon), through any successful rounds of the agent, stream traffic and
  events of other users, the agent is the registered one and the user's view is the shared list followed by exactly the
  list of the agent's last successful round: its devices, in its order, each with its serial, state and extras and without a pair code. Every
  private device of the view has a route id that the agent's table resolves to this device.\<close>

theorem view_follows_agent:
  assumes "linked toml js config k ds s d" "json_ok js"
  shows "dc_agents d (fst k) = Some (snd k)
    \<and> devices (snapshot_for (fst k) (dc_tenants d)) = devices (tr_shared (dc_tenants d)) @ devices (sanitized_to_snapshot (map sanitize ds))
    \<and> map (\<lambda>e. (public_serial e, upstream_serial e, dev_state e, extras e, backend_name e, pair_code e)) (devices (sanitized_to_snapshot (map sanitize ds)))
        = map (\<lambda>e. (public_serial e, upstream_serial e, dev_state e, extras e, backend_name e, None)) ds
    \<and> a_routes s = route_table ds
    \<and> (\<forall>e \<in> set (devices (sanitized_to_snapshot (map sanitize ds))). \<exists>rid r.
         route_id e = Some rid \<and> a_routes s rid = Some r \<and> re_upstream_serial r = upstream_serial e)"
proof -
  have ds: "holds_list k ds d" "a_routes s = route_table ds" "keys_agree ds"
    using linked_list [OF assms] by blast+
  have "\<forall>e \<in> set (devices (sanitized_to_snapshot (map sanitize ds))). \<exists>rid r.
      route_id e = Some rid \<and> a_routes s rid = Some r \<and> re_upstream_serial r = upstream_serial e"
    using route_table_resolves [OF ds(3)] ds(2) by (auto simp: sanitized_to_snapshot_def sanitize_def route_of_def)
  moreover have "map (\<lambda>e. (public_serial e, upstream_serial e, dev_state e, extras e, backend_name e, pair_code e)) (devices (sanitized_to_snapshot (map sanitize ds)))
      = map (\<lambda>e. (public_serial e, upstream_serial e, dev_state e, extras e, backend_name e, None)) ds"
    by (simp add: sanitized_to_snapshot_def sanitize_def)
  ultimately show ?thesis using ds(1,2) by (simp add: holds_list_def snapshot_for_def)
qed

text \<open>C6: An IPv4 client is served as the owner of its socket. When the first datagram of the kernel's answer to the lookup of this client
  consists of the messages of the TCP sockets \<open>es\<close> and ends there or with the end of the dump, the task of the client behaves as
  a session of the user who owns the one socket that leads from the client's address to the daemon's, among those whose messages fit in
  the receive buffer; with no such socket, or several, it only answers that it cannot identify the user. So it does when the query
  fails.\<close>

theorem client_served_as_owner:
  assumes "fill_addrs (V4 a ap) (V4 l lp) = Inr t"
    and "netlink AF_INET t = Inl err \<or> netlink AF_INET t = Inr (concat (map (diag_frame fill) es) @ rest)"
    and "\<forall>e \<in> set es. socket_ok e" "length fill = 10" "datagram_end fill rest"
  shows "client_task js env (tcp_peer_uid netlink) (V4 l lp) (V4 a ap) s =
      (case (netlink AF_INET t, map ts_uid (filter (\<lambda>e. ts_src e = (a, ap) \<and> ts_dst e = (l, lp)) (received_in 8192 fill es))) of
         (Inr _, [uid]) \<Rightarrow> handle_adb_client js env (Inr uid) s
       | _ \<Rightarrow> on_client (write_fail ''unable to identify client user'') s)"
proof (cases "netlink AF_INET t")
  case (Inl e)
  then have "tcp_peer_uid netlink (V4 l lp) (V4 a ap) = Inl e"
    using assms(1) by (simp add: tcp_peer_uid_def query_inet_diag_uid_def addr_family_def)
  then show ?thesis using Inl by (simp add: client_task_def handle_adb_client_def)
next
  case (Inr b)
  then have "netlink AF_INET t = Inr (concat (map (diag_frame fill) es) @ rest)" using assms(2) by auto
  note u = tcp_peer_uid_exact [where netlink = netlink, OF assms(1) this assms(3-5)]
  show ?thesis unfolding client_task_def u using Inr by (simp add: handle_adb_client_def split: list.split)
qed

section \<open>Witnesses\<close>

text \<open>An agent with one backend that has one device, and a codec for its two messages.\<close>

definition demo_register :: RegisterAgent where
  "demo_register = \<lparr>ra_version = PROTOCOL_VERSION, ra_capabilities = [''devices'', ''streams''], ra_instance_token = random_token (\<lambda>_. 0)\<rparr>"

definition demo_snapshot :: DeviceSnapshotMsg where
  "demo_snapshot = \<lparr>ds_generation = 1, ds_devices = map sanitize demo_list\<rparr>"

definition link_json :: json where
  "link_json = \<lparr>j_register = \<lambda>m. (if m = demo_register then Inr ''R'' else Inl []), j_snapshot = \<lambda>m. (if m = demo_snapshot then Inr ''S'' else Inl []),
     j_open = \<lambda>_. Inl [], j_result = \<lambda>_. Inl [], j_close = \<lambda>_. Inl [],
     p_register = \<lambda>_. Inr demo_register, p_snapshot = \<lambda>_. Inr demo_snapshot, p_open = \<lambda>_. Inl [], p_result = \<lambda>_. Inl [], p_close = \<lambda>_. Inl []\<rparr>"

lemma link_json_ok: "json_ok link_json"
  by (auto simp: json_ok_def link_json_def split: if_splits)

lemma link_encode:
  "encode_message link_json (register_message (\<lambda>_. 0)) = Inr (MtRegisterAgent, ''R'')"
  "encode_message link_json (snapshot_message False 1 demo_list) = Inr (MtDeviceSnapshot, ''S'')"
  by (simp_all add: encode_message_def register_message_def snapshot_message_def Let_def to_json_def link_json_def demo_register_def demo_snapshot_def)

lemma demo_linked:
  "\<exists>s d. linked (\<lambda>_. Inl []) link_json demo_agent (7, 0) demo_list s d"
proof -
  let ?h = "ipc_frame link_json (register_message (\<lambda>_. 0))" and ?f = "ipc_frame link_json (snapshot_message False 1 demo_list)"
  let ?c0 = "(open_conn [])\<lparr>tx := ?h\<rparr>"
  let ?s0 = "demo_asess\<lparr>cl := ?c0\<rparr>"
  let ?net = "\<lambda>_ _. Inr (open_conn (okay_reply ''S1 device''))"
  have fresh: "agent_fresh ?net (open_conn []) = demo_asess" by (simp add: agent_fresh_def demo_asess_def)
  have w0: "write_message link_json (register_message (\<lambda>_. 0)) (open_conn []) = (Inr (), ?c0)"
    by (subst write_message_tx [OF _ link_encode(1)]) simp_all
  have send0: "send link_json (register_message (\<lambda>_. 0)) (agent_fresh ?net (open_conn [])) = (Inr (), ?s0)"
    unfolding fresh using w0 by (simp add: send_def on_client_def demo_asess_def)
  have e: "enabled_backends (agent_hub demo_hub) = [demo_backend ''a'']"
    by (simp add: enabled_backends_def agent_hub_def demo_backend_def)
  let ?fp = "backends_fingerprint [demo_backend ''a'']"
  have "?fp \<noteq> []" by (simp add: backends_fingerprint_def demo_backend_def)
  then have g: "gate_names [demo_backend ''a''] ?s0 = (Inr {''a''}, demo_asess\<lparr>cl := ?c0, a_compat := (?fp, {''a''})\<rparr>)"
    by (simp add: gate_names_def Let_def demo_asess_def bind_a_def) (simp add: demo_backend_def)
  have p: "poll_lists {''a''} [demo_backend ''a''] (demo_asess\<lparr>cl := ?c0, a_compat := (?fp, {''a''})\<rparr>)
      = (Inr [(demo_backend ''a'', ''S1 device'')], demo_asess\<lparr>cl := ?c0, a_compat := (?fp, {''a''}), dials := 1\<rparr>)"
    using demo_fetch [of "''a''" "(?fp, {''a''})" ?c0] by (simp add: bind_a_def) (simp add: demo_backend_def)
  have w: "write_message link_json (snapshot_message False 1 demo_list) ?c0 = (Inr (), ?c0\<lparr>tx := ?h @ ?f\<rparr>)"
    by (subst write_message_tx [OF _ link_encode(2)]) simp_all
  have "\<exists>s. publish_routes link_json False demo_list (demo_asess\<lparr>cl := ?c0, a_compat := x, dials := 1\<rparr>) = (Inr (), s) \<and> tx (cl s) = ?h @ ?f" for x
    using w by (simp add: publish_routes_def Let_def send_def on_client_def demo_asess_def)
  then obtain s where "publish_routes link_json False demo_list (demo_asess\<lparr>cl := ?c0, a_compat := (?fp, {''a''}), dials := 1\<rparr>) = (Inr (), s)"
    and t: "tx (cl s) = ?h @ ?f" by blast
  then have r: "refresh_and_publish (\<lambda>_. Inl []) link_json demo_agent (demo_fs None) (demo_fs None) False ?s0 = (Inr (), s)"
    by (simp only: refresh_and_publish_def demo_config(1) bind_lift agent_round_def Let_def e demo_filtered
        bind_a_Pair(1) [where m = "gate_names [demo_backend ''a'']", OF g] bind_a_Pair(1) [where m = "poll_lists {''a''} [demo_backend ''a'']", OF p])
  have l: "length (tx (cl s)) \<le> MAX_FRAME"
    unfolding t by (simp add: ipc_frame_def link_encode MAX_FRAME_def)
  let ?d = "daemon_init None 41 (\<lambda>_ _. Inr 0)"
  have "linked (\<lambda>_. Inl []) link_json demo_agent (7, 0) demo_list s
     (agent_turn link_json (7, 0) (agent_turn link_json (7, 0) (agent_accept (7, 0) (open_conn (tx (cl s))) ?d)))"
    using linked.start [OF _ send0 r demo_config l] by (simp add: daemon_init_def demo_round_list)
  then show ?thesis by blast
qed

theorem view_follows_agent_witness:
  "\<exists>s d. linked (\<lambda>_. Inl []) link_json demo_agent (7, 0) demo_list s d \<and> dc_agents d 7 = Some 0
     \<and> map public_serial (devices (snapshot_for 7 (dc_tenants d))) = map public_serial (devices (tr_shared (dc_tenants d))) @ [''S1'']"
proof -
  obtain s d where l: "linked (\<lambda>_. Inl []) link_json demo_agent (7, 0) demo_list s d" using demo_linked by blast
  have "map public_serial (devices (sanitized_to_snapshot (map sanitize demo_list))) = [''S1'']"
    by (simp add: sanitized_to_snapshot_def sanitize_def demo_list_def mk_entry_def)
  with view_follows_agent [OF l link_json_ok] l show ?thesis by (intro exI [of _ s] exI [of _ d]) simp
qed

theorem client_served_as_owner_witness:
  "client_task run_json demo_env (tcp_peer_uid (demo_kernel 40000 [demo_socket 40000 7, demo_socket 40001 8])) (localhost 5037) (localhost 40000)
     (demo_dsess (packet ''host:transport:X''))
   = handle_adb_client run_json demo_env (Inr 7) (demo_dsess (packet ''host:transport:X''))"
proof -
  let ?es = "[demo_socket 40000 7, demo_socket 40001 8]" and ?fill = "replicate 10 (CHR 0x00)"
  let ?s = "demo_dsess (packet ''host:transport:X'')"
  obtain t where t: "fill_addrs (localhost 40000) (localhost 5037) = Inr t"
    "demo_kernel 40000 ?es AF_INET t = Inr (concat (map (diag_frame ?fill) ?es) @ [])"
    using demo_kernel_answer by blast
  have "client_task run_json demo_env (tcp_peer_uid (demo_kernel 40000 ?es)) (V4 (127, 0, 0, 1) 5037) (V4 (127, 0, 0, 1) 40000) ?s
    = (case (demo_kernel 40000 ?es AF_INET t, map ts_uid (filter (\<lambda>e. ts_src e = ((127, 0, 0, 1), 40000) \<and> ts_dst e = ((127, 0, 0, 1), 5037))
          (received_in 8192 ?fill ?es))) of
         (Inr _, [uid]) \<Rightarrow> handle_adb_client run_json demo_env (Inr uid) ?s
       | _ \<Rightarrow> on_client (write_fail ''unable to identify client user'') ?s)"
    by (rule client_served_as_owner, rule t(1), rule disjI2, rule t(2)) (simp_all add: demo_socket_ok datagram_end_def)
  then show ?thesis unfolding demo_socket_fits t(2) by (simp add: demo_socket_def)
qed

end
