(* ===== verification/Hub.thy ===== *)
theory Hub
  imports Session Local
begin

text \<open>
  The hub server, src/hub.rs: putting the local adb server in front of the configured backends, the first
  poll, and the accept loop. The start is one function of the machine; the loop is a step relation,
  because the branch of \<^verbatim>\<open>select!\<close> that wins and the moment at which a session calls
  \<^verbatim>\<open>notify_waiters\<close> are not determined. Binding the listener is an argument.
\<close>

section \<open>Starting\<close>

datatype HubError = HubIo io_error | HubBind SocketAddr io_error | HubLocalAdb io_error

definition local_backend :: "SocketAddr \<Rightarrow> BackendConfig" where
  "local_backend addr = \<lparr>bc_name = local_backend_name, bc_addr = addr, bc_pair_code = None, bc_enabled = True\<rparr>"

definition add_local :: "SocketAddr \<Rightarrow> HubConfig \<Rightarrow> HubConfig" where
  "add_local addr c = c\<lparr>hc_backends := local_backend addr #
     filter (\<lambda>b. bc_name b \<noteq> bc_name (local_backend addr) \<and> bc_addr b \<noteq> bc_addr (local_backend addr)) (hc_backends c)\<rparr>"

text \<open>The configuration with the local server, and the value that keeps that server alive.\<close>

definition hub_local :: "HubConfig \<Rightarrow> ('x machine_scheme, HubConfig \<times> LocalAdb option) act" where
  "hub_local config =
     (if hc_include_local config then
        bind_a (prepare (hc_local_adb_port config)) (\<lambda>local.
        try_a (fetch_server_version (la_addr local) None) (\<lambda>r.
        let c = (case r of Inr v \<Rightarrow> config\<lparr>hc_adb_version := v\<rparr> | Inl _ \<Rightarrow> config)
        in ret (add_local (la_addr local) c, Some local)))
      else ret (config, None))"

record hub_server =
  hs_ctx :: SessionContext
  hs_registry :: DeviceRegistry
  hs_policy :: ReloadableHubPolicy
  hs_backends :: "BackendConfig list"

definition hub_context :: "BackendConfig list \<Rightarrow> SessionContext" where
  "hub_context bs = \<lparr>sx_default_backend = bc_addr (hd bs), sx_default_pair_code = bc_pair_code (hd bs),
     sx_backend_order = map bc_name bs\<rparr>"

text \<open>The initial poll works on the network of the machine and a registry of its own.\<close>

definition first_poll :: "BackendConfig list \<Rightarrow> 'x machine_scheme \<Rightarrow> DeviceRegistry \<times> 'x machine_scheme" where
  "first_poll bs s =
     (case poll_backends_once bs \<lparr>cl = cl s, dialer = dialer s, dials = dials s, spliced = spliced s,
        b_registry = DeviceRegistry_new, b_shared = Map.empty\<rparr> of
        (_, b) \<Rightarrow> (b_registry b, s\<lparr>cl := cl b, dials := dials b, spliced := spliced b\<rparr>))"

definition hub_start ::
  "hub_toml \<Rightarrow> fsys \<Rightarrow> (SocketAddr \<Rightarrow> io_error + unit) \<Rightarrow> HubConfig \<Rightarrow> 'x machine_scheme
     \<Rightarrow> (HubError + hub_server) \<times> LocalAdb option \<times> 'x machine_scheme" where
  "hub_start toml fs bind config s =
     (let policy = ReloadableHubPolicy_from_config toml fs config in
      case hub_local config s of
        (Inl e, s1) \<Rightarrow> (Inl (HubLocalAdb e), None, s1)
      | (Inr (c, adb), s1) \<Rightarrow>
          (let bs = filter bc_enabled (hc_backends c) in
           if bs = [] then (Inl (HubIo (IoErr InvalidInput ''no backends configured (all nodes disabled?)'')), adb, s1)
           else
             (case first_poll bs s1 of (reg, s2) \<Rightarrow>
                case bind (hc_listen c) of
                  Inl e \<Rightarrow> (Inl (HubBind (hc_listen c) e), adb, s2)
                | Inr _ \<Rightarrow> (Inr \<lparr>hs_ctx = hub_context bs, hs_registry = reg, hs_policy = policy, hs_backends = bs\<rparr>, adb, s2))))"

text \<open>Every way out of the function drops the local server.\<close>

definition drop_local :: "LocalAdb option \<Rightarrow> 'x machine_scheme \<Rightarrow> 'x machine_scheme" where
  "drop_local adb s = (case adb of None \<Rightarrow> s | Some l \<Rightarrow> LocalAdb_drop l s)"

section \<open>The accept loop\<close>

datatype hub_exit = ShutdownSignal | KillRequest | AcceptFailed io_error

text \<open>The loop and its \<^verbatim>\<open>Notify\<close>. As the library documents it, a call of \<^verbatim>\<open>notified()\<close> creates a future that
  is registered from then on; \<^verbatim>\<open>notify_waiters()\<close> wakes the futures that are registered at that moment and stores nothing for later
  ones; dropping a future removes it. Futures are numbered in the order of their creation. \<open>hl_future\<close> is the one the current round of
  \<^verbatim>\<open>select!\<close> waits on; there is none while the loop handles an accepted client, as \<^verbatim>\<open>select!\<close> drops the futures
  of the branches that lost before it runs the handler.\<close>

record hub_loop =
  hl_future :: "nat option"
  hl_waiters :: "nat set"
  hl_woken :: "nat set"
  hl_next :: nat
  hl_clients :: "(conn \<times> SocketAddr) list"
  hl_exit :: "hub_exit option"

definition notified :: "hub_loop \<Rightarrow> hub_loop" where
  "notified l = l\<lparr>hl_future := Some (hl_next l), hl_waiters := insert (hl_next l) (hl_waiters l), hl_next := Suc (hl_next l)\<rparr>"

definition notify_waiters :: "hub_loop \<Rightarrow> hub_loop" where
  "notify_waiters l = l\<lparr>hl_woken := hl_woken l \<union> hl_waiters l, hl_waiters := {}\<rparr>"

definition drop_future :: "hub_loop \<Rightarrow> hub_loop" where
  "drop_future l = l\<lparr>hl_waiters := hl_waiters l - set_option (hl_future l), hl_future := None\<rparr>"

text \<open>What happens: a shutdown signal, a session that calls \<^verbatim>\<open>notify_waiters\<close>, the loop taking the branch of its
  notification, a connection or a failed accept, and the next round of the loop.\<close>

datatype hub_event = EvShutdown | EvKill | EvHeard | EvClient "io_error + conn \<times> SocketAddr" | EvResume

definition loop_init :: hub_loop where
  "loop_init = notified \<lparr>hl_future = None, hl_waiters = {}, hl_woken = {}, hl_next = 0, hl_clients = [], hl_exit = None\<rparr>"

definition loop_exit :: "hub_exit \<Rightarrow> hub_loop \<Rightarrow> hub_loop" where
  "loop_exit e l = l\<lparr>hl_exit := Some e\<rparr>"

text \<open>Any branch of \<^verbatim>\<open>select!\<close> that is ready may win. An accepted client is spawned with the context of the hub, and the loop
  goes back to selecting.\<close>

inductive hub_step :: "hub_loop \<Rightarrow> hub_event \<Rightarrow> hub_loop \<Rightarrow> bool" where
  shutdown: "hl_exit l = None \<Longrightarrow> hl_future l = Some i \<Longrightarrow> hub_step l EvShutdown (loop_exit ShutdownSignal l)"
| kill: "hl_exit l = None \<Longrightarrow> hub_step l EvKill (notify_waiters l)"
| heard: "hl_exit l = None \<Longrightarrow> hl_future l = Some i \<Longrightarrow> i \<in> hl_woken l \<Longrightarrow> hub_step l EvHeard (loop_exit KillRequest l)"
| accepted: "hl_exit l = None \<Longrightarrow> hl_future l = Some i \<Longrightarrow>
    hub_step l (EvClient (Inr c)) ((drop_future l)\<lparr>hl_clients := hl_clients l @ [c]\<rparr>)"
| accept_failed: "hl_exit l = None \<Longrightarrow> hl_future l = Some i \<Longrightarrow> hub_step l (EvClient (Inl e)) (loop_exit (AcceptFailed e) l)"
| resume: "hl_exit l = None \<Longrightarrow> hl_future l = None \<Longrightarrow> hub_step l EvResume (notified l)"

inductive_cases hub_stepE: "hub_step l ev l'"

inductive hub_run :: "hub_loop \<Rightarrow> hub_event list \<Rightarrow> hub_loop \<Rightarrow> bool" where
  none: "hub_run l [] l"
| one: "hub_run l evs l1 \<Longrightarrow> hub_step l1 ev l2 \<Longrightarrow> hub_run l (evs @ [ev]) l2"

definition loop_result :: "hub_exit \<Rightarrow> HubError + unit" where
  "loop_result e = (case e of AcceptFailed err \<Rightarrow> Inl (HubIo err) | _ \<Rightarrow> Inr ())"

section \<open>The backends of a hub\<close>

text \<open>Every listed device belongs to a backend of the hub and has that backend's address and code.\<close>

definition listed_from :: "BackendConfig list \<Rightarrow> DeviceSnapshot \<Rightarrow> bool" where
  "listed_from bs snap \<longleftrightarrow> (\<forall>d \<in> set (devices snap). \<exists>b \<in> set bs.
     backend_name d = bc_name b \<and> backend_addr d = bc_addr b \<and> pair_code d = bc_pair_code b)"

lemma merge_listed_from:
  assumes "fst ` set lsts \<subseteq> set bs"
  shows "listed_from bs (merge_device_lists lsts)"
  unfolding listed_from_def using merge_entry_from_row assms by fastforce

text \<open>The first poll cannot fail.\<close>

lemma check_Inr: "\<exists>c. fst (check_proxy_compat a k s) = Inr c"
  by (auto simp: check_proxy_compat_def try_a_def split: prod.split sum.split)

lemma filter_compatible_Inr: "\<exists>out s'. filter_compatible_backends bs s = (Inr out, s')"
proof (induction bs arbitrary: s)
  case (Cons b bs)
  obtain c s1 where "check_proxy_compat (bc_addr b) (bc_pair_code b) s = (Inr c, s1)"
    using check_Inr [of "bc_addr b" "bc_pair_code b" s] by (metis prod.collapse)
  with Cons [of s] Cons [of s1] show ?case by (auto simp: bind_a_def)
qed simp

lemma fetch_all_Inr: "\<exists>lsts s'. fetch_all bs s = (Inr lsts, s')"
proof (induction bs arbitrary: s)
  case (Cons b bs)
  obtain body s1 where "fetch_or_empty b s = (Inr body, s1)"
    using fetch_or_empty_Inr [of b s] by (metis prod.collapse)
  with Cons [of s1] show ?case by (auto simp: bind_a_def)
qed simp

lemma fetch_all_backends: "fetch_all bs s = (Inr lsts, s') \<Longrightarrow> map fst lsts = bs"
  by (induction bs arbitrary: s lsts s') (auto simp: bind_a_cong_result)

lemma fill_missing_backends:
  assumes "fst ` set lsts \<subseteq> B" "set bs \<subseteq> B"
  shows "fst ` set (fill_missing bs lsts) \<subseteq> B"
  using assms unfolding fill_missing_def
  by (induction bs arbitrary: lsts) auto

lemma first_poll_listed: "listed_from bs (dr_inner (fst (first_poll bs s)))"
proof -
  let ?b = "\<lparr>cl = cl s, dialer = dialer s, dials = dials s, spliced = spliced s, b_registry = DeviceRegistry_new, b_shared = Map.empty\<rparr>"
  obtain kept s1 where f1: "filter_compatible_backends bs ?b = (Inr kept, s1)" using filter_compatible_Inr by blast
  obtain lsts s2 where f2: "fetch_all kept s1 = (Inr lsts, s2)" using fetch_all_Inr by blast
  obtain u b where p: "poll_backends_once bs ?b = (u, b)" by force
  have "fst ` set lsts \<subseteq> set bs"
    using fetch_all_backends [OF f2] filter_compatible_keeps [OF f1] by (metis list.set_map)
  then have "listed_from bs (merge_device_lists (fill_missing bs lsts))"
    by (intro merge_listed_from fill_missing_backends) auto
  moreover have "b_registry b = update_from_backend_lists (fill_missing bs lsts) (b_registry s2)"
    using p f1 f2 by (auto simp: poll_backends_once_def bind_a_def update_registry_def)
  ultimately have "listed_from bs (dr_inner (b_registry b))" by (simp add: update_from_backend_lists_def Let_def)
  then show ?thesis by (simp add: first_poll_def p)
qed

text \<open>The registry stays of that kind under every later publication.\<close>

lemma update_listed_from:
  "fst ` set lsts \<subseteq> set bs \<Longrightarrow> listed_from bs (dr_inner (update_from_backend_lists lsts reg))"
  by (simp add: update_from_backend_lists_def Let_def merge_listed_from)

section \<open>Lemmas on the start\<close>

lemma hub_local_result:
  assumes "hub_local config s = (Inr (c, adb), s')"
  shows "hc_listen c = hc_listen config \<and> hc_local_adb_port c = hc_local_adb_port config
    \<and> (if hc_include_local config
       then (\<exists>l. adb = Some l \<and> la_addr l = localhost (hc_local_adb_port config)) \<and>
         hc_backends c = hc_backends (add_local (localhost (hc_local_adb_port config)) config)
       else adb = None \<and> c = config)"
proof (cases "hc_include_local config")
  case True
  let ?p = "hc_local_adb_port config"
  obtain l s1 where p: "prepare ?p s = (Inr l, s1)"
    using assms True by (auto simp: hub_local_def bind_a_cong_result)
  then obtain adbp where "find_adb s = Inr adbp"
    by (auto simp: prepare_def bind_a_def lift_r_def split: sum.splits)
  from prepare_result [OF p this] have l: "la_addr l = localhost ?p" by auto
  obtain rv s2 where "fetch_server_version (la_addr l) None s1 = (rv, s2)" by force
  then show ?thesis using assms True p l
    by (auto simp: hub_local_def bind_a_def try_a_def Let_def add_local_def split: sum.splits)
qed (use assms in \<open>auto simp: hub_local_def\<close>)

lemma hub_start_cases:
  assumes "hub_start toml fs bind config s = (Inr h, adb, s')"
  obtains c s1 where "hub_local config s = (Inr (c, adb), s1)" "bind (hc_listen c) = Inr ()"
    "hs_backends h = filter bc_enabled (hc_backends c)" "hs_backends h \<noteq> []" "hs_ctx h = hub_context (hs_backends h)"
    "hs_policy h = ReloadableHubPolicy_from_config toml fs config" "hs_registry h = fst (first_poll (hs_backends h) s1)"
  using assms by (auto simp: hub_start_def Let_def split: sum.splits prod.splits if_splits)

section \<open>Properties\<close>

text \<open>C26: What a started hub serves. It has at least one backend, all of its backends are enabled, its first list names
  devices of these backends only, and requests without a device go to the first one; with local devices that is the real adb server on
  the side port, without a code, and no other backend has its name or address; the others are the enabled ones of the configuration,
  in order, and their names stay distinct.\<close>

theorem hub_start_spec:
  assumes "hub_start toml fs bind config s = (Inr h, adb, s')" "distinct (map bc_name (hc_backends config))"
  shows "hs_backends h \<noteq> [] \<and> distinct (map bc_name (hs_backends h)) \<and> (\<forall>b \<in> set (hs_backends h). bc_enabled b)
    \<and> listed_from (hs_backends h) (dr_inner (hs_registry h))
    \<and> sx_default_backend (hs_ctx h) = bc_addr (hd (hs_backends h)) \<and> sx_default_pair_code (hs_ctx h) = bc_pair_code (hd (hs_backends h))
    \<and> bind (hc_listen config) = Inr ()
    \<and> (let local = localhost (hc_local_adb_port config) in
       if hc_include_local config then adb \<noteq> None \<and> hs_backends h = local_backend local #
         filter (\<lambda>b. bc_enabled b \<and> bc_name b \<noteq> ''local'' \<and> bc_addr b \<noteq> local) (hc_backends config)
       else adb = None \<and> hs_backends h = enabled_backends config)"
proof -
  from assms(1) obtain c s1 where c: "hub_local config s = (Inr (c, adb), s1)" "bind (hc_listen c) = Inr ()"
    "hs_backends h = filter bc_enabled (hc_backends c)" "hs_backends h \<noteq> []" "hs_ctx h = hub_context (hs_backends h)"
    "hs_registry h = fst (first_poll (hs_backends h) s1)" by (rule hub_start_cases)
  note L = hub_local_result [OF c(1)]
  have bs: "let local = localhost (hc_local_adb_port config) in
       if hc_include_local config then adb \<noteq> None \<and> hs_backends h = local_backend local #
         filter (\<lambda>b. bc_enabled b \<and> bc_name b \<noteq> ''local'' \<and> bc_addr b \<noteq> local) (hc_backends config)
       else adb = None \<and> hs_backends h = enabled_backends config"
    using L c(3) by (auto simp: Let_def add_local_def local_backend_def local_backend_name_def enabled_backends_def conj_commute conj_left_commute
        split: if_splits)
  have "distinct (map bc_name (hs_backends h))"
    using bs assms(2) by (auto simp: Let_def local_backend_def local_backend_name_def enabled_backends_def distinct_map_filter split: if_splits)
  with bs c L first_poll_listed [of "hs_backends h" s1] show ?thesis by (auto simp: hub_context_def)
qed

text \<open>C18: Pair codes stay with their backend. Whatever a client of the hub sends, and whatever lists the watchers of the hub's
  backends have published, every upstream connection the client is joined to was dialled to the address of one of these backends and
  presented that backend's code, if any, before anything else.\<close>

theorem hub_codes_stay:
  assumes "hub_start toml fs bind config m = (Inr h, adb, m')"
    and "fst ` set lsts \<subseteq> set (hs_backends h)" "h_registry s = update_from_backend_lists lsts reg"
  shows "\<exists>ups. spliced (snd (handle_client toml pipe (hs_ctx h) evs s)) = spliced s @ ups
    \<and> (\<forall>u \<in> set ups. \<exists>b \<in> set (hs_backends h). \<exists>service. opened_for (dialer s) (bc_addr b) (bc_pair_code b) service u)"
proof -
  from assms(1) have c: "hs_backends h \<noteq> []" "hs_ctx h = hub_context (hs_backends h)" by (auto elim: hub_start_cases)
  have l: "listed_from (hs_backends h) (dr_inner (h_registry s))" unfolding assms(3) by (rule update_listed_from [OF assms(2)])
  have "\<exists>b \<in> set (hs_backends h). \<exists>service. opened_for (dialer s) (bc_addr b) (bc_pair_code b) service u"
    if t: "session_target (dialer s) (hs_ctx h) p (dr_inner (h_registry s)) service u" for p service u
  proof -
    from t consider (default) "opened_for (dialer s) (sx_default_backend (hs_ctx h)) (sx_default_pair_code (hs_ctx h)) service u"
      | (device) e up where "e \<in> set (devices (dr_inner (h_registry s)))" "opened_for (dialer s) (backend_addr e) (pair_code e) up u"
      unfolding session_target_def by blast
    then show ?thesis
    proof cases
      case default
      then show ?thesis using c by (intro bexI [of _ "hd (hs_backends h)"]) (auto simp: hub_context_def)
    next
      case device
      with l show ?thesis unfolding listed_from_def by metis
    qed
  qed
  with handle_client_upstreams [of toml pipe "hs_ctx h" evs s] show ?thesis by blast
qed

section \<open>The loop\<close>

definition clients_of :: "hub_event list \<Rightarrow> (conn \<times> SocketAddr) list" where
  "clients_of = List.map_filter (\<lambda>ev. case ev of EvClient (Inr c) \<Rightarrow> Some c | _ \<Rightarrow> None)"

lemma clients_of_snoc: "clients_of (evs @ [ev]) = clients_of evs @ (case ev of EvClient (Inr c) \<Rightarrow> [c] | _ \<Rightarrow> [])"
  by (auto simp: clients_of_def List.map_filter_def split: hub_event.split sum.split)

text \<open>Futures are numbered: the registered and the woken ones are old, and the current one is registered or woken.\<close>

definition loop_ok :: "hub_loop \<Rightarrow> bool" where
  "loop_ok l \<longleftrightarrow> (\<forall>i \<in> hl_waiters l \<union> hl_woken l. i < hl_next l)
     \<and> (\<forall>i. hl_future l = Some i \<longrightarrow> i \<in> hl_waiters l \<union> hl_woken l)"

lemmas loop_defs = loop_init_def notified_def notify_waiters_def drop_future_def loop_exit_def

lemma loop_ok_step: "hub_step l ev l' \<Longrightarrow> loop_ok l \<Longrightarrow> loop_ok l'"
  by (induction rule: hub_step.induct) (auto simp: loop_ok_def loop_defs less_Suc_eq)

lemma loop_ok_init: "loop_ok loop_init"
  by (simp add: loop_ok_def loop_defs)

lemma loop_ok_run: "hub_run l evs l' \<Longrightarrow> loop_ok l \<Longrightarrow> loop_ok l'"
  by (induction rule: hub_run.induct) (auto intro: loop_ok_step)

text \<open>The accept loop. In every run of the loop the clients served are exactly those accepted, in order; while the loop has
  not ended there was no shutdown signal and no failed accept; and it ends exactly at a shutdown signal, at a failed accept or when it
  hears of a kill request that was made, with an error only for the failed accept.\<close>

theorem hub_loop_spec:
  assumes "hub_run loop_init evs l"
  shows "hl_clients l = clients_of evs
    \<and> (hl_woken l \<noteq> {} \<longrightarrow> EvKill \<in> set evs)
    \<and> (case hl_exit l of
         None \<Rightarrow> EvShutdown \<notin> set evs \<and> EvHeard \<notin> set evs \<and> (\<forall>e. EvClient (Inl e) \<notin> set evs)
       | Some x \<Rightarrow> \<exists>before. EvShutdown \<notin> set before \<and> EvHeard \<notin> set before \<and> (\<forall>e. EvClient (Inl e) \<notin> set before) \<and>
           (case x of ShutdownSignal \<Rightarrow> evs = before @ [EvShutdown] | KillRequest \<Rightarrow> EvKill \<in> set before \<and> evs = before @ [EvHeard]
            | AcceptFailed e \<Rightarrow> evs = before @ [EvClient (Inl e)] \<and> loop_result x = Inl (HubIo e)))"
  using assms
proof (induction loop_init evs l rule: hub_run.induct)
  case (one evs l1 ev l2)
  from one.hyps(3) have "hl_exit l1 = None" by (auto elim: hub_stepE)
  with one show ?case
    by (auto elim!: hub_stepE simp: clients_of_snoc loop_defs loop_result_def)
qed (auto simp: loop_defs clients_of_def List.map_filter_def)

text \<open>A loop that no notification has woken. As long as no other kill request, signal or failed accept comes, it goes on.\<close>

definition unaware :: "hub_loop \<Rightarrow> bool" where
  "unaware l \<longleftrightarrow> (\<forall>i. hl_future l = Some i \<longrightarrow> i \<notin> hl_woken l)"

definition quiet :: "hub_event list \<Rightarrow> bool" where
  "quiet evs \<longleftrightarrow> EvKill \<notin> set evs \<and> EvShutdown \<notin> set evs \<and> (\<forall>e. EvClient (Inl e) \<notin> set evs)"

lemma unaware_run:
  assumes "hub_run l evs l'" "loop_ok l" "hl_exit l = None" "unaware l" "quiet evs"
  shows "hl_exit l' = None \<and> unaware l' \<and> loop_ok l'"
  using assms
proof (induction rule: hub_run.induct)
  case (one l evs l1 ev l2)
  then have h: "hl_exit l1 = None" "unaware l1" "loop_ok l1" "quiet [ev]" by (auto simp: quiet_def)
  with one.hyps(2) have "hl_exit l2 = None \<and> unaware l2"
    by (cases rule: hub_step.cases) (auto simp: loop_defs quiet_def unaware_def loop_ok_def)
  with h(3) loop_ok_step [OF one.hyps(2)] show ?case by blast
qed simp

lemma run_one: "hub_step l ev l' \<Longrightarrow> hub_run l [ev] l'"
  using hub_run.one [OF hub_run.none] by simp

lemma run_two: "hub_step l a l1 \<Longrightarrow> hub_step l1 b l2 \<Longrightarrow> hub_run l [a, b] l2"
  using hub_run.one [OF run_one] by simp

text \<open>C27: A kill request can go unheard. Take any moment of a running hub at which a session calls \<^verbatim>\<open>notify_waiters\<close> for
  \<^verbatim>\<open>host:kill\<close>. If the loop is handling an accepted client then, the request is lost: whatever follows, the hub does not end
  before another request, a signal or a failed accept. If the loop is selecting, it can take the branch of the notification and end;
  but when a connection is ready too and wins, the request is lost just the same.\<close>

theorem hub_kill_unheard:
  assumes "hub_run loop_init evs l" "hl_exit l = None" "hub_step l EvKill l1"
  shows "if hl_future l = None
    then \<forall>evs' l'. hub_run l1 evs' l' \<and> quiet evs' \<longrightarrow> hl_exit l' = None
    else (\<exists>l'. hub_step l1 EvHeard l' \<and> hl_exit l' = Some KillRequest)
       \<and> (\<forall>c l2. hub_step l1 (EvClient (Inr c)) l2 \<longrightarrow> (\<forall>evs' l'. hub_run l2 evs' l' \<and> quiet evs' \<longrightarrow> hl_exit l' = None))
       \<and> (\<forall>c. \<exists>l2. hub_step l1 (EvClient (Inr c)) l2)"
proof -
  have ok: "loop_ok l" using loop_ok_run [OF assms(1) loop_ok_init] .
  have l1: "l1 = notify_waiters l" using assms(3) by (auto elim: hub_stepE)
  have ok1: "loop_ok l1" using loop_ok_step [OF assms(3) ok] .
  have e1: "hl_exit l1 = None" "hl_future l1 = hl_future l" using assms(2) by (simp_all add: l1 loop_defs)
  show ?thesis
  proof (cases "hl_future l")
    case None
    then have "unaware l1" by (simp add: unaware_def e1)
    then have "\<forall>evs' l'. hub_run l1 evs' l' \<and> quiet evs' \<longrightarrow> hl_exit l' = None"
      using unaware_run [OF _ ok1 e1(1)] by blast
    with None show ?thesis by simp
  next
    case (Some i)
    with ok have "i \<in> hl_woken l1" by (auto simp: loop_ok_def l1 loop_defs)
    then have h: "hub_step l1 EvHeard (loop_exit KillRequest l1)" using Some e1 by (intro hub_step.heard) simp_all
    have a: "hub_step l1 (EvClient (Inr c)) ((drop_future l1)\<lparr>hl_clients := hl_clients l1 @ [c]\<rparr>)" for c
      using Some e1 by (intro hub_step.accepted) simp_all
    have lost: "hl_exit l' = None" if "hub_step l1 (EvClient (Inr c)) l2" "hub_run l2 evs' l'" "quiet evs'" for c l2 evs' l'
    proof -
      have l2: "hl_exit l2 = None" "unaware l2" using that(1) e1 by (auto elim!: hub_stepE simp: loop_defs unaware_def)
      from unaware_run [OF that(2) loop_ok_step [OF that(1) ok1] l2 that(3)] show ?thesis by blast
    qed
    have "hl_exit (loop_exit KillRequest l1) = Some KillRequest" by (simp add: loop_defs)
    with h a lost Some show ?thesis by (simp only: option.distinct if_False) blast
  qed
qed

text \<open>A client is accepted, then killed for, and another client comes.\<close>

definition demo_client :: "conn \<times> SocketAddr" where
  "demo_client = (open_conn [], localhost 40000)"

lemma demo_accepts: "\<exists>l. hub_run loop_init [EvClient (Inr demo_client)] l \<and> hl_exit l = None \<and> hl_future l = None"
proof -
  have "hub_step loop_init (EvClient (Inr demo_client)) ((drop_future loop_init)\<lparr>hl_clients := hl_clients loop_init @ [demo_client]\<rparr>)"
    by (rule hub_step.accepted [of _ 0]) (simp_all add: loop_defs)
  from run_one [OF this] show ?thesis by (intro exI conjI) (assumption | simp add: loop_defs)+
qed

theorem hub_kill_unheard_witness:
  "\<exists>l l1. hub_run loop_init [EvClient (Inr demo_client)] l \<and> hub_step l EvKill l1
     \<and> (\<exists>l2. hub_step l1 EvResume l2) \<and> (\<forall>l2. hub_step l1 EvResume l2 \<longrightarrow> hl_exit l2 = None \<and> \<not> (\<exists>l3. hub_step l2 EvHeard l3))"
proof -
  obtain l where l: "hub_run loop_init [EvClient (Inr demo_client)] l" "hl_exit l = None" "hl_future l = None"
    using demo_accepts by blast
  have k: "hub_step l EvKill (notify_waiters l)" by (rule hub_step.kill [OF l(2)])
  have never: "hl_exit l' = None" if "hub_run (notify_waiters l) evs' l'" "quiet evs'" for evs' l'
    using hub_kill_unheard [OF l(1,2) k] l(3) that by simp
  have r: "hub_step (notify_waiters l) EvResume (notified (notify_waiters l))"
    using l(2,3) by (intro hub_step.resume) (simp_all add: loop_defs)
  have "hl_exit l2 = None \<and> \<not> (\<exists>l3. hub_step l2 EvHeard l3)" if "hub_step (notify_waiters l) EvResume l2" for l2
  proof -
    have "hl_exit l2 = None" by (rule never [OF run_one [OF that]]) (simp add: quiet_def)
    moreover have "hl_exit l3 = None" if "hub_step l2 EvHeard l3" for l3
      by (rule never [OF run_two [OF \<open>hub_step (notify_waiters l) EvResume l2\<close> that]]) (simp add: quiet_def)
    then have "\<not> (\<exists>l3. hub_step l2 EvHeard l3)" by (force elim: hub_stepE simp: loop_defs)
    ultimately show ?thesis by blast
  qed
  with l(1) k r show ?thesis by blast
qed

theorem hub_loop_spec_witness:
  "\<exists>l. hub_run loop_init [EvKill, EvHeard] l \<and> hl_clients l = []"
proof -
  have "hub_step loop_init EvKill (notify_waiters loop_init)" by (rule hub_step.kill) (simp add: loop_defs)
  moreover have "hub_step (notify_waiters loop_init) EvHeard (loop_exit KillRequest (notify_waiters loop_init))"
    by (rule hub_step.heard [of _ 0]) (simp_all add: loop_defs)
  ultimately have r: "hub_run loop_init [EvKill, EvHeard] (loop_exit KillRequest (notify_waiters loop_init))" by (rule run_two)
  from hub_loop_spec [OF r] r show ?thesis by (auto simp: clients_of_def List.map_filter_def)
qed

text \<open>A hub with one remote backend and no local devices.\<close>

definition remote_hub :: HubConfig where
  "remote_hub = local_only\<lparr>hc_backends := [\<lparr>bc_name = ''r'', bc_addr = localhost 5038, bc_pair_code = Some ''ABCD1234'', bc_enabled = True\<rparr>],
     hc_include_local := False\<rparr>"

lemma remote_hub_starts:
  "\<exists>h m'. hub_start (\<lambda>_. Inl []) (demo_fs None) (\<lambda>_. Inr ()) remote_hub (demo_machine 9) = (Inr h, None, m') \<and> hs_backends h = hc_backends remote_hub"
  by (cases "first_poll (hc_backends remote_hub) (demo_machine 9)")
    (simp add: hub_start_def hub_local_def remote_hub_def Let_def)

theorem hub_start_spec_witness:
  "\<exists>h m'. hub_start (\<lambda>_. Inl []) (demo_fs None) (\<lambda>_. Inr ()) remote_hub (demo_machine 9) = (Inr h, None, m')
    \<and> sx_default_pair_code (hs_ctx h) = Some ''ABCD1234''"
proof -
  obtain h m' where h: "hub_start (\<lambda>_. Inl []) (demo_fs None) (\<lambda>_. Inr ()) remote_hub (demo_machine 9) = (Inr h, None, m')"
    "hs_backends h = hc_backends remote_hub" using remote_hub_starts by blast
  have "distinct (map bc_name (hc_backends remote_hub))" by (simp add: remote_hub_def)
  from hub_start_spec [OF h(1) this] h show ?thesis by (auto simp: remote_hub_def)
qed

theorem hub_codes_stay_witness:
  "\<exists>h m'. hub_start (\<lambda>_. Inl []) (demo_fs None) (\<lambda>_. Inr ()) remote_hub (demo_machine 9) = (Inr h, None, m') \<and>
     (\<exists>ups. spliced (snd (handle_client (\<lambda>_. Inl []) (\<lambda>c u. (Inr (), c, u)) (hs_ctx h) []
         ((demo_hsess (packet ''host:version'') (policy_of_config local_only) pick_snap)
            \<lparr>h_registry := update_from_backend_lists [] DeviceRegistry_new\<rparr>))) = ups
        \<and> (\<forall>u \<in> set ups. \<exists>service. opened_for (\<lambda>_ _. Inr (open_conn ''OKAY'')) (localhost 5038) (Some ''ABCD1234'') service u))"
proof -
  let ?s = "(demo_hsess (packet ''host:version'') (policy_of_config local_only) pick_snap)\<lparr>h_registry := update_from_backend_lists [] DeviceRegistry_new\<rparr>"
  obtain h m' where h: "hub_start (\<lambda>_. Inl []) (demo_fs None) (\<lambda>_. Inr ()) remote_hub (demo_machine 9) = (Inr h, None, m')"
    "hs_backends h = hc_backends remote_hub" using remote_hub_starts by blast
  have "h_registry ?s = update_from_backend_lists [] DeviceRegistry_new" by simp
  from hub_codes_stay [OF h(1) _ this, of "\<lambda>c u. (Inr (), c, u)" "[]"] h show ?thesis
    by (auto simp: remote_hub_def demo_hsess_def)
qed

end
