(* ===== verification/Commands.thy ===== *)
theory Commands
  imports Agent
begin

text \<open>
  The commands of the binaries, src/bin/adb-hub.rs, src/bin/adb-hubd.rs and src/main.rs: pairing and
  unpairing, the device and node tables, and how the effective configuration of a run is put together.
  A command works on the network, the file system and the lines it prints. Its errors are boxed: only
  their text is left. The parsed arguments are the input; the three default paths, which come from the
  environment, are arguments.
\<close>

section \<open>State\<close>

record csess = sess +
  c_fs :: fsys
  c_out :: "string list"

definition boxed :: "string \<Rightarrow> io_error" where
  "boxed msg = IoErr OtherKind msg"

definition say :: "string \<Rightarrow> (csess, unit) act" where
  "say line s = (Inr (), s\<lparr>c_out := c_out s @ [line]\<rparr>)"

fun say_all :: "string list \<Rightarrow> (csess, unit) act" where
  "say_all [] = ret ()"
| "say_all (l # ls) = then_a (say l) (say_all ls)"

text \<open>\<^verbatim>\<open>{:<n}\<close>: the width counts characters, that is the bytes that do not continue one.\<close>

definition char_count :: "string \<Rightarrow> nat" where
  "char_count s = length (filter (\<lambda>c. \<not> in_rng 128 191 (byte_val c)) s)"

definition pad_right :: "nat \<Rightarrow> string \<Rightarrow> string" where
  "pad_right n s = s @ replicate (n - char_count s) (CHR '' '')"

definition yes_no :: "bool \<Rightarrow> string" where
  "yes_no b = (if b then ''yes'' else ''no'')"

definition load_config :: "hub_toml \<Rightarrow> string \<Rightarrow> (csess, HubConfig) act" where
  "load_config toml path s =
     (map_err (\<lambda>e. boxed (ConfigError_display e)) (HubConfig_load_file toml (fs_read (c_fs s)) path), s)"

definition load_or_empty :: "hub_toml \<Rightarrow> string \<Rightarrow> (csess, HubConfig) act" where
  "load_or_empty toml path s =
     (if fs_is_file (c_fs s) path then load_config toml path s else (Inr local_only, s))"

definition save_config :: "(TomlFile \<Rightarrow> string + string) \<Rightarrow> string \<Rightarrow> HubConfig \<Rightarrow> (csess, unit) act" where
  "save_config ser path c s =
     (case HubConfig_save_file ser path c (c_fs s) of
        (r, fs) \<Rightarrow> (map_err (\<lambda>e. boxed (ConfigError_display e)) r, s\<lparr>c_fs := fs\<rparr>))"

section \<open>Pairing\<close>

definition run_pair ::
  "hub_toml \<Rightarrow> (TomlFile \<Rightarrow> string + string) \<Rightarrow> SocketAddr \<Rightarrow> string \<Rightarrow> string option \<Rightarrow> string \<Rightarrow> (csess, unit) act" where
  "run_pair toml ser addr code name path =
     then_a (lift_r (map_err boxed (validate_pair_code code)))
    (bind_a (dial addr) (\<lambda>stream.
     on_up (authenticate_stream code) stream (\<lambda>_ _.
     let backend_name = unwrap_or (default_backend_name addr) name in
     bind_a (check_proxy_compat addr (Some code)) (\<lambda>compat.
     if \<not> ProxyCompat_is_ok compat then
       then_a (say_all [user_message compat backend_name (addr_string addr),
           ''hint: upgrade adb-proxy on '' @ addr_string addr @ '' to >= '' @ MIN_PROXY_VERSION @
           '', then re-run pair (config was not updated).''])
         (throw (boxed (''incompatible adb-proxy version on '' @ addr_string addr)))
     else
     bind_a (load_or_empty toml path) (\<lambda>config.
     then_a (save_config ser path (upsert_backend
         \<lparr>bc_name = backend_name, bc_addr = addr, bc_pair_code = Some code, bc_enabled = True\<rparr> config))
       (case compat of
          POk version \<Rightarrow> say (''paired backend '' @ [CHR 0x27] @ backend_name @ [CHR 0x27] @ '' at '' @ addr_string addr @
            '' (adb-proxy '' @ version @ '', pair_code saved to '' @ path @ '')'')
        | _ \<Rightarrow> ret ()))))))"

definition run_unpair :: "hub_toml \<Rightarrow> (TomlFile \<Rightarrow> string + string) \<Rightarrow> string \<Rightarrow> string \<Rightarrow> (csess, unit) act" where
  "run_unpair toml ser name path =
     bind_a (load_or_empty toml path) (\<lambda>config.
     let kept = filter (\<lambda>b. bc_name b \<noteq> name) (hc_backends config) in
     if length kept = length (hc_backends config) then
       throw (boxed (''backend '' @ [CHR 0x27] @ name @ [CHR 0x27] @ '' not found''))
     else
       then_a (save_config ser path (config\<lparr>hc_backends := kept\<rparr>))
         (say (''unpaired backend '' @ [CHR 0x27] @ name @ [CHR 0x27] @ '' ('' @ path @ '')'')))"

definition node_table :: "string \<Rightarrow> BackendConfig list \<Rightarrow> string list" where
  "node_table what bs =
     (pad_right 20 ''NAME'' @ '' '' @ pad_right 24 ''ADDR'' @ '' ENABLED'')
     # map (\<lambda>b. pad_right 20 (bc_name b) @ '' '' @ pad_right 24 (addr_string (bc_addr b)) @ '' '' @ yes_no (bc_enabled b)) bs
     @ (if bs = [] then [''(no paired '' @ what @ '')''] else [])"

definition run_list :: "hub_toml \<Rightarrow> string \<Rightarrow> (csess, unit) act" where
  "run_list toml path = bind_a (load_or_empty toml path) (\<lambda>config. say_all (node_table ''backends'' (hc_backends config)))"

section \<open>Device and node tables\<close>

datatype DeviceAction = DeviceList | DeviceEnable string | DeviceDisable string
datatype NodeAction = NodeList | NodeEnable string | NodeDisable string

fun poll_warned :: "BackendConfig list \<Rightarrow> (csess, (BackendConfig \<times> string) list) act" where
  "poll_warned [] = ret []"
| "poll_warned (b # bs) =
     bind_a (try_a (fetch_devices_l (bc_addr b) (bc_pair_code b)) (\<lambda>r. case r of
         Inr body \<Rightarrow> ret body
       | Inl err \<Rightarrow> then_a (say (''warning: poll '' @ bc_name b @ '' ('' @ addr_string (bc_addr b) @ '') failed: '' @ err_msg err)) (ret [])))
       (\<lambda>body. bind_a (poll_warned bs) (\<lambda>rest. ret ((b, body) # rest)))"

definition device_table :: "DevicePolicyTable \<Rightarrow> DeviceEntry list \<Rightarrow> string list" where
  "device_table t ds =
     (pad_right 28 ''SERIAL'' @ '' '' @ pad_right 12 ''STATE'' @ '' '' @ pad_right 10 ''ENABLED'' @ '' NODE'')
     # map (\<lambda>d. pad_right 28 (public_serial d) @ '' '' @ pad_right 12 (dev_state d) @ '' '' @
         pad_right 10 (yes_no (is_enabled t (public_serial d))) @ '' '' @ backend_name d) ds
     @ map (\<lambda>(serial, _). pad_right 28 serial @ '' '' @ pad_right 12 ''-'' @ '' '' @ pad_right 10 ''no'' @ '' -'')
         (filter (\<lambda>(serial, enabled). \<not> enabled \<and> serial \<notin> public_serial ` set ds) (explicit_serials t))"

definition set_device :: "hub_toml \<Rightarrow> (TomlFile \<Rightarrow> string + string) \<Rightarrow> string \<Rightarrow> string \<Rightarrow> bool \<Rightarrow> (csess, unit) act" where
  "set_device toml ser path serial en =
     bind_a (load_or_empty toml path) (\<lambda>config.
     then_a (save_config ser path (set_device_enabled serial en config))
       (say ((if en then ''enabled'' else ''disabled'') @ '' device '' @ [CHR 0x27] @ serial @ [CHR 0x27] @ '' ('' @ path @ '')'')))"

definition run_device :: "hub_toml \<Rightarrow> (TomlFile \<Rightarrow> string + string) \<Rightarrow> DeviceAction \<Rightarrow> string \<Rightarrow> (csess, unit) act" where
  "run_device toml ser action path =
     (case action of
        DeviceEnable serial \<Rightarrow> set_device toml ser path serial True
      | DeviceDisable serial \<Rightarrow> set_device toml ser path serial False
      | DeviceList \<Rightarrow>
          bind_a (load_or_empty toml path) (\<lambda>config.
          bind_a (poll_warned (enabled_backends config)) (\<lambda>lsts.
          say_all (device_table (hc_devices config) (devices (merge_device_lists lsts))))))"

definition set_node :: "hub_toml \<Rightarrow> (TomlFile \<Rightarrow> string + string) \<Rightarrow> string \<Rightarrow> string \<Rightarrow> bool \<Rightarrow> (csess, unit) act" where
  "set_node toml ser path name en =
     bind_a (load_or_empty toml path) (\<lambda>config.
     bind_a (lift_r (map_err (\<lambda>e. boxed (ConfigError_display e)) (set_backend_enabled name en config))) (\<lambda>config'.
     then_a (save_config ser path config')
       (say ((if en then ''enabled'' else ''disabled'') @ '' node '' @ [CHR 0x27] @ name @ [CHR 0x27] @ '' ('' @ path @ '')''))))"

definition run_node :: "hub_toml \<Rightarrow> (TomlFile \<Rightarrow> string + string) \<Rightarrow> NodeAction \<Rightarrow> string \<Rightarrow> (csess, unit) act" where
  "run_node toml ser action path =
     (case action of
        NodeEnable name \<Rightarrow> set_node toml ser path name True
      | NodeDisable name \<Rightarrow> set_node toml ser path name False
      | NodeList \<Rightarrow> bind_a (load_or_empty toml path) (\<lambda>config. say_all (node_table ''nodes'' (hc_backends config))))"

section \<open>The command line of the hub\<close>

datatype Commands =
    CmdPair SocketAddr string "string option"
  | CmdUnpair string
  | CmdList
  | CmdAgent bool string "string option"
  | CmdDevice DeviceAction
  | CmdNode NodeAction

definition resolve_config_path :: "string \<Rightarrow> string option \<Rightarrow> string" where
  "resolve_config_path default_path config_path = unwrap_or default_path config_path"

text \<open>An error is printed and the process ends with status 1.\<close>

definition exit_with :: "string \<Rightarrow> (csess, unit) act \<Rightarrow> csess \<Rightarrow> nat \<times> csess" where
  "exit_with what m s =
     (case m s of
        (Inr _, s') \<Rightarrow> (0, s')
      | (Inl err, s') \<Rightarrow> (1, snd (say (what @ '' error: '' @ err_msg err) s')))"

section \<open>The configuration of a run\<close>

record hub_paths =
  hp_default :: string
  hp_old :: string
  hp_legacy :: string

record hub_args =
  ha_backends :: "string list"
  ha_config :: "string option"
  ha_no_local :: bool
  ha_local_port :: "u16 option"
  ha_listen :: "SocketAddr option"
  ha_poll_ms :: "u64 option"

definition load_default_config :: "hub_toml \<Rightarrow> hub_paths \<Rightarrow> (csess, HubConfig) act" where
  "load_default_config toml paths s =
     (if fs_is_file (c_fs s) (hp_default paths) then load_config toml (hp_default paths) s
      else if fs_is_file (c_fs s) (hp_old paths) \<and> hp_old paths \<noteq> hp_default paths then
        then_a (say (''adb-hub: loading config from legacy location '' @ hp_old paths @ '' (consider moving it to '' @ hp_default paths @ '')''))
          (load_config toml (hp_old paths)) s
      else if fs_is_file (c_fs s) (hp_legacy paths) then
        then_a (say (''adb-hub: loading legacy config from '' @ hp_legacy paths @ '' (consider migrating to '' @ hp_default paths @ '')''))
          (\<lambda>s. (map_err (\<lambda>e. boxed (ConfigError_display e)) (load_legacy_file (fs_read (c_fs s)) (hp_legacy paths)), s)) s
      else (Inl (boxed (''no config at '' @ hp_default paths)), s))"

definition local_overrides :: "hub_args \<Rightarrow> HubConfig \<Rightarrow> HubConfig" where
  "local_overrides args c =
     (let c1 = (if ha_no_local args then c\<lparr>hc_include_local := False\<rparr> else c) in
      case ha_local_port args of None \<Rightarrow> c1 | Some p \<Rightarrow> c1\<lparr>hc_local_adb_port := p\<rparr>)"

fun parse_backends :: "string list \<Rightarrow> ConfigError + BackendConfig list" where
  "parse_backends [] = Inr []"
| "parse_backends (s # ss) = bind_r (parse_backend_arg s) (\<lambda>b. bind_r (parse_backends ss) (\<lambda>bs. Inr (b # bs)))"

text \<open>The loop over the reversed list keeps the last backend of every name, in order.\<close>

fun keep_unseen :: "string set \<Rightarrow> BackendConfig list \<Rightarrow> BackendConfig list" where
  "keep_unseen seen [] = []"
| "keep_unseen seen (b # bs) =
     (if bc_name b \<in> seen then keep_unseen seen bs else b # keep_unseen (insert (bc_name b) seen) bs)"

definition last_of_each :: "BackendConfig list \<Rightarrow> BackendConfig list" where
  "last_of_each bs = rev (keep_unseen {} (rev bs))"

definition build_config :: "hub_toml \<Rightarrow> hub_paths \<Rightarrow> hub_args \<Rightarrow> (csess, HubConfig) act" where
  "build_config toml paths args =
     bind_a (if ha_backends args \<noteq> [] then
               bind_a (lift_r (map_err (\<lambda>e. boxed (ConfigError_display e)) (parse_backends (ha_backends args)))) (\<lambda>bs.
               ret \<lparr>hc_listen = listen_addr, hc_poll_interval = 1000, hc_backends = bs, hc_adb_version = 41,
                    hc_include_local = \<not> ha_no_local args, hc_local_adb_port = unwrap_or 5039 (ha_local_port args),
                    hc_devices = DevicePolicyTable_default, hc_config_path = None\<rparr>)
             else case ha_config args of
               Some path \<Rightarrow> bind_a (load_config toml path) (\<lambda>c. ret (local_overrides args c))
             | None \<Rightarrow> try_a (load_default_config toml paths) (\<lambda>r. case r of
                   Inr c \<Rightarrow> ret (local_overrides args c)
                 | Inl _ \<Rightarrow> ret (local_overrides args local_only)))
       (\<lambda>c0.
     let c1 = (case ha_listen args of None \<Rightarrow> c0 | Some a \<Rightarrow> c0\<lparr>hc_listen := a\<rparr>);
         c2 = (case ha_poll_ms args of None \<Rightarrow> c1 | Some ms \<Rightarrow> c1\<lparr>hc_poll_interval := unat (max ms 100)\<rparr>)
     in ret (c2\<lparr>hc_backends := last_of_each (hc_backends c2)\<rparr>))"

text \<open>The alias binary: a file that does not load counts as none.\<close>

definition hubd_config ::
  "hub_toml \<Rightarrow> string \<Rightarrow> SocketAddr \<Rightarrow> u16 \<Rightarrow> bool \<Rightarrow> u64 \<Rightarrow> string option \<Rightarrow> fsys \<Rightarrow> HubConfig" where
  "hubd_config toml default_path listen local_port no_local poll_ms config fs =
     (let load = (\<lambda>p. case HubConfig_load_file toml (fs_read fs) p of Inr c \<Rightarrow> c | Inl _ \<Rightarrow> local_only);
          hub = (case config of
                   Some path \<Rightarrow> load path
                 | None \<Rightarrow> (if fs_is_file fs default_path then load default_path else local_only))
      in hub\<lparr>hc_listen := listen, hc_local_adb_port := local_port, hc_include_local := \<not> no_local,
            hc_poll_interval := unat (max poll_ms 100)\<rparr>)"

section \<open>The proxy's commands\<close>

definition ProxyConfigError_display :: "ProxyConfigError \<Rightarrow> string" where
  "ProxyConfigError_display e = (case e of
     PxIo err \<Rightarrow> ''io error: '' @ err_msg err
   | PxTomlDe m \<Rightarrow> ''toml parse error: '' @ m
   | PxTomlSer m \<Rightarrow> ''toml serialize error: '' @ m)"

definition fetch_local_devices :: "SocketAddr \<Rightarrow> ('x sess_scheme, string) act" where
  "fetch_local_devices target =
     bind_a (dial target) (\<lambda>st0.
     on_up (write_service ''host:devices-l'') st0 (\<lambda>_ st1.
     on_up read_okay_payload st1 (\<lambda>body _. ret (utf8_lossy body))))"

definition proxy_device_table :: "DevicePolicyTable \<Rightarrow> string \<Rightarrow> string list" where
  "proxy_device_table t live =
     (let rows = List.map_filter parse_device_line (str_lines live);
          seen = set (map fst rows) in
      (pad_right 24 ''SERIAL'' @ '' '' @ pad_right 12 ''STATE'' @ '' ENABLED'')
      # map (\<lambda>(serial, st, _). pad_right 24 serial @ '' '' @ pad_right 12 st @ '' '' @ yes_no (is_enabled t serial)) rows
      @ map (\<lambda>(serial, _). pad_right 24 serial @ '' '' @ pad_right 12 ''-'' @ '' no'')
          (filter (\<lambda>(serial, enabled). \<not> enabled \<and> serial \<notin> seen) (explicit_serials t)))"

definition run_device_command ::
  "(string \<Rightarrow> string + RawDevice list option) \<Rightarrow> (DevicePolicyEntry list \<Rightarrow> string + string) \<Rightarrow> DeviceAction \<Rightarrow> string \<Rightarrow> SocketAddr
     \<Rightarrow> (csess, unit) act" where
  "run_device_command toml ser action path target =
     bind_a (\<lambda>s. (map_err (\<lambda>e. boxed (ProxyConfigError_display e)) (ProxyFileConfig_load_file toml (c_fs s) path), s)) (\<lambda>cfg.
     let store = (\<lambda>serial en. then_a
           (\<lambda>s. case ProxyFileConfig_save_file ser path (ProxyFileConfig_set_device_enabled serial en cfg) (c_fs s) of
              (r, fs) \<Rightarrow> (map_err (\<lambda>e. boxed (ProxyConfigError_display e)) r, s\<lparr>c_fs := fs\<rparr>))
           (say ((if en then ''enabled'' else ''disabled'') @ '' device '' @ [CHR 0x27] @ serial @ [CHR 0x27] @ '' ('' @ path @ '')'')))
     in case action of
       DeviceEnable serial \<Rightarrow> store serial True
     | DeviceDisable serial \<Rightarrow> store serial False
     | DeviceList \<Rightarrow>
         bind_a (try_a (fetch_local_devices target) (\<lambda>r. case r of
             Inr body \<Rightarrow> ret body
           | Inl err \<Rightarrow> then_a (say (''warning: could not query local adb at '' @ addr_string target @ '': '' @ err_msg err)) (ret [])))
           (\<lambda>live. say_all (proxy_device_table (pf_devices cfg) live)))"

text \<open>The pair code of a proxy: a given one must be well formed, else a random one is made.\<close>

definition proxy_pair_code :: "(nat \<Rightarrow> nat) \<Rightarrow> string option \<Rightarrow> string + string" where
  "proxy_pair_code rng given =
     (case given of
        Some code \<Rightarrow> bind_r (map_err (\<lambda>e. ''invalid --pair-code: '' @ e) (validate_pair_code code)) (\<lambda>_. Inr code)
      | None \<Rightarrow> Inr (generate_pair_code rng))"

section \<open>Lemmas\<close>

lemma say_fs [simp]: "c_fs (snd (say l s)) = c_fs s" "fst (say l s) = Inr ()"
  by (simp_all add: say_def)

interpretation command: dial_blind "\<lambda>s. (c_fs s, c_out s)"
  by unfold_locales simp

lemma load_or_empty_result:
  "load_or_empty toml path s = (r, s') \<Longrightarrow> s' = s \<and> (\<forall>c. r = Inr c \<longrightarrow>
     (if fs_is_file (c_fs s) path then HubConfig_load_file toml (fs_read (c_fs s)) path = Inr c else c = local_only))"
  by (auto simp: load_or_empty_def load_config_def map_err_def split: if_splits sum.splits)

lemma save_config_result:
  assumes "names_file path" "save_config ser path c s = (r, s')"
  shows "if r = Inr () then \<exists>n. fs_files (c_fs s') path = Some n \<and> ser (to_toml_file c) = Inr (fn_text n) \<and> fn_mode n = mode_600
    else fs_files (c_fs s') path = fs_files (c_fs s) path"
proof -
  obtain r0 fs where f: "HubConfig_save_file ser path c (c_fs s) = (r0, fs)" by force
  have "c_fs s' = fs" "r = Inr () \<longleftrightarrow> r0 = Inr ()"
    using assms(2) f by (auto simp: save_config_def map_err_def split: sum.splits)
  with save_file_effect [OF assms(1) f] show ?thesis by auto
qed

text \<open>The new backend as pairing stores it.\<close>

definition paired :: "SocketAddr \<Rightarrow> string \<Rightarrow> string option \<Rightarrow> BackendConfig" where
  "paired addr code name = \<lparr>bc_name = unwrap_or (default_backend_name addr) name, bc_addr = addr, bc_pair_code = Some code, bc_enabled = True\<rparr>"

definition stored :: "(TomlFile \<Rightarrow> string + string) \<Rightarrow> string \<Rightarrow> HubConfig \<Rightarrow> fsys \<Rightarrow> bool" where
  "stored ser path c fs \<longleftrightarrow> (\<exists>n. fs_files fs path = Some n \<and> ser (to_toml_file c) = Inr (fn_text n) \<and> fn_mode n = mode_600)"

section \<open>Pairing\<close>

lemma pair_effect:
  assumes "names_file path" "run_pair toml ser addr code name path s = (r, s')"
  shows "if r = Inr () then validate_pair_code code = Inr ()
      \<and> (\<exists>u up. dialer s (dials s) addr = Inr u \<and> authenticate_stream code u = (Inr (), up))
      \<and> (\<exists>v. fst (check_proxy_compat addr (Some code) (s\<lparr>dials := Suc (dials s)\<rparr>)) = Inr (POk v))
      \<and> (\<exists>c. (if fs_is_file (c_fs s) path then HubConfig_load_file toml (fs_read (c_fs s)) path = Inr c else c = local_only)
           \<and> stored ser path (upsert_backend (paired addr code name) c) (c_fs s'))
    else fs_files (c_fs s') path = fs_files (c_fs s) path"
proof (cases "validate_pair_code code")
  case (Inl e)
  with assms(2) show ?thesis by (auto simp: run_pair_def then_a_def bind_a_def lift_r_def map_err_def)
next
  case (Inr u0)
  let ?s1 = "s\<lparr>dials := Suc (dials s)\<rparr>"
  show ?thesis
  proof (cases "\<exists>u up. dialer s (dials s) addr = Inr u \<and> authenticate_stream code u = (Inr (), up)")
    case False
    with assms(2) Inr show ?thesis
      by (auto simp: run_pair_def then_a_def bind_a_def lift_r_def map_err_def dial_def on_up_def split: sum.splits prod.splits)
  next
    case True
    then obtain u up where up: "dialer s (dials s) addr = Inr u" "authenticate_stream code u = (Inr (), up)" by blast
    obtain rc s2 where c: "check_proxy_compat addr (Some code) ?s1 = (rc, s2)" by force
    have fs2: "c_fs s2 = c_fs s" using keepsD [OF command.keeps_check c] by simp
    show ?thesis
    proof (cases "\<exists>v. rc = Inr (POk v)")
      case False
      then have "fs_files (c_fs s') path = fs_files (c_fs s) path \<and> r \<noteq> Inr ()"
        using assms(2) Inr up c fs2
        by (auto simp: run_pair_def then_a_def bind_a_def lift_r_def map_err_def dial_def on_up_def Let_def throw_def say_def ret_def
            ProxyCompat_is_ok_def split: sum.splits prod.splits ProxyCompat.splits if_splits)
      then show ?thesis by simp
    next
      case True
      then obtain v where v: "rc = Inr (POk v)" by blast
      obtain rl s3 where l: "load_or_empty toml path s2 = (rl, s3)" by force
      note L = load_or_empty_result [OF l]
      show ?thesis
      proof (cases rl)
        case (Inl e)
        with assms(2) Inr up c v l L fs2 show ?thesis
          by (auto simp: run_pair_def then_a_def bind_a_def lift_r_def map_err_def dial_def on_up_def Let_def ProxyCompat_is_ok_def)
      next
        case cfg: (Inr cfg)
        obtain rs s4 where sv: "save_config ser path (upsert_backend (paired addr code name) cfg) s3 = (rs, s4)" by force
        have "(r = Inr () \<longleftrightarrow> rs = Inr ()) \<and> c_fs s' = c_fs s4"
          using assms(2) Inr up c v l cfg sv
          by (cases rs) (auto simp: run_pair_def then_a_def bind_a_def lift_r_def map_err_def dial_def on_up_def Let_def
              ProxyCompat_is_ok_def paired_def say_def)
        with save_config_result [OF assms(1) sv] L cfg fs2 up Inr v c show ?thesis by (auto simp: stored_def)
      qed
    qed
  qed
qed

text \<open>Pairing at a path without a file starts from the built-in configuration.\<close>

lemma pair_stores:
  assumes "names_file path" "run_pair toml ser addr code name path s = (Inr (), s')" "\<not> fs_is_file (c_fs s) path"
  shows "stored ser path (upsert_backend (paired addr code name) local_only) (c_fs s')"
  using pair_effect [OF assms(1,2)] assms(3) by auto

section \<open>Properties\<close>

text \<open>C20: Pairing is gated and atomic. A pairing that succeeds was made with a well-formed code that the proxy at the
  address accepted and whose version is compatible, and it stores, owner-only, the previous configuration (or the built-in one when
  there is no file) with exactly this backend added or updated. A pairing that fails leaves the configuration file as it was.\<close>

theorem pair_spec:
  assumes "names_file path" "run_pair toml ser addr code name path s = (r, s')"
  shows "if r = Inr () then validate_pair_code code = Inr ()
      \<and> (\<exists>u up. dialer s (dials s) addr = Inr u \<and> authenticate_stream code u = (Inr (), up))
      \<and> (\<exists>v. fst (check_proxy_compat addr (Some code) (s\<lparr>dials := Suc (dials s)\<rparr>)) = Inr (POk v))
      \<and> (\<exists>c. (if fs_is_file (c_fs s) path then HubConfig_load_file toml (fs_read (c_fs s)) path = Inr c else c = local_only)
           \<and> stored ser path (upsert_backend (paired addr code name) c) (c_fs s'))
    else fs_files (c_fs s') path = fs_files (c_fs s) path"
  using assms by (rule pair_effect)

text \<open>A proxy that accepts the code and has a compatible version.\<close>

definition demo_proxy :: "fsys \<Rightarrow> csess" where
  "demo_proxy fs = \<lparr>cl = open_conn [],
     dialer = (\<lambda>n _. Inr (open_conn (''OKAY'' @ (if n = 0 then [] else okay_reply MIN_PROXY_VERSION)))),
     dials = 0, spliced = [], c_fs = fs, c_out = []\<rparr>"

abbreviation "demo_pair_code \<equiv> ''ABCD1234''"

lemma demo_validate: "validate_pair_code demo_pair_code = Inr ()"
  by code_simp

lemma demo_check:
  "check_proxy_compat a (Some demo_pair_code) ((demo_proxy fs)\<lparr>dials := Suc 0\<rparr>)
     = (Inr (POk MIN_PROXY_VERSION), (demo_proxy fs)\<lparr>dials := 2\<rparr>)"
proof -
  have f: "fits16 MIN_PROXY_VERSION" by (simp add: fits16_def)
  have u: "utf8_lossy MIN_PROXY_VERSION = MIN_PROXY_VERSION" "trim MIN_PROXY_VERSION = MIN_PROXY_VERSION" by code_simp+
  have e: "evaluate_proxy_version MIN_PROXY_VERSION = POk MIN_PROXY_VERSION"
    by (simp add: evaluate_proxy_version_def SemVer_parse_min u)
  show ?thesis
    by (simp add: check_proxy_compat_def fetch_proxy_version_def query_def backend_connect_def dial_def bind_a_def try_a_def
        on_up_def demo_proxy_def open_conn_def authenticate_stream_okay write_service_def then_a_def write_packet_unlimited
        read_okay_payload_okay [OF f, of _ "[]"] u e)
qed

lemma demo_pair:
  assumes "\<not> fs_is_file fs path" "fst (HubConfig_save_file ser path (upsert_backend (paired a demo_pair_code nm) local_only) fs) = Inr ()"
  shows "fst (run_pair toml ser a demo_pair_code nm path (demo_proxy fs)) = Inr ()"
  using assms demo_check [of a fs]
  by (auto simp: run_pair_def demo_validate then_a_def bind_a_def lift_r_def map_err_def dial_def on_up_def demo_proxy_def open_conn_def
      authenticate_stream_okay ProxyCompat_is_ok_def load_or_empty_def save_config_def paired_def say_def Let_def split: prod.splits)

theorem pair_spec_witness:
  "\<exists>s'. run_pair (\<lambda>_. Inl '''') (\<lambda>_. Inr ''text'') (localhost 5038) demo_pair_code None ''c.toml'' (demo_proxy (demo_fs None)) = (Inr (), s')
     \<and> stored (\<lambda>_. Inr ''text'') ''c.toml'' (upsert_backend (paired (localhost 5038) demo_pair_code None) local_only) (c_fs s')"
proof -
  let ?fs = "demo_fs None"
  have nf: "\<not> fs_is_file ?fs ''c.toml''" by (simp add: fs_is_file_def demo_fs_def)
  have "fst (run_pair (\<lambda>_. Inl '''') (\<lambda>_. Inr ''text'') (localhost 5038) demo_pair_code None ''c.toml'' (demo_proxy ?fs)) = Inr ()"
    by (rule demo_pair [OF nf]) (simp add: HubConfig_save_file_def fs_create_dir_all_def fs_try_def demo_fs_def to_toml_string_def
        fs_write_def fs_put_def fs_set_mode_def fs_rename_def then_a_def bind_a_def)
  then obtain s' where s: "run_pair (\<lambda>_. Inl '''') (\<lambda>_. Inr ''text'') (localhost 5038) demo_pair_code None ''c.toml'' (demo_proxy ?fs) = (Inr (), s')"
    by (metis prod.collapse)
  from pair_spec [OF names_file_demo s] nf have
    "stored (\<lambda>_. Inr ''text'') ''c.toml'' (upsert_backend (paired (localhost 5038) demo_pair_code None) local_only) (c_fs s')"
    by (auto simp: demo_proxy_def)
  with s show ?thesis by blast
qed


section \<open>The lock-out\<close>

text \<open>The TOML library reads back what it wrote for a document.\<close>

definition reads_back :: "hub_toml \<Rightarrow> (TomlFile \<Rightarrow> string + string) \<Rightarrow> TomlFile \<Rightarrow> bool" where
  "reads_back toml ser t \<longleftrightarrow> (\<forall>body. ser t = Inr body \<longrightarrow> (\<exists>raw. toml body = Inr raw \<and> with_defaults raw = t))"

lemma no_backends_invalid:
  assumes "\<not> tf_include_local t" "tf_backend t = []"
  shows "\<exists>e. from_toml_file t = Inl e"
  using assms by (cases "parse_addr (tf_listen t)") (auto simp: from_toml_file_def map_err_def)

lemma load_stored_fails:
  assumes "stored ser path c fs" "\<not> hc_include_local c" "hc_backends c = []"
    and "reads_back toml ser (to_toml_file c)"
  shows "\<exists>e. HubConfig_load_file toml (fs_read fs) path = Inl e"
proof -
  obtain n where n: "fs_files fs path = Some n" "ser (to_toml_file c) = Inr (fn_text n)"
    using assms(1) by (auto simp: stored_def)
  obtain raw where raw: "toml (fn_text n) = Inr raw" "with_defaults raw = to_toml_file c"
    using assms(4) n(2) by (auto simp: reads_back_def)
  have "\<exists>e. from_toml_file (to_toml_file c) = Inl e"
    by (rule no_backends_invalid) (use assms(2,3) in \<open>simp_all add: to_toml_file_def\<close>)
  then have "\<exists>e. HubConfig_from_toml_str toml (fn_text n) = Inl e"
    using raw by (auto simp: HubConfig_from_toml_str_def map_err_def)
  then show ?thesis
    using n by (auto simp: HubConfig_load_file_def fs_read_def ok_or_def map_err_def bind_r_def from_utf8_def split: option.splits if_splits)
qed

text \<open>Unpairing the last backend locks the user out. When local devices are not included and every backend of the
  file has the given name, a successful unpair stores a configuration that the loader rejects: from then on pairing again, listing
  and unpairing all fail, on every state with this file.\<close>

theorem unpair_lockout:
  assumes "names_file path" "run_unpair toml ser name path s = (Inr (), s')"
    and "HubConfig_load_file toml (fs_read (c_fs s)) path = Inr c" "\<not> hc_include_local c" "\<forall>b \<in> set (hc_backends c). bc_name b = name"
    and "reads_back toml ser (to_toml_file (c\<lparr>hc_backends := []\<rparr>))"
    and "c_fs t = c_fs s'"
  shows "fst (run_pair toml ser addr code nm path t) \<noteq> Inr () \<and> fst (run_list toml path t) \<noteq> Inr ()
    \<and> fst (run_unpair toml ser nm' path t) \<noteq> Inr ()"
proof -
  have isf: "fs_is_file (c_fs s) path"
    using assms(3) by (auto simp: HubConfig_load_file_def fs_is_file_def fs_read_def map_err_def bind_r_def split: option.splits)
  have l: "load_or_empty toml path s = (Inr c, s)"
    using isf assms(3) by (simp add: load_or_empty_def load_config_def map_err_def)
  have k: "filter (\<lambda>b. bc_name b \<noteq> name) (hc_backends c) = []" using assms(5) by (simp add: filter_empty_conv)
  obtain r s1 where sv: "save_config ser path (c\<lparr>hc_backends := []\<rparr>) s = (r, s1)" by force
  have "r = Inr () \<and> c_fs s' = c_fs s1"
    using assms(2) l k sv by (auto simp: run_unpair_def then_a_def bind_a_def Let_def say_def split: sum.splits if_splits)
  with save_config_result [OF assms(1) sv] have st: "stored ser path (c\<lparr>hc_backends := []\<rparr>) (c_fs s')"
    by (simp add: stored_def)
  obtain e where e: "HubConfig_load_file toml (fs_read (c_fs s')) path = Inl e"
    using load_stored_fails [OF st _ _ assms(6)] assms(4) by auto
  have f: "fs_is_file (c_fs s') path" using st by (auto simp: stored_def fs_is_file_def)
  have bad: "\<And>u. c_fs u = c_fs s' \<Longrightarrow> load_or_empty toml path u = (Inl (boxed (ConfigError_display e)), u)"
    using e f by (simp add: load_or_empty_def load_config_def map_err_def)
  have "fst (run_pair toml ser addr code nm path t) \<noteq> Inr ()"
  proof
    assume "fst (run_pair toml ser addr code nm path t) = Inr ()"
    then obtain t' where "run_pair toml ser addr code nm path t = (Inr (), t')" by (metis prod.collapse)
    from pair_effect [OF assms(1) this] e f assms(7) show False by auto
  qed
  moreover have "load_or_empty toml path t = (Inl (boxed (ConfigError_display e)), t)" by (rule bad [OF assms(7)])
  ultimately show ?thesis by (simp add: run_list_def run_unpair_def bind_a_def)
qed

text \<open>Pairing at the default path hides the configurations that were in effect until then: the next run reads
  only the file just written, which holds one backend.\<close>

theorem pair_hides_old_config:
  assumes "names_file (hp_default paths)" "run_pair toml ser addr code name (hp_default paths) s = (Inr (), s')"
    and "\<not> fs_is_file (c_fs s) (hp_default paths)"
  shows "load_default_config toml paths s' = load_config toml (hp_default paths) s'
    \<and> stored ser (hp_default paths) (local_only\<lparr>hc_backends := [paired addr code name]\<rparr>) (c_fs s')
    \<and> (fs_is_file (c_fs s) (hp_old paths) \<longrightarrow> hp_old paths \<noteq> hp_default paths)"
proof -
  have st: "stored ser (hp_default paths) (upsert_backend (paired addr code name) local_only) (c_fs s')"
    by (rule pair_stores [OF assms])
  have "upsert_backend (paired addr code name) local_only = local_only\<lparr>hc_backends := [paired addr code name]\<rparr>"
    by (simp add: upsert_backend_def local_only_def)
  with st assms(3) show ?thesis
    by (auto simp: load_default_config_def stored_def fs_is_file_def)
qed

section \<open>The configuration of a run\<close>

lemma keep_unseen_spec:
  "set (map bc_name (keep_unseen seen bs)) = set (map bc_name bs) - seen
   \<and> distinct (map bc_name (keep_unseen seen bs))
   \<and> (\<forall>n. n \<notin> seen \<longrightarrow> map_of (map (\<lambda>b. (bc_name b, b)) (keep_unseen seen bs)) n = map_of (map (\<lambda>b. (bc_name b, b)) bs) n)"
  by (induction seen bs rule: keep_unseen.induct) auto

lemma last_of_each_distinct: "distinct (map bc_name (last_of_each bs))"
  using keep_unseen_spec [of "{}" "rev bs"] by (simp add: last_of_each_def rev_map [symmetric])

lemma last_of_each_lookup:
  "map_of (map (\<lambda>b. (bc_name b, b)) (last_of_each bs)) n = map_of (map (\<lambda>b. (bc_name b, b)) (rev bs)) n"
proof -
  let ?kv = "\<lambda>b. (bc_name b, b)"
  have d: "distinct (map fst (map ?kv (last_of_each bs)))" using last_of_each_distinct [of bs] by (simp add: comp_def)
  have "map_of (map ?kv (last_of_each bs)) = map_of (rev (map ?kv (last_of_each bs)))"
    using d by (subst map_of_inject_set) (simp_all add: rev_map [symmetric])
  also have "rev (map ?kv (last_of_each bs)) = map ?kv (keep_unseen {} (rev bs))" by (simp add: last_of_each_def rev_map)
  finally show ?thesis using keep_unseen_spec [of "{}" "rev bs"] by simp
qed

definition default_source :: "hub_toml \<Rightarrow> hub_paths \<Rightarrow> csess \<Rightarrow> BackendConfig list" where
  "default_source toml paths s = (case fst (load_default_config toml paths s) of Inr c \<Rightarrow> hc_backends c | Inl _ \<Rightarrow> [])"

text \<open>The effective configuration of a run has one backend per name, the last one written; the backends come from
  the command line when it names any, else from the given file, else from the default file.\<close>

theorem build_config_unique:
  assumes "build_config toml paths args s = (Inr c, s')"
  shows "distinct (map bc_name (hc_backends c)) \<and>
    (\<exists>src. map_of (map (\<lambda>b. (bc_name b, b)) (hc_backends c)) = map_of (map (\<lambda>b. (bc_name b, b)) (rev src)) \<and>
      (if ha_backends args \<noteq> [] then parse_backends (ha_backends args) = Inr src
       else case ha_config args of
         Some path \<Rightarrow> \<exists>f. HubConfig_load_file toml (fs_read (c_fs s)) path = Inr f \<and> hc_backends f = src
       | None \<Rightarrow> src = default_source toml paths s))"
proof -
  have lo: "\<And>c. hc_backends (local_overrides args c) = hc_backends c"
    by (simp add: local_overrides_def Let_def split: option.splits)
  obtain src where src: "hc_backends c = last_of_each src" "if ha_backends args \<noteq> [] then parse_backends (ha_backends args) = Inr src
       else case ha_config args of
         Some path \<Rightarrow> \<exists>f. HubConfig_load_file toml (fs_read (c_fs s)) path = Inr f \<and> hc_backends f = src
       | None \<Rightarrow> src = default_source toml paths s"
    using assms by (cases "ha_config args"; cases "load_default_config toml paths s")
      (auto simp: build_config_def bind_a_def try_a_def lift_r_def map_err_def ret_def load_config_def lo Let_def default_source_def local_only_def
        split: sum.splits if_splits option.splits)
  show ?thesis
    unfolding src(1) using src(2) last_of_each_distinct [of src] last_of_each_lookup [of src] by blast
qed

text \<open>Without a file on the command line, a default configuration that cannot be loaded is dropped without a word:
  the run goes on with no backends.\<close>

theorem build_config_drops_broken:
  assumes "ha_backends args = []" "ha_config args = None" "load_default_config toml paths s = (Inl e, s1)"
  shows "\<exists>c. build_config toml paths args s = (Inr c, s1) \<and> hc_backends c = []"
proof -
  have lo: "\<And>c. hc_backends (local_overrides args c) = hc_backends c"
    by (simp add: local_overrides_def Let_def split: option.splits)
  show ?thesis using assms
    by (auto simp: build_config_def bind_a_def try_a_def ret_def Let_def lo local_only_def last_of_each_def split: option.splits)
qed

text \<open>The overrides are applied after the validation: a port for the local server that the loader refuses in a file is
  accepted on the command line.\<close>

theorem build_config_port_clash:
  assumes "ha_backends args = []" "ha_config args = None" "ha_listen args = None" "ha_local_port args = Some 5037"
    "load_default_config toml paths s = (Inl e, s1)"
  shows "\<exists>c. build_config toml paths args s = (Inr c, s1) \<and> addr_port (hc_listen c) = hc_local_adb_port c"
  using assms
  by (auto simp: build_config_def bind_a_def try_a_def ret_def Let_def local_overrides_def local_only_def listen_addr_def split: option.splits)


text \<open>One node and no local devices.\<close>

definition lone :: HubConfig where
  "lone = local_only\<lparr>hc_backends := [\<lparr>bc_name = ''r'', bc_addr = localhost 5038, bc_pair_code = None, bc_enabled = True\<rparr>],
     hc_include_local := False, hc_config_path := Some ''c.toml''\<rparr>"

definition lone_toml :: hub_toml where
  "lone_toml text = Inr (raw_of (to_toml_file (if text = ''old'' then lone else lone\<lparr>hc_backends := []\<rparr>)))"

lemma lone_toml_raw: "lone_toml text = Inr raw \<longleftrightarrow> raw = raw_of (to_toml_file (if text = ''old'' then lone else lone\<lparr>hc_backends := []\<rparr>))"
  by (auto simp: lone_toml_def)

lemma lone_file: "from_toml_file (to_toml_file lone) = Inr (lone\<lparr>hc_config_path := None\<rparr>)"
  by (simp add: from_toml_file_def to_toml_file_def lone_def local_only_def listen_addr_def parse_addr_V4 default_local_adb_port_def
      default_poll_ms_def from_entries_def to_disabled_entries_def DevicePolicyTable_default_def max_def del: addr_string.simps)

lemma lone_load: "HubConfig_load_file lone_toml (fs_read (file_fs ''old'' 1)) ''c.toml'' = Inr lone"
proof -
  have r: "fs_read (file_fs ''old'' 1) ''c.toml'' = Inr ''old''"
    by (simp add: fs_read_def file_fs_def from_utf8_def utf8_valid_ascii ascii_def ok_or_def)
  have t: "HubConfig_from_toml_str lone_toml ''old'' = Inr (lone\<lparr>hc_config_path := None\<rparr>)"
    by (simp add: HubConfig_from_toml_str_def lone_toml_def with_defaults_raw_of lone_file)
  have p: "lone\<lparr>hc_config_path := Some ''c.toml''\<rparr> = lone" by (simp add: lone_def)
  show ?thesis unfolding HubConfig_load_file_def r by (simp add: t p)
qed

theorem unpair_lockout_witness:
  "\<exists>s'. run_unpair lone_toml (\<lambda>_. Inr ''new'') ''r'' ''c.toml'' (demo_proxy (file_fs ''old'' 1)) = (Inr (), s')
     \<and> fst (run_list lone_toml ''c.toml'' s') \<noteq> Inr ()"
proof -
  let ?s = "demo_proxy (file_fs ''old'' 1)"
  let ?ser = "\<lambda>_. Inr ''new''"
  have f: "fs_is_file (c_fs ?s) ''c.toml''" by (simp add: demo_proxy_def file_fs_def fs_is_file_def)
  have l: "HubConfig_load_file lone_toml (fs_read (c_fs ?s)) ''c.toml'' = Inr lone" using lone_load by (simp add: demo_proxy_def)
  have "fst (run_unpair lone_toml ?ser ''r'' ''c.toml'' ?s) = Inr ()"
    using f l by (simp add: run_unpair_def bind_a_def load_or_empty_def load_config_def lone_def then_a_def save_config_def
        HubConfig_save_file_def fs_create_dir_all_def fs_try_def demo_proxy_def file_fs_def demo_fs_def to_toml_string_def
        fs_write_def fs_put_def fs_set_mode_def fs_rename_def say_def)
  then obtain s' where s: "run_unpair lone_toml ?ser ''r'' ''c.toml'' ?s = (Inr (), s')" by (metis prod.collapse)
  have "reads_back lone_toml ?ser (to_toml_file (lone\<lparr>hc_backends := []\<rparr>))"
    by (simp add: reads_back_def lone_toml_def with_defaults_raw_of)
  from unpair_lockout [OF names_file_demo s l _ _ this refl] s show ?thesis by (auto simp: lone_def)
qed

end
