(* ===== verification/Service.thy ===== *)
theory Service
  imports Hub Daemon_Server Commands Agent_Main
begin

text \<open>
  The service behind \<^verbatim>\<open>adb-hub\<close>, src/service.rs, and how the two binaries configure it: which roles a
  process takes (classic hub, agent of a running hub, or owner of the shared listener with its own
  agent), and what the owner does when its agent, its daemon or the user ends. \<open>supported\<close> is
  \<^verbatim>\<open>multi_user_supported()\<close>; \<open>probe\<close> is the result of binding the listen address once to see whether it is
  free.
\<close>

section \<open>Configuration\<close>

record ServiceConfig =
  sv_listen :: SocketAddr
  sv_local_adb_port :: u16
  sv_include_local :: bool
  sv_poll_interval :: nat
  sv_adb_version :: u32
  sv_hub :: HubConfig
  sv_control_abstract :: string
  sv_control_path :: "string option"

definition from_hub :: "HubConfig \<Rightarrow> ServiceConfig" where
  "from_hub hub = \<lparr>sv_listen = hc_listen hub, sv_local_adb_port = hc_local_adb_port hub, sv_include_local = hc_include_local hub,
     sv_poll_interval = hc_poll_interval hub, sv_adb_version = hc_adb_version hub, sv_hub = hub,
     sv_control_abstract = DEFAULT_CONTROL_ABSTRACT, sv_control_path = None\<rparr>"

definition classic_hub :: "ServiceConfig \<Rightarrow> HubConfig" where
  "classic_hub c = (sv_hub c)\<lparr>hc_listen := sv_listen c, hc_local_adb_port := sv_local_adb_port c,
     hc_include_local := sv_include_local c, hc_poll_interval := sv_poll_interval c, hc_adb_version := sv_adb_version c\<rparr>"

definition service_agent :: "string \<Rightarrow> ServiceConfig \<Rightarrow> AgentConfig" where
  "service_agent default_path c = \<lparr>ac_config_path = unwrap_or default_path (hc_config_path (sv_hub c)),
     ac_control_abstract = sv_control_abstract c, ac_control_path = sv_control_path c, ac_poll_interval = sv_poll_interval c,
     ac_inline_backends = Some (sv_hub c), ac_connect_retries = 50, ac_connect_retry_delay = 100\<rparr>"

definition service_daemon :: "ServiceConfig \<Rightarrow> DaemonConfig" where
  "service_daemon c = \<lparr>dg_listen = sv_listen c, dg_local_adb_port = sv_local_adb_port c, dg_include_local = sv_include_local c,
     dg_control_abstract = sv_control_abstract c, dg_control_path = sv_control_path c, dg_poll_interval = sv_poll_interval c,
     dg_adb_version = sv_adb_version c\<rparr>"

text \<open>The defaults of the daemon are those of a service without a configuration.\<close>

definition DaemonConfig_default :: DaemonConfig where
  "DaemonConfig_default = \<lparr>dg_listen = localhost 5037, dg_local_adb_port = 5039, dg_include_local = True,
     dg_control_abstract = DEFAULT_CONTROL_ABSTRACT, dg_control_path = None, dg_poll_interval = 1000, dg_adb_version = 41\<rparr>"

lemma DaemonConfig_default_service: "DaemonConfig_default = service_daemon (from_hub local_only)"
  by (simp add: DaemonConfig_default_def service_daemon_def from_hub_def local_only_def listen_addr_def default_poll_ms_def
      default_adb_version_def default_local_adb_port_def)

section \<open>Roles\<close>

datatype role =
    Classic HubConfig
  | Join AgentConfig
  | Own DaemonConfig AgentConfig
  | Fail io_error

definition service_role :: "bool \<Rightarrow> string \<Rightarrow> (SocketAddr \<Rightarrow> io_error + unit) \<Rightarrow> ServiceConfig \<Rightarrow> role" where
  "service_role supported default_path probe c =
     (if supported then
        (let agent_cfg = service_agent default_path c;
             daemon_cfg = service_daemon c
         in case probe (sv_listen c) of
              Inr _ \<Rightarrow> Own daemon_cfg agent_cfg
            | Inl err \<Rightarrow> (if err_kind err = AddrInUse then Join agent_cfg else Fail err))
      else Classic (classic_hub c))"

section \<open>The owner's tasks\<close>

datatype ServiceError = SvHub HubError | SvDaemon DaemonError | SvAgent AgentError | SvIo io_error

text \<open>How a task ends: with its result, or with a join error.\<close>

datatype 'e task_end = Finished "'e + unit" | Broken string

datatype service_event =
    UserShutdown
  | AgentDone "AgentError task_end"
  | DaemonDone "DaemonError task_end"

record service_run =
  sr_agent_told :: bool
  sr_daemon_told :: bool
  sr_alone :: bool
  sr_result :: "(ServiceError + unit) option"

definition service_init :: service_run where
  "service_init = \<lparr>sr_agent_told = False, sr_daemon_told = False, sr_alone = False, sr_result = None\<rparr>"

definition end_result :: "('e \<Rightarrow> ServiceError) \<Rightarrow> 'e task_end \<Rightarrow> ServiceError + unit" where
  "end_result wrap t = (case t of Finished r \<Rightarrow> map_err wrap r | Broken m \<Rightarrow> Inl (SvIo (IoErr OtherKind m)))"

definition lost_the_port :: "DaemonError task_end \<Rightarrow> bool" where
  "lost_the_port t = (case t of Finished (Inl (DaemonBind _ source)) \<Rightarrow> err_kind source = AddrInUse | _ \<Rightarrow> False)"

text \<open>The outer \<^verbatim>\<open>select!\<close>, and the inner one once the daemon has lost the port to another hub. Dropping an
  unused sender at the end of the function tells a task to stop too.\<close>

definition service_turn :: "service_event \<Rightarrow> service_run \<Rightarrow> service_run" where
  "service_turn ev s =
     (if sr_result s \<noteq> None then s
      else if sr_alone s then
        (case ev of
           UserShutdown \<Rightarrow> s\<lparr>sr_agent_told := True, sr_result := Some (Inr ())\<rparr>
         | AgentDone t \<Rightarrow> s\<lparr>sr_result := Some (end_result SvAgent t)\<rparr>
         | DaemonDone _ \<Rightarrow> s)
      else
        (case ev of
           UserShutdown \<Rightarrow> s\<lparr>sr_agent_told := True, sr_daemon_told := True, sr_result := Some (Inr ())\<rparr>
         | AgentDone t \<Rightarrow> s\<lparr>sr_daemon_told := True, sr_result := Some (end_result SvAgent t)\<rparr>
         | DaemonDone t \<Rightarrow>
             (if lost_the_port t then s\<lparr>sr_alone := True\<rparr>
              else s\<lparr>sr_agent_told := True, sr_result := Some (end_result SvDaemon t)\<rparr>)))"

section \<open>The binaries\<close>

text \<open>\<^verbatim>\<open>adb-hub\<close> without a subcommand, and the alias \<^verbatim>\<open>adb-hubd\<close>.\<close>

definition run_default_service :: "hub_toml \<Rightarrow> hub_paths \<Rightarrow> hub_args \<Rightarrow> string \<Rightarrow> string option \<Rightarrow> (csess, ServiceConfig) act" where
  "run_default_service toml paths args control control_path =
     bind_a (build_config toml paths args) (\<lambda>hub.
     ret ((from_hub hub)\<lparr>sv_control_abstract := control, sv_control_path := control_path\<rparr>))"

definition hubd_service ::
  "hub_toml \<Rightarrow> string \<Rightarrow> SocketAddr \<Rightarrow> u16 \<Rightarrow> bool \<Rightarrow> u64 \<Rightarrow> string option \<Rightarrow> fsys \<Rightarrow> string \<Rightarrow> string option \<Rightarrow> ServiceConfig" where
  "hubd_service toml default_path listen local_port no_local poll_ms config fs control control_path =
     (from_hub (hubd_config toml default_path listen local_port no_local poll_ms config fs))
       \<lparr>sv_control_abstract := control, sv_control_path := control_path\<rparr>"

section \<open>Lemmas\<close>

lemma retry_fails:
  assumes "\<And>n. n \<in> set ns \<Longrightarrow> go n = Inl e" "ns \<noteq> []"
  shows "retry_from go ns le = Inl e"
  using assms by (induction ns arbitrary: le) (case_tac ns; simp)+

lemma retry_succeeds:
  "go n = Inr c \<Longrightarrow> retry_from go (n # ns) le = Inr c"
  by simp

lemma connect_retry_fails:
  assumes "connect_control unix sock ac = Inl e"
  shows "connect_control_with_retry (\<lambda>_. unix) (\<lambda>_. sock) ac = Inl e"
  unfolding connect_control_with_retry_def using assms by (intro retry_fails) auto

lemma connect_retry_succeeds:
  assumes "connect_control unix sock ac = Inr c"
  shows "connect_control_with_retry (\<lambda>_. unix) (\<lambda>_. sock) ac = Inr c"
  unfolding connect_control_with_retry_def using assms by (simp add: upt_conv_Cons del: upt_Suc)

section \<open>Properties\<close>

text \<open>C23: Agents reach the owner's daemon. When a process takes both roles and its daemon has bound the control
  socket, its agent connects to that daemon, provided a path is set or nobody held the abstract name before; and so does the agent of every
  other process with the same control settings that finds the port taken, which takes no other role.\<close>

theorem own_agent_joins:
  assumes "service_role supported default_path probe c = Own dc ac" "bind_control me dc h = (Inr (), h')"
    and "sv_control_path c \<noteq> None \<or> name_holder h (sv_control_abstract c) = None"
  shows "connect_control_with_retry (\<lambda>_. reach_path h') (\<lambda>_. reach_abstract h') ac = Inr me \<and> dg_listen dc = sv_listen c
    \<and> probe (sv_listen c) = Inr ()
    \<and> (\<forall>c2 default_path2 probe2 err. sv_control_path c2 = sv_control_path c \<and> sv_control_abstract c2 = sv_control_abstract c
         \<and> probe2 (sv_listen c2) = Inl err \<and> err_kind err = AddrInUse \<longrightarrow>
         (\<exists>ac2. service_role supported default_path2 probe2 c2 = Join ac2 \<and> ac_inline_backends ac2 = Some (sv_hub c2)
            \<and> connect_control_with_retry (\<lambda>_. reach_path h') (\<lambda>_. reach_abstract h') ac2 = Inr me))"
proof -
  have ac: "ac = service_agent default_path c" "dc = service_daemon c" "probe (sv_listen c) = Inr ()" "supported"
    using assms(1) by (auto simp: service_role_def Let_def split: if_splits sum.splits)
  have m: "(case (dg_control_path dc, name_holder h (dg_control_abstract dc)) of (None, Some other) \<Rightarrow> other | _ \<Rightarrow> me) = me"
    using assms(3) by (auto simp: ac service_daemon_def split: option.splits)
  have joins: "connect_control_with_retry (\<lambda>_. reach_path h') (\<lambda>_. reach_abstract h') (service_agent p c2) = Inr me"
    if "sv_control_path c2 = sv_control_path c" "sv_control_abstract c2 = sv_control_abstract c" for p c2
    by (rule connect_retry_succeeds, subst control_reaches [OF assms(2)])
      (use that m in \<open>simp_all add: ac service_agent_def service_daemon_def\<close>)
  have "service_role supported p q c2 = Join (service_agent p c2) \<and> ac_inline_backends (service_agent p c2) = Some (sv_hub c2)"
    if "q (sv_listen c2) = Inl err" "err_kind err = AddrInUse" for p q c2 err
    using that ac(4) by (simp add: service_role_def service_agent_def)
  with joins show ?thesis using ac by (auto simp: service_daemon_def)
qed

definition demo_service :: ServiceConfig where
  "demo_service = from_hub local_only"

theorem own_agent_joins_witness:
  "\<exists>h'. bind_control 8 (service_daemon demo_service) (demo_host\<lparr>ho_abstract := Map.empty\<rparr>) = (Inr (), h')
     \<and> connect_control_with_retry (\<lambda>_. reach_path h') (\<lambda>_. reach_abstract h') (service_agent ''c.toml'' demo_service) = Inr 8"
proof -
  let ?h = "demo_host\<lparr>ho_abstract := Map.empty\<rparr>"
  have r: "service_role True ''c.toml'' (\<lambda>_. Inr ()) demo_service = Own (service_daemon demo_service) (service_agent ''c.toml'' demo_service)"
    by (simp add: service_role_def)
  have b: "bind_control 8 (service_daemon demo_service) ?h = (Inr (), ?h\<lparr>ho_abstract := [CHR 0x00 # DEFAULT_CONTROL_ABSTRACT \<mapsto> 8]\<rparr>)"
    by (simp add: bind_control_def service_daemon_def demo_service_def from_hub_def demo_host_def abstract_bind_def DEFAULT_CONTROL_ABSTRACT_def)
  from own_agent_joins [OF r b] b show ?thesis
    by (simp add: demo_host_def demo_service_def from_hub_def name_holder_def ok_def DEFAULT_CONTROL_ABSTRACT_def)
qed

text \<open>A taken port is taken for a hub. On a platform with shared mode a process whose listen port is in use only becomes an agent,
  whoever owns the port; when no control socket answers, all attempts to connect fail and so does the service. The code that would stop a
  plain adb server on the port belongs to the daemon and does not run.\<close>

theorem service_busy_port:
  assumes "supported" "probe (sv_listen c) = Inl err" "err_kind err = AddrInUse"
    and "reach_path h fallback_socket = Inl e1" "reach_abstract h (sv_control_abstract c) = Inl e2"
    and "\<And>p. sv_control_path c = Some p \<Longrightarrow> reach_path h p = Inl e2"
  shows "\<exists>ac. service_role supported default_path probe c = Join ac
    \<and> connect_control_with_retry (\<lambda>_. reach_path h) (\<lambda>_. reach_abstract h) ac = Inl e2"
proof -
  let ?ac = "service_agent default_path c"
  have "connect_control (reach_path h) (reach_abstract h) ?ac = Inl e2"
    using assms(4-6) by (auto simp: connect_control_def service_agent_def fallback_socket_def split: option.splits sum.splits)
  then show ?thesis
    using assms(1-3) connect_retry_fails by (intro exI [of _ ?ac]) (simp add: service_role_def Let_def)
qed

theorem service_busy_port_witness:
  "\<exists>ac. service_role True ''c.toml'' (\<lambda>_. Inl addr_in_use) demo_service = Join ac"
proof -
  let ?h = "demo_host\<lparr>ho_abstract := Map.empty\<rparr>"
  let ?e = "IoErr ConnectionRefused ''Connection refused (os error 111)''"
  have p: "reach_path ?h p = Inl ?e" for p by (simp add: reach_path_def demo_host_def ok_or_def)
  have a: "reach_abstract ?h (sv_control_abstract demo_service) = Inl ?e"
    by (simp add: reach_abstract_def abstract_connect_def ok_or_def demo_service_def from_hub_def DEFAULT_CONTROL_ABSTRACT_def)
  from service_busy_port [OF TrueI _ _ p a p, of "\<lambda>_. Inl addr_in_use" addr_in_use "''c.toml''"]
  show ?thesis by (auto simp: addr_in_use_def)
qed

text \<open>Runs of the owner: nothing happens after its end; and once it is alone, only the end of the agent or the user ends it.\<close>

lemma service_ended: "sr_result s \<noteq> None \<Longrightarrow> fold service_turn evs s = s"
  by (induction evs) (simp_all add: service_turn_def)

lemma service_alone:
  assumes "sr_alone s" "sr_result s = None"
  shows "(sr_result (fold service_turn evs s) = None \<longleftrightarrow> (\<forall>ev \<in> set evs. \<exists>d. ev = DaemonDone d))
    \<and> (sr_result (fold service_turn evs s) = None \<longrightarrow> fold service_turn evs s = s)"
  using assms
proof (induction evs)
  case (Cons ev evs)
  show ?case
  proof (cases "\<exists>d. ev = DaemonDone d")
    case True
    then have "service_turn ev s = s" using Cons.prems by (auto simp: service_turn_def)
    with Cons True show ?thesis by simp
  next
    case False
    then have "sr_result (service_turn ev s) \<noteq> None" using Cons.prems by (cases ev) (simp_all add: service_turn_def)
    with service_ended [OF this, of evs] False show ?thesis by auto
  qed
qed simp

lemma service_running:
  "sr_result (fold service_turn evs service_init) = None \<longleftrightarrow>
     (\<forall>ev \<in> set evs. \<exists>d. ev = DaemonDone d) \<and> (\<forall>d ds. evs = DaemonDone d # ds \<longrightarrow> lost_the_port d)"
  "sr_result (fold service_turn evs service_init) = None \<Longrightarrow>
     fold service_turn evs service_init = service_init\<lparr>sr_alone := (evs \<noteq> [])\<rparr>"
proof -
  have i: "sr_result service_init = None" "\<not> sr_alone service_init" by (simp_all add: service_init_def)
  let ?a = "service_init\<lparr>sr_alone := True\<rparr>"
  have a: "sr_alone ?a" "sr_result ?a = None" by (simp_all add: i)
  show "sr_result (fold service_turn evs service_init) = None \<longleftrightarrow>
     (\<forall>ev \<in> set evs. \<exists>d. ev = DaemonDone d) \<and> (\<forall>d ds. evs = DaemonDone d # ds \<longrightarrow> lost_the_port d)"
  proof (cases evs)
    case (Cons ev ds)
    show ?thesis
    proof (cases "\<exists>d. ev = DaemonDone d \<and> lost_the_port d")
      case True
      then have "service_turn ev service_init = ?a" by (auto simp: service_turn_def i)
      with service_alone [OF a, of ds] Cons True show ?thesis by auto
    next
      case False
      then have "sr_result (service_turn ev service_init) \<noteq> None" by (cases ev) (auto simp: service_turn_def i)
      with service_ended Cons False show ?thesis by auto
    qed
  qed (simp add: i)
  show "fold service_turn evs service_init = service_init\<lparr>sr_alone := (evs \<noteq> [])\<rparr>"
    if n: "sr_result (fold service_turn evs service_init) = None"
  proof (cases evs)
    case (Cons ev ds)
    have "sr_result (service_turn ev service_init) = None"
    proof (rule ccontr)
      assume "sr_result (service_turn ev service_init) \<noteq> None"
      with service_ended [OF this, of ds] n Cons show False by simp
    qed
    then have "service_turn ev service_init = ?a" by (cases ev) (auto simp: service_turn_def i split: if_splits)
    with service_alone [OF a, of ds] n Cons show ?thesis by simp
  qed (simp add: service_init_def)
qed

text \<open>C19: The owner's lifetime, over every sequence of things that can happen to it. The service runs on exactly as long as neither
  the user nor its agent ends it and its daemon, if that has ended, lost the port to another hub; up to then neither task is told to stop.
  The event that ends it decides everything: the user's shutdown ends it well, the agent's end, whatever the reason, with the agent's
  result, the daemon's end (other than losing the port) with the daemon's result; the agent is told to stop unless it has ended, the
  daemon, and with it every user's session, is told to stop unless it had ended; later events change nothing.\<close>

theorem service_lifetime:
  "let run = (\<lambda>evs. fold service_turn evs service_init) in
    (sr_result (run evs) = None \<longleftrightarrow> UserShutdown \<notin> set evs \<and> (\<forall>t. AgentDone t \<notin> set evs)
       \<and> (\<forall>d ds. evs = DaemonDone d # ds \<longrightarrow> lost_the_port d))
  \<and> (sr_result (run evs) = None \<longrightarrow> \<not> sr_agent_told (run evs) \<and> \<not> sr_daemon_told (run evs))
  \<and> (\<forall>before ev later. evs = before @ ev # later \<and> sr_result (run before) = None \<and> sr_result (run (before @ [ev])) \<noteq> None \<longrightarrow>
       run evs = run (before @ [ev])
     \<and> (sr_agent_told (run evs) \<longleftrightarrow> (\<forall>t. ev \<noteq> AgentDone t))
     \<and> (sr_daemon_told (run evs) \<longleftrightarrow> (\<forall>d. DaemonDone d \<notin> set before \<and> ev \<noteq> DaemonDone d))
     \<and> sr_result (run evs) = Some (case ev of UserShutdown \<Rightarrow> Inr () | AgentDone t \<Rightarrow> end_result SvAgent t
         | DaemonDone d \<Rightarrow> end_result SvDaemon d))"
proof -
  have daemon_only: "(\<forall>ev \<in> set evs. \<exists>d. ev = DaemonDone d) \<longleftrightarrow> UserShutdown \<notin> set evs \<and> (\<forall>t. AgentDone t \<notin> set evs)" for evs
    by (metis service_event.exhaust service_event.distinct(2,3,5))
  have running: "\<not> sr_agent_told (fold service_turn evs service_init) \<and> \<not> sr_daemon_told (fold service_turn evs service_init)"
    if "sr_result (fold service_turn evs service_init) = None"
    using service_running(2) [OF that] by (simp add: service_init_def)
  have decided: "(sr_agent_told v \<longleftrightarrow> (\<forall>t. ev \<noteq> AgentDone t)) \<and> (sr_daemon_told v \<longleftrightarrow> (\<forall>d. DaemonDone d \<notin> set before \<and> ev \<noteq> DaemonDone d))
      \<and> sr_result v = Some (case ev of UserShutdown \<Rightarrow> Inr () | AgentDone t \<Rightarrow> end_result SvAgent t | DaemonDone d \<Rightarrow> end_result SvDaemon d)"
    if b: "sr_result (fold service_turn before service_init) = None" and e: "sr_result (fold service_turn (before @ [ev]) service_init) \<noteq> None"
      and v: "v = fold service_turn (before @ [ev]) service_init" for before ev v
  proof -
    have v': "v = service_turn ev (service_init\<lparr>sr_alone := (before \<noteq> [])\<rparr>)" using service_running(2) [OF b] v by simp
    have "(\<forall>d. DaemonDone d \<notin> set before) \<longleftrightarrow> before = []"
      using b service_running(1) [of before] by (cases before) auto
    with v' e v show ?thesis by (cases ev) (auto simp: service_turn_def service_init_def split: if_splits)
  qed
  have later: "fold service_turn (before @ ev # later) service_init = fold service_turn (before @ [ev]) service_init"
    if "sr_result (fold service_turn (before @ [ev]) service_init) \<noteq> None" for before ev later
    using service_ended [OF that, of later] by simp
  show ?thesis
    unfolding Let_def
  proof (intro conjI allI impI)
    show "sr_result (fold service_turn evs service_init) = None \<longleftrightarrow> UserShutdown \<notin> set evs \<and> (\<forall>t. AgentDone t \<notin> set evs)
       \<and> (\<forall>d ds. evs = DaemonDone d # ds \<longrightarrow> lost_the_port d)"
      unfolding service_running(1) daemon_only by blast
  qed (use running decided later in blast)+
qed

text \<open>The daemon loses the port, the agent goes on, and then ends in a panic; and an agent that panics under a running daemon.\<close>

theorem service_lifetime_witness:
  "let lost = DaemonDone (Finished (Inl (DaemonBind (localhost 5037) addr_in_use))); panic = AgentDone (Broken ''task panicked'') in
     sr_result (fold service_turn [lost] service_init) = None
   \<and> sr_result (fold service_turn [lost, panic] service_init) = Some (Inl (SvIo (IoErr OtherKind ''task panicked'')))
   \<and> sr_daemon_told (fold service_turn [panic, UserShutdown] service_init)"
proof -
  let ?l = "DaemonDone (Finished (Inl (DaemonBind (localhost 5037) addr_in_use)))" and ?p = "AgentDone (Broken ''task panicked'')"
  have l: "lost_the_port (Finished (Inl (DaemonBind (localhost 5037) addr_in_use)))" by (simp add: lost_the_port_def addr_in_use_def)
  have 1: "sr_result (fold service_turn [?l] service_init) = None"
    using service_lifetime [of "[?l]", unfolded Let_def, THEN conjunct1] l by auto
  have 2: "sr_result (fold service_turn [?l, ?p] service_init) \<noteq> None"
    using service_lifetime [of "[?l, ?p]", unfolded Let_def, THEN conjunct1] by auto
  have 3: "sr_result (fold service_turn [?p] service_init) \<noteq> None"
    using service_lifetime [of "[?p]", unfolded Let_def, THEN conjunct1] by auto
  have 4: "sr_result (fold service_turn [?l, ?p] service_init) = Some (Inl (SvIo (IoErr OtherKind ''task panicked'')))"
    using service_lifetime [of "[?l, ?p]", unfolded Let_def, THEN conjunct2, THEN conjunct2, rule_format, of "[?l]" ?p "[]"] 1 2
    by (simp add: end_result_def)
  have "sr_result (fold service_turn [] service_init) = None" by (simp add: service_init_def)
  then have "sr_daemon_told (fold service_turn [?p, UserShutdown] service_init) \<longleftrightarrow> (\<forall>d. DaemonDone d \<notin> set [] \<and> ?p \<noteq> DaemonDone d)"
    using 3 by (intro service_lifetime [of "[?p, UserShutdown]", unfolded Let_def, THEN conjunct2, THEN conjunct2, rule_format,
        of "[]" ?p "[UserShutdown]", THEN conjunct2, THEN conjunct2, THEN conjunct1]) simp
  then have "sr_daemon_told (fold service_turn [?p, UserShutdown] service_init)"
    by (simp only: list.set empty_iff simp_thms service_event.distinct)
  with 1 4 show ?thesis by (simp only: Let_def simp_thms)
qed

text \<open>Backends given on the command line give way to the file. In shared mode, when the default configuration file loads, the
  agent publishes the backends of the file and none of those given by \<^verbatim>\<open>--backend\<close>.\<close>

theorem command_line_ignored:
  assumes "ha_backends args \<noteq> []" "run_default_service toml paths args control cpath s = (Inr c, s')"
    and "fs_is_file fs (hp_default paths)" "HubConfig_load_file toml (fs_read fs) (hp_default paths) = Inr f"
  shows "agent_config toml fs (service_agent (hp_default paths) c) = Inr f"
proof -
  have "hc_config_path (sv_hub c) = None"
    using assms(1,2) by (auto simp: run_default_service_def build_config_def bind_a_def lift_r_def map_err_def ret_def from_hub_def Let_def
        split: sum.splits option.splits)
  then show ?thesis using assms(3,4) by (simp add: agent_config_def service_agent_def Let_def)
qed

end
