(* ===== verification/Paths.thy ===== *)
theory Paths
  imports Commands Local
begin

text \<open>
  Where the configuration files are, from the environment: src/config.rs and src/proxy_config.rs on Unix
  (\<^verbatim>\<open>cfg!(windows)\<close> is false). With a home directory the old location is the default one, and the only file the
  commands fall back to is the legacy one.
\<close>

section \<open>Definitions\<close>

definition home_dir :: "(string \<rightharpoonup> string) \<Rightarrow> string option" where
  "home_dir env = (case env ''HOME'' of Some h \<Rightarrow> Some h | None \<Rightarrow> env ''USERPROFILE'')"

definition under_home :: "(string \<rightharpoonup> string) \<Rightarrow> string \<Rightarrow> string \<Rightarrow> string" where
  "under_home env rel alone = (case home_dir env of Some h \<Rightarrow> path_join h rel | None \<Rightarrow> alone)"

definition config_dir :: "(string \<rightharpoonup> string) \<Rightarrow> string" where
  "config_dir env = under_home env ''.config/adb-hub'' ''.''"

definition default_config_path :: "(string \<rightharpoonup> string) \<Rightarrow> string" where
  "default_config_path env = path_join (config_dir env) ''config.toml''"

definition old_config_path :: "(string \<rightharpoonup> string) \<Rightarrow> string" where
  "old_config_path env = under_home env ''.config/adb-hub/config.toml'' ''config.toml''"

definition legacy_config_path :: "(string \<rightharpoonup> string) \<Rightarrow> string" where
  "legacy_config_path env = under_home env ''.adbproxy'' ''.adbproxy''"

definition proxy_config_dir :: "(string \<rightharpoonup> string) \<Rightarrow> string" where
  "proxy_config_dir env = under_home env ''.config/adb-proxy'' ''.''"

definition default_proxy_config_path :: "(string \<rightharpoonup> string) \<Rightarrow> string" where
  "default_proxy_config_path env = path_join (proxy_config_dir env) ''config.toml''"

definition env_paths :: "(string \<rightharpoonup> string) \<Rightarrow> hub_paths" where
  "env_paths env = \<lparr>hp_default = default_config_path env, hp_old = old_config_path env, hp_legacy = legacy_config_path env\<rparr>"

section \<open>Lemmas\<close>

lemma path_join_assoc: "rel \<noteq> [] \<Longrightarrow> last rel \<noteq> CHR ''/'' \<Longrightarrow> path_join (path_join d rel) f = path_join d (rel @ ''/'' @ f)"
  by (auto simp: path_join_def)

lemma default_is_old: "home_dir env = Some h \<Longrightarrow> default_config_path env = old_config_path env"
  by (simp add: default_config_path_def old_config_path_def config_dir_def under_home_def path_join_assoc)

lemma names_file_join: "names_file (path_join d ''config.toml'')"
proof -
  have "file_name (a @ ''config.toml'') = file_name a @ ''config.toml''" if "a = [] \<or> last a = CHR ''/''" for a
    using that by (cases a rule: rev_cases) (simp_all add: file_name_def)
  then show ?thesis by (cases "d = [] \<or> last d = CHR ''/''") (auto simp: path_join_def names_file_def file_name_def)
qed

text \<open>So the commands' default path always names a file, as pairing needs.\<close>

lemma names_default: "names_file (hp_default (env_paths env))"
  by (simp add: env_paths_def default_config_path_def names_file_join)

text \<open>With a home directory, a configuration in the default place is not taken for a legacy one, and the legacy file counts only
  when there is none.\<close>

theorem default_config_sources:
  assumes "home_dir env = Some h"
  shows "load_default_config toml (env_paths env) s =
    (if fs_is_file (c_fs s) (default_config_path env) then load_config toml (default_config_path env) s
     else if fs_is_file (c_fs s) (legacy_config_path env) then
       then_a (say (''adb-hub: loading legacy config from '' @ legacy_config_path env @ '' (consider migrating to '' @ default_config_path env @ '')''))
         (\<lambda>s. (map_err (\<lambda>e. boxed (ConfigError_display e)) (load_legacy_file (fs_read (c_fs s)) (legacy_config_path env)), s)) s
     else (Inl (boxed (''no config at '' @ default_config_path env)), s))"
  using default_is_old [OF assms] by (simp add: load_default_config_def env_paths_def)

end
