(* ===== verification/Binaries.thy ===== *)
theory Binaries
  imports Service Paths Serve
begin

text \<open>
  The three programs, from their parsed arguments to their exit status: \<^verbatim>\<open>main\<close> of src/bin/adb-hub.rs,
  src/bin/adb-hubd.rs and src/main.rs. How a service, an agent or a proxy ends once it runs is an
  argument; what it is run with is decided here.
\<close>

section \<open>Errors as text\<close>

definition HubError_display :: "HubError \<Rightarrow> string" where
  "HubError_display e = (case e of
     HubIo err \<Rightarrow> ''io error: '' @ err_msg err
   | HubBind addr source \<Rightarrow> ''failed to bind '' @ addr_string addr @ '': '' @ err_msg source
       @ ''. If a local adb server is running, stop it first with `adb kill-server`''
   | HubLocalAdb err \<Rightarrow> ''local adb server error: '' @ err_msg err)"

definition DaemonError_display :: "os \<Rightarrow> DaemonError \<Rightarrow> string" where
  "DaemonError_display os e = (case e of
     DaemonIo err \<Rightarrow> ''io error: '' @ err_msg err
   | DaemonBind addr source \<Rightarrow> ''failed to bind '' @ addr_string addr @ '': '' @ err_msg source
       @ ''. If a local adb server is running, stop it first with `adb kill-server`''
   | DaemonLocalAdb err \<Rightarrow> ''local adb server error: '' @ err_msg err
   | UnsupportedPlatform \<Rightarrow> multi_user_unsupported_reason os)"

definition ServiceError_display :: "os \<Rightarrow> ServiceError \<Rightarrow> string" where
  "ServiceError_display os e = (case e of
     SvHub err \<Rightarrow> HubError_display err
   | SvDaemon err \<Rightarrow> DaemonError_display os err
   | SvAgent err \<Rightarrow> AgentError_display os err
   | SvIo err \<Rightarrow> ''io error: '' @ err_msg err)"

text \<open>A run whose error is only shown.\<close>

definition shown :: "('e \<Rightarrow> string) \<Rightarrow> (csess \<Rightarrow> ('e + unit) \<times> csess) \<Rightarrow> (csess, unit) act" where
  "shown disp m s = (case m s of (r, s') \<Rightarrow> (map_err (\<lambda>e. boxed (disp e)) r, s'))"

section \<open>adb-hub\<close>

record hub_cli = hub_args +
  hl_command :: "Commands option"
  hl_daemon :: bool
  hl_control :: string
  hl_control_path :: "string option"

definition agent_command :: "string \<Rightarrow> hub_cli \<Rightarrow> string \<Rightarrow> string option \<Rightarrow> AgentConfig" where
  "agent_command default_path args control control_path =
     (AgentConfig_default default_path)\<lparr>ac_config_path := unwrap_or default_path (ha_config args), ac_control_abstract := control,
        ac_control_path := control_path, ac_poll_interval := unat (max (unwrap_or 1000 (ha_poll_ms args)) 100)\<rparr>"

definition hub_main ::
  "os \<Rightarrow> hub_toml \<Rightarrow> (TomlFile \<Rightarrow> string + string) \<Rightarrow> hub_paths
     \<Rightarrow> (AgentConfig \<Rightarrow> csess \<Rightarrow> (AgentError + unit) \<times> csess) \<Rightarrow> (ServiceConfig \<Rightarrow> csess \<Rightarrow> (ServiceError + unit) \<times> csess)
     \<Rightarrow> hub_cli \<Rightarrow> csess \<Rightarrow> nat \<times> csess" where
  "hub_main os toml ser paths agent service args s =
     (let path = resolve_config_path (hp_default paths) (ha_config args) in
      case hl_command args of
        Some (CmdPair addr code name) \<Rightarrow> exit_with ''adb-hub pair'' (run_pair toml ser addr code name path) s
      | Some (CmdUnpair name) \<Rightarrow> exit_with ''adb-hub unpair'' (run_unpair toml ser name path) s
      | Some CmdList \<Rightarrow> exit_with ''adb-hub list'' (run_list toml path) s
      | Some (CmdAgent foreground control control_path) \<Rightarrow>
          (if \<not> multi_user_supported os then (2, snd (say (''adb-hub agent: '' @ multi_user_unsupported_reason os) s))
           else exit_with ''adb-hub agent''
                  (shown (AgentError_display os) (agent (agent_command (hp_default paths) args control control_path))) s)
      | Some (CmdDevice action) \<Rightarrow> exit_with ''adb-hub device'' (run_device toml ser action path) s
      | Some (CmdNode action) \<Rightarrow> exit_with ''adb-hub node'' (run_node toml ser action path) s
      | None \<Rightarrow> exit_with ''adb-hub''
          (bind_a (run_default_service toml paths (hub_args.truncate args) (hl_control args) (hl_control_path args)) (\<lambda>config.
             shown (ServiceError_display os) (service config))) s)"

section \<open>adb-hubd and adb-proxy\<close>

definition hubd_main ::
  "os \<Rightarrow> hub_toml \<Rightarrow> string \<Rightarrow> (ServiceConfig \<Rightarrow> csess \<Rightarrow> (ServiceError + unit) \<times> csess) \<Rightarrow> SocketAddr \<Rightarrow> u16 \<Rightarrow> bool \<Rightarrow> u64
     \<Rightarrow> string option \<Rightarrow> string \<Rightarrow> string option \<Rightarrow> csess \<Rightarrow> nat \<times> csess" where
  "hubd_main os toml default_path service listen local_port no_local poll_ms config control control_path s =
     exit_with ''adb-hubd'' (shown (ServiceError_display os)
       (service (hubd_service toml default_path listen local_port no_local poll_ms config (c_fs s) control control_path))) s"

record proxy_cli =
  px_command :: "DeviceAction option"
  px_listen :: SocketAddr
  px_target :: SocketAddr
  px_pair_code :: "string option"
  px_config :: "string option"

text \<open>An error that \<^verbatim>\<open>main\<close> returns is printed by the runtime, which ends the process with status 1.\<close>

definition proxy_main ::
  "(string \<Rightarrow> string + RawDevice list option) \<Rightarrow> (DevicePolicyEntry list \<Rightarrow> string + string) \<Rightarrow> string \<Rightarrow> (nat \<Rightarrow> nat)
     \<Rightarrow> (ProxyConfig \<Rightarrow> csess \<Rightarrow> (ProxyError + unit) \<times> csess) \<Rightarrow> proxy_cli \<Rightarrow> csess \<Rightarrow> nat \<times> csess" where
  "proxy_main toml ser default_path rng proxy args s =
     (let policy_path = unwrap_or default_path (px_config args) in
      case px_command args of
        Some action \<Rightarrow> exit_with ''adb-proxy device'' (run_device_command toml ser action policy_path (px_target args)) s
      | None \<Rightarrow>
          (case proxy_pair_code rng (px_pair_code args) of
             Inl _ \<Rightarrow> (1, s)
           | Inr code \<Rightarrow>
               (case proxy \<lparr>pg_listen = px_listen args, pg_target = px_target args, pg_pair_code = code, pg_policy_path = policy_path\<rparr> s of
                  (Inl _, s') \<Rightarrow> (1, s')
                | (Inr _, s') \<Rightarrow> (0, s'))))"

section \<open>Exit status\<close>

lemma exit_with_status:
  "exit_with what m s = (st, s') \<Longrightarrow> (st = 0 \<longleftrightarrow> (\<exists>u. fst (m s) = Inr u)) \<and> st \<le> 1
     \<and> (st = 1 \<longrightarrow> (\<exists>err. fst (m s) = Inl err \<and> last (c_out s') = what @ '' error: '' @ err_msg err))"
  by (auto simp: exit_with_def say_def split: prod.splits sum.splits)

text \<open>A stored configuration is the one a run starts from.\<close>

lemma hub_wf_upsert:
  assumes "hub_wf c" "pair_code_ok code"
  shows "hub_wf (upsert_backend (paired addr code name) c)"
proof (cases rule: upsert_cases [of c "paired addr code name"])
  case (by_name us e vs)
  then show ?thesis using assms by (auto simp: hub_wf_def paired_def upsert_backend_def split: option.splits)
next
  case (by_addr us e vs)
  then show ?thesis using assms by (auto simp: hub_wf_def paired_def upsert_backend_def split: option.splits)
next
  case pushed
  then show ?thesis using assms by (auto simp: hub_wf_def paired_def upsert_backend_def split: option.splits)
qed

lemma upsert_holds:
  "\<exists>b \<in> set (hc_backends (upsert_backend n c)). bc_name b = bc_name n \<and> bc_addr b = bc_addr n \<and> bc_pair_code b = bc_pair_code n"
  by (cases rule: upsert_cases [of c n]) auto

lemma upsert_addrs:
  "b \<in> set (hc_backends (upsert_backend n c)) \<Longrightarrow> bc_addr b = bc_addr n \<or> bc_addr b \<in> bc_addr ` set (hc_backends c)"
  by (cases rule: upsert_cases [of c n]) (auto simp: image_iff)

lemma upsert_settings:
  "hc_listen (upsert_backend n c) = hc_listen c" "hc_poll_interval (upsert_backend n c) = hc_poll_interval c"
  by (simp_all add: upsert_backend_def split: option.splits)

lemma load_stored:
  assumes "stored ser path c fs" "hub_wf c" "addr_ok (hc_listen c)" "\<forall>b \<in> set (hc_backends c). addr_ok (bc_addr b)"
    and "hc_poll_interval c < 2 ^ 64" "reads_back toml ser (to_toml_file c)" "\<forall>text. ser (to_toml_file c) = Inr text \<longrightarrow> utf8_valid text"
  shows "\<exists>c'. HubConfig_load_file toml (fs_read fs) path = Inr c' \<and> hc_backends c' = hc_backends c"
proof -
  obtain n where n: "fs_files fs path = Some n" "ser (to_toml_file c) = Inr (fn_text n)"
    using assms(1) by (auto simp: stored_def)
  have rd: "fs_read fs path = Inr (fn_text n)" using n assms(7) by (simp add: fs_read_def from_utf8_def)
  obtain raw where raw: "toml (fn_text n) = Inr raw" "with_defaults raw = to_toml_file c"
    using assms(6) n(2) by (auto simp: reads_back_def)
  obtain c1 where c1: "from_toml_file (to_toml_file c) = Inr c1"
    "c1\<lparr>hc_devices := hc_devices c, hc_config_path := hc_config_path c\<rparr> = c"
    using from_to_toml_file [OF assms(2-5)] by blast
  have "hc_backends c1 = hc_backends c" using arg_cong [OF c1(2), of hc_backends] by simp
  then show ?thesis using rd raw c1(1) by (simp add: HubConfig_load_file_def HubConfig_from_toml_str_def)
qed

lemma last_of_each_distinct_id: "distinct (map bc_name bs) \<Longrightarrow> last_of_each bs = bs"
proof -
  have "keep_unseen seen bs = bs" if "distinct (map bc_name bs)" "bc_name ` set bs \<inter> seen = {}" for seen and bs :: "BackendConfig list"
    using that by (induction seen bs rule: keep_unseen.induct) auto
  from this [of "rev bs" "{}"] show "distinct (map bc_name bs) \<Longrightarrow> last_of_each bs = bs"
    by (simp add: last_of_each_def rev_map [symmetric])
qed

text \<open>The file of a run without \<^verbatim>\<open>--backend\<close>.\<close>

lemma build_config_file:
  assumes "ha_backends args = []" "HubConfig_load_file toml (fs_read (c_fs t)) (unwrap_or (hp_default paths) (ha_config args)) = Inr c"
    and "distinct (map bc_name (hc_backends c))"
  shows "\<exists>c'. build_config toml paths args t = (Inr c', t) \<and> hc_backends c' = hc_backends c"
proof -
  let ?path = "unwrap_or (hp_default paths) (ha_config args)"
  have f: "fs_is_file (c_fs t) ?path"
    using assms(2) by (auto simp: HubConfig_load_file_def fs_is_file_def fs_read_def map_err_def bind_r_def split: option.splits)
  have lo: "hc_backends (local_overrides args d) = hc_backends d" for d
    by (simp add: local_overrides_def Let_def split: option.splits)
  show ?thesis
    using assms f
    by (cases "ha_config args"; cases "ha_listen args"; cases "ha_poll_ms args")
      (simp_all add: build_config_def load_default_config_def load_config_def bind_a_def try_a_def unwrap_or_def lo
        last_of_each_distinct_id Let_def ret_def)
qed

section \<open>Properties\<close>

text \<open>C21: A paired backend is served by the next run. When \<^verbatim>\<open>adb-hub pair\<close> ended with status 0, a later \<^verbatim>\<open>adb-hub\<close> with
  the same configuration option, and no backends on its command line, runs the service on a configuration that has a backend with the
  paired name, address and code (for backend names that are distinct, addresses whose text parses back, and a TOML library that reads back
  what it wrote for this document).\<close>

theorem paired_then_served:
  assumes "hl_command cli = Some (CmdPair addr code name)" "hub_main os toml ser paths agent service cli s = (0, s')"
    and "path = resolve_config_path (hp_default paths) (ha_config cli)" "names_file path" "load_or_empty toml path s = (Inr c, s)"
    and "names_distinct c" "hc_poll_interval c < 2 ^ 64" "addr_ok (hc_listen c)" "addr_ok addr" "\<forall>b \<in> set (hc_backends c). addr_ok (bc_addr b)"
    and "reads_back toml ser (to_toml_file (upsert_backend (paired addr code name) c))"
    and "\<forall>text. ser (to_toml_file (upsert_backend (paired addr code name) c)) = Inr text \<longrightarrow> utf8_valid text"
    and "hl_command run = None" "ha_backends run = []" "ha_config run = ha_config cli" "c_fs t = c_fs s'"
  shows "\<exists>config b. hub_main os toml ser paths agent service run t = exit_with ''adb-hub'' (shown (ServiceError_display os) (service config)) t
    \<and> b \<in> set (hc_backends (sv_hub config)) \<and> bc_name b = unwrap_or (default_backend_name addr) name \<and> bc_addr b = addr
    \<and> bc_pair_code b = Some code"
proof -
  let ?n = "paired addr code name"
  let ?u = "upsert_backend ?n c"
  have "exit_with ''adb-hub pair'' (run_pair toml ser addr code name path) s = (0, s')"
    using assms(1-3) by (simp add: hub_main_def Let_def)
  then have p: "run_pair toml ser addr code name path s = (Inr (), s')" by (simp add: exit_with_def split: prod.splits sum.splits)
  have wf: "hub_wf c"
  proof (cases "fs_is_file (c_fs s) path")
    case True
    then have "HubConfig_load_file toml (fs_read (c_fs s)) path = Inr c" using load_or_empty_result [OF assms(5)] by simp
    then show ?thesis
      by (auto simp: HubConfig_load_file_def HubConfig_from_toml_str_def bind_r_Inr_iff hub_wf_def
          dest!: from_toml_file_wf split: if_splits)
  next
    case False
    then have "c = local_only" using load_or_empty_result [OF assms(5)] by simp
    then show ?thesis
      by (simp add: hub_wf_def local_only_def listen_addr_def default_local_adb_port_def default_poll_ms_def wf_intros)
  qed
  from pair_effect [OF assms(4) p] load_or_empty_result [OF assms(5)]
  have v: "validate_pair_code code = Inr ()" and st: "stored ser path ?u (c_fs s')" by (auto split: if_splits)
  have "hub_wf ?u" using wf v by (intro hub_wf_upsert) (simp_all add: validate_pair_code_ok_iff)
  moreover have "\<forall>b \<in> set (hc_backends ?u). addr_ok (bc_addr b)"
    using assms(9,10) by (auto dest!: upsert_addrs simp: paired_def)
  moreover have "addr_ok (hc_listen ?u)" "hc_poll_interval ?u < 2 ^ 64" using assms(7,8) by (simp_all add: upsert_settings)
  ultimately obtain c' where c': "HubConfig_load_file toml (fs_read (c_fs t)) path = Inr c'" "hc_backends c' = hc_backends ?u"
    using load_stored [OF st _ _ _ _ assms(11,12)] assms(16) by auto
  have "distinct (map bc_name (hc_backends c'))" using upsert_names_distinct [OF assms(6), of ?n] c'(2) by (simp add: names_distinct_def)
  with build_config_file [of "hub_args.truncate run" toml t paths c'] c' assms(3,14,15)
  obtain cf where cf: "build_config toml paths (hub_args.truncate run) t = (Inr cf, t)" "hc_backends cf = hc_backends ?u"
    by (auto simp: resolve_config_path_def hub_args.defs)
  let ?cfg = "(from_hub cf)\<lparr>sv_control_abstract := hl_control run, sv_control_path := hl_control_path run\<rparr>"
  have "hub_main os toml ser paths agent service run t = exit_with ''adb-hub'' (shown (ServiceError_display os) (service ?cfg)) t"
    using assms(13) cf(1) by (simp add: hub_main_def run_default_service_def bind_a_def exit_with_def Let_def)
  moreover have "hc_backends (sv_hub ?cfg) = hc_backends ?u" using cf(2) by (simp add: from_hub_def)
  ultimately show ?thesis using upsert_holds [of ?n c] by (intro exI [of _ ?cfg]) (auto simp: paired_def)
qed

definition demo_cli :: "Commands option \<Rightarrow> hub_cli" where
  "demo_cli cmd = \<lparr>ha_backends = [], ha_config = None, ha_no_local = False, ha_local_port = None, ha_listen = None, ha_poll_ms = None,
     hl_command = cmd, hl_daemon = False, hl_control = DEFAULT_CONTROL_ABSTRACT, hl_control_path = None\<rparr>"

definition demo_paths :: hub_paths where
  "demo_paths = \<lparr>hp_default = ''c.toml'', hp_old = ''c.toml'', hp_legacy = ''.adbproxy''\<rparr>"

definition demo_store :: "string \<Rightarrow> string + RawToml" where
  "demo_store _ = Inr (raw_of (to_toml_file (upsert_backend (paired (localhost 5038) demo_pair_code None) local_only)))"

abbreviation "demo_pairing \<equiv> CmdPair (localhost 5038) demo_pair_code None"

lemma demo_pair_main:
  "\<exists>s'. hub_main Linux demo_store (\<lambda>_. Inr ''text'') demo_paths agent service (demo_cli (Some demo_pairing))
     (demo_proxy (demo_fs None)) = (0, s')"
proof -
  have "fst (run_pair demo_store (\<lambda>_. Inr ''text'') (localhost 5038) demo_pair_code None ''c.toml'' (demo_proxy (demo_fs None))) = Inr ()"
    by (rule demo_pair) (simp_all add: fs_is_file_def demo_fs_def HubConfig_save_file_def fs_create_dir_all_def fs_try_def to_toml_string_def
        fs_write_def fs_put_def fs_set_mode_def fs_rename_def then_a_def bind_a_def)
  then show ?thesis
    by (cases "run_pair demo_store (\<lambda>_. Inr ''text'') (localhost 5038) demo_pair_code None ''c.toml'' (demo_proxy (demo_fs None))")
      (simp add: hub_main_def demo_cli_def demo_paths_def resolve_config_path_def unwrap_or_def exit_with_def)
qed

theorem paired_then_served_witness:
  "\<exists>s' (config :: ServiceConfig) b. hub_main Linux demo_store (\<lambda>_. Inr ''text'') demo_paths (\<lambda>_ s. (Inr (), s)) (\<lambda>_ s. (Inr (), s)) (demo_cli None) s'
       = exit_with ''adb-hub'' (shown (ServiceError_display Linux) (\<lambda>s. (Inr (), s))) s'
     \<and> b \<in> set (hc_backends (sv_hub config)) \<and> bc_pair_code b = Some demo_pair_code"
proof -
  let ?a = "\<lambda>_ s. (Inr (), s)" and ?v = "\<lambda>_ s. (Inr (), s)"
  obtain s' where s: "hub_main Linux demo_store (\<lambda>_. Inr ''text'') demo_paths ?a ?v (demo_cli (Some demo_pairing))
     (demo_proxy (demo_fs None)) = (0, s')" using demo_pair_main by blast
  have cmd: "hl_command (demo_cli (Some demo_pairing)) = Some demo_pairing" by (simp add: demo_cli_def)
  have path: "''c.toml'' = resolve_config_path (hp_default demo_paths) (ha_config (demo_cli (Some demo_pairing)))"
    by (simp add: demo_cli_def demo_paths_def resolve_config_path_def unwrap_or_def)
  have l: "load_or_empty demo_store ''c.toml'' (demo_proxy (demo_fs None)) = (Inr local_only, demo_proxy (demo_fs None))"
    by (simp add: load_or_empty_def demo_proxy_def fs_is_file_def demo_fs_def)
  have "reads_back demo_store (\<lambda>_. Inr ''text'') (to_toml_file (upsert_backend (paired (localhost 5038) demo_pair_code None) local_only))"
    by (simp add: reads_back_def demo_store_def with_defaults_raw_of)
  moreover have "utf8_valid ''text''" by (rule utf8_valid_ascii) (simp add: ascii_def)
  moreover have "names_distinct local_only" "hc_poll_interval local_only < 2 ^ 64" "addr_ok (hc_listen local_only)"
    "\<forall>b \<in> set (hc_backends local_only). addr_ok (bc_addr b)"
    by (simp_all add: names_distinct_def local_only_def listen_addr_def default_poll_ms_def)
  moreover have "hl_command (demo_cli None) = None" "ha_backends (demo_cli None) = []"
    "ha_config (demo_cli None) = ha_config (demo_cli (Some demo_pairing))"
    by (simp_all add: demo_cli_def)
  ultimately show ?thesis
    using paired_then_served [OF cmd s path names_file_demo l, where run = "demo_cli None" and t = s'] by auto
qed

text \<open>The exit status of \<^verbatim>\<open>adb-hub\<close>. It is 0, 1 or 2; 2 says exactly that an agent was asked for on a platform without shared
  mode, and then nothing but the message has happened; every failure ends with a line of its own on the console.\<close>

theorem hub_main_status:
  assumes "hub_main os toml ser paths agent service args s = (st, s')"
  shows "st \<le> 2 \<and> (st = 2 \<longleftrightarrow> (\<exists>fg control p. hl_command args = Some (CmdAgent fg control p)) \<and> os \<noteq> Linux)
    \<and> (st = 2 \<longrightarrow> s' = s\<lparr>c_out := c_out s @ [''adb-hub agent: '' @ multi_user_unsupported_reason os]\<rparr>)
    \<and> (st \<noteq> 0 \<longrightarrow> starts_with ''adb-hub'' (last (c_out s')))"
proof -
  have e: "st \<le> 1 \<and> (st \<noteq> 0 \<longrightarrow> starts_with ''adb-hub'' (last (c_out s')))"
    if "exit_with what m s = (st, s')" "starts_with ''adb-hub'' what" for what m
    using that by (auto simp: exit_with_def say_def starts_with_def split: prod.splits sum.splits)
  have names: "starts_with ''adb-hub'' ''adb-hub pair''" "starts_with ''adb-hub'' ''adb-hub unpair''" "starts_with ''adb-hub'' ''adb-hub list''"
    "starts_with ''adb-hub'' ''adb-hub agent''" "starts_with ''adb-hub'' ''adb-hub device''" "starts_with ''adb-hub'' ''adb-hub node''"
    by (simp_all add: starts_with_def)
  show ?thesis
  proof (cases "(\<exists>fg control p. hl_command args = Some (CmdAgent fg control p)) \<and> os \<noteq> Linux")
    case True
    with assms show ?thesis by (auto simp: hub_main_def Let_def multi_user_supported_def say_def starts_with_def)
  next
    case False
    have "\<exists>what m. exit_with what m s = (st, s') \<and> starts_with ''adb-hub'' what"
    proof (cases "hl_command args")
      case None
      with assms show ?thesis by (intro exI conjI, simp add: hub_main_def Let_def) (simp add: starts_with_def)
    next
      case (Some cmd)
      with assms False show ?thesis
        by (cases cmd) (simp_all add: hub_main_def Let_def multi_user_supported_def, (blast intro: names)+)
    qed
    with e have "st \<le> 1" "st \<noteq> 0 \<longrightarrow> starts_with ''adb-hub'' (last (c_out s'))" by blast+
    with False show ?thesis by auto
  qed
qed

theorem hub_main_status_witness:
  "fst (hub_main MacOs demo_store (\<lambda>_. Inr ''text'') demo_paths (\<lambda>_ s. (Inr (), s)) (\<lambda>_ s. (Inr (), s))
     (demo_cli (Some (CmdAgent False ''adb-hubd'' None))) (demo_proxy (demo_fs None))) = 2"
proof -
  obtain st s' where r: "hub_main MacOs demo_store (\<lambda>_. Inr ''text'') demo_paths (\<lambda>_ s. (Inr (), s)) (\<lambda>_ s. (Inr (), s))
     (demo_cli (Some (CmdAgent False ''adb-hubd'' None))) (demo_proxy (demo_fs None)) = (st, s')" by force
  have "hl_command (demo_cli (Some (CmdAgent False ''adb-hubd'' None))) = Some (CmdAgent False ''adb-hubd'' None)" by (simp add: demo_cli_def)
  with hub_main_status [OF r] r show ?thesis by (metis fst_conv os.distinct(1))
qed

text \<open>A proxy never runs without a well-formed code: what \<^verbatim>\<open>adb-proxy\<close> does depends on the proxy's behaviour for well-formed
  codes only, whether the code is given or random.\<close>

theorem proxy_needs_code:
  assumes "\<And>config. validate_pair_code (pg_pair_code config) = Inr () \<Longrightarrow> proxy config = proxy' config"
    and "\<And>i. i < 8 \<Longrightarrow> rng i < length PAIR_ALPHABET"
  shows "proxy_main toml ser default_path rng proxy args s = proxy_main toml ser default_path rng proxy' args s"
proof -
  have "validate_pair_code code = Inr ()" if "proxy_pair_code rng given = Inr code" for given code
    using that generate_pair_code_valid [OF assms(2)]
    by (auto simp: proxy_pair_code_def bind_r_Inr_iff split: option.splits)
  then show ?thesis
    using assms(1) by (auto simp: proxy_main_def Let_def split: option.split sum.split)
qed

theorem proxy_needs_code_witness:
  "proxy_main (\<lambda>_. Inl []) (\<lambda>_. Inl []) ''c.toml'' (\<lambda>i. 5 * i) (\<lambda>_ s. (Inr (), s))
      \<lparr>px_command = None, px_listen = localhost 5038, px_target = localhost 5037, px_pair_code = Some ''abc'', px_config = None\<rparr> (demo_proxy (demo_fs None))
   = proxy_main (\<lambda>_. Inl []) (\<lambda>_. Inl []) ''c.toml'' (\<lambda>i. 5 * i)
      (\<lambda>config s. (if validate_pair_code (pg_pair_code config) = Inr () then Inr () else Inl (ProxyIo (boxed [])), s))
      \<lparr>px_command = None, px_listen = localhost 5038, px_target = localhost 5037, px_pair_code = Some ''abc'', px_config = None\<rparr> (demo_proxy (demo_fs None))"
  by (rule proxy_needs_code) (simp_all add: PAIR_ALPHABET_def)

text \<open>The alias is not the same. Given the same configuration file and no other options, \<^verbatim>\<open>adb-hub\<close> listens where the file says, with
  the file's local settings and interval, and refuses a file that does not load; \<^verbatim>\<open>adb-hubd\<close> takes its own defaults for all of these
  and runs without backends when the file does not load.\<close>

theorem alias_differs:
  assumes "ha_backends args = []" "ha_config args = Some path" "\<not> ha_no_local args" "ha_local_port args = None" "ha_listen args = None"
    and "ha_poll_ms args = None"
  shows "case HubConfig_load_file toml (fs_read (c_fs s)) path of
      Inr f \<Rightarrow> (\<exists>c. build_config toml paths args s = (Inr c, s) \<and> hc_listen c = hc_listen f \<and> hc_include_local c = hc_include_local f
          \<and> hc_local_adb_port c = hc_local_adb_port f \<and> hc_poll_interval c = hc_poll_interval f)
        \<and> (let d = hubd_config toml default_path (localhost 5037) 5039 False 1000 (Some path) (c_fs s) in
             hc_listen d = localhost 5037 \<and> hc_include_local d \<and> hc_local_adb_port d = 5039 \<and> hc_poll_interval d = 1000
             \<and> hc_backends d = hc_backends f)
    | Inl e \<Rightarrow> build_config toml paths args s = (Inl (boxed (ConfigError_display e)), s)
        \<and> hc_backends (hubd_config toml default_path (localhost 5037) 5039 False 1000 (Some path) (c_fs s)) = []"
  using assms
  by (auto simp: build_config_def bind_a_def load_config_def map_err_def local_overrides_def hubd_config_def Let_def local_only_def max_def
      split: sum.split)

text \<open>Names that are not distinct. The loader accepts a file with two backends of one name; pairing under that name changes the first of
  them, a run keeps the last, so the new address and code are never used.\<close>

theorem pair_shadowed:
  assumes "hc_backends c = us @ x # vs @ [y]" "bc_name x = n" "bc_name y = n" "n \<notin> bc_name ` set us"
  shows "last_of_each (hc_backends (upsert_backend (paired addr code (Some n)) c)) = last_of_each (hc_backends c)"
proof -
  have up: "update_first (\<lambda>e. bc_name e = n) f (us @ x # vs @ [y]) = Some (us @ f x # vs @ [y])" for f
    using assms(2,4) by (induction us) auto
  have k: "keep_unseen seen (bs @ x' # cs) = keep_unseen seen (bs @ x # cs)"
    if "bc_name x' = n" "n \<in> seen \<union> bc_name ` set bs" for seen bs x' cs
    using that assms(2) by (induction seen bs rule: keep_unseen.induct) (auto simp: insert_absorb)
  have "hc_backends (upsert_backend (paired addr code (Some n)) c) = us @ x\<lparr>bc_addr := addr, bc_pair_code := Some code\<rparr> # vs @ [y]"
    by (simp add: upsert_backend_def paired_def assms(1) up unwrap_or_def)
  then show ?thesis
    using k [of "x\<lparr>bc_addr := addr, bc_pair_code := Some code\<rparr>" "{}" "y # rev vs" "rev us"] assms(1-3)
    by (simp add: last_of_each_def)
qed

end
