(* ===== verification/Tunnel_Order.thy ===== *)
theory Tunnel_Order
  imports Tunnel
begin

text \<open>
  The connections of one scrcpy listener of src/tunnel.rs as concurrent tasks: the accept loop spawns
  one task per connection, each waits for the \<open>done\<close> signal of the one before it, opens its upstream,
  does the handshake under a ten second limit, signals \<open>done\<close> whatever the outcome and only then copies.

  The steps of different tasks interleave arbitrarily. \<open>opener n\<close> is what the \<open>n\<close>-th call of the
  captured closure \<open>open\<close> gives; \<open>tq_pending\<close> are the connections the accept loop has still to hand
  over, in order. The upstream a task ends up with is the one of its own place in the queue, at most
  one handshake is under way, and no task waits for ever.
\<close>

section \<open>Definitions\<close>

datatype task_phase =
    AwaitPrevious
  | Handshaking "io_error + conn"
  | HandshakeDone "conn option"

record 'p tunnel_queue =
  tq_pending :: "'p list"
  tq_tasks :: "('p \<times> task_phase) list"
  tq_opens :: nat

text \<open>The \<open>done\<close> signal of the previous task has been given; the first task has none to wait for.\<close>

definition previous_done :: "('p \<times> task_phase) list \<Rightarrow> nat \<Rightarrow> bool" where
  "previous_done ts i \<longleftrightarrow>
     (case i of 0 \<Rightarrow> True
      | Suc j \<Rightarrow> (case snd (ts ! j) of HandshakeDone _ \<Rightarrow> True | _ \<Rightarrow> False))"

text \<open>The body under the time limit: the upstream of a completed handshake.\<close>

definition connected :: "string \<Rightarrow> io_error + conn \<Rightarrow> conn option" where
  "connected socket opened =
     (case opened of Inl _ \<Rightarrow> None
      | Inr upstream \<Rightarrow>
          (case tunnel_handshake socket upstream of
             (Inl _, _) \<Rightarrow> None
           | (Inr _, upstream') \<Rightarrow> Some upstream'))"

inductive tunnel_step :: "(nat \<Rightarrow> io_error + conn) \<Rightarrow> string \<Rightarrow> 'p tunnel_queue \<Rightarrow> 'p tunnel_queue \<Rightarrow> bool"
  for opener :: "nat \<Rightarrow> io_error + conn" and socket :: string where
  spawn_task: "tq_pending s = p # ps \<Longrightarrow>
     tunnel_step opener socket s (s\<lparr>tq_pending := ps, tq_tasks := tq_tasks s @ [(p, AwaitPrevious)]\<rparr>)"
| open_upstream: "i < length (tq_tasks s) \<Longrightarrow> tq_tasks s ! i = (p, AwaitPrevious) \<Longrightarrow>
     previous_done (tq_tasks s) i \<Longrightarrow>
     tunnel_step opener socket s
       (s\<lparr>tq_tasks := (tq_tasks s)[i := (p, Handshaking (opener (tq_opens s)))], tq_opens := Suc (tq_opens s)\<rparr>)"
| handshake_ends: "i < length (tq_tasks s) \<Longrightarrow> tq_tasks s ! i = (p, Handshaking r) \<Longrightarrow>
     tunnel_step opener socket s (s\<lparr>tq_tasks := (tq_tasks s)[i := (p, HandshakeDone (connected socket r))]\<rparr>)"
| handshake_times_out: "i < length (tq_tasks s) \<Longrightarrow> tq_tasks s ! i = (p, Handshaking r) \<Longrightarrow>
     tunnel_step opener socket s (s\<lparr>tq_tasks := (tq_tasks s)[i := (p, HandshakeDone None)]\<rparr>)"

inductive_cases tunnel_stepE: "tunnel_step opener socket s t"

text \<open>The listener starts with the connections its accept loop lets through.\<close>

definition tunnel_start :: "'p list \<Rightarrow> 'p tunnel_queue" where
  "tunnel_start ps = \<lparr>tq_pending = ps, tq_tasks = [], tq_opens = 0\<rparr>"

abbreviation tunnel_run ::
  "(nat \<Rightarrow> io_error + conn) \<Rightarrow> string \<Rightarrow> 'p tunnel_queue \<Rightarrow> 'p tunnel_queue \<Rightarrow> bool" where
  "tunnel_run opener socket \<equiv> (tunnel_step opener socket)\<^sup>*\<^sup>*"

section \<open>The order invariant\<close>

text \<open>The phase a task may be in, by its place: the first \<open>n\<close> have opened an upstream, all of these
  but the last are done.\<close>

definition phase_ok :: "(nat \<Rightarrow> io_error + conn) \<Rightarrow> string \<Rightarrow> nat \<Rightarrow> nat \<Rightarrow> task_phase \<Rightarrow> bool" where
  "phase_ok opener socket n i ph \<longleftrightarrow>
     (case ph of
        AwaitPrevious \<Rightarrow> n \<le> i
      | Handshaking r \<Rightarrow> n = Suc i \<and> r = opener i
      | HandshakeDone u \<Rightarrow> i < n \<and> (u = None \<or> u = connected socket (opener i)))"

definition queue_ok :: "(nat \<Rightarrow> io_error + conn) \<Rightarrow> string \<Rightarrow> 'p list \<Rightarrow> 'p tunnel_queue \<Rightarrow> bool" where
  "queue_ok opener socket ps s \<longleftrightarrow>
     map fst (tq_tasks s) @ tq_pending s = ps \<and> tq_opens s \<le> length (tq_tasks s)
   \<and> (\<forall>i < length (tq_tasks s). phase_ok opener socket (tq_opens s) i (snd (tq_tasks s ! i)))"

lemma phase_ok_simps [simp]:
  "phase_ok opener socket n i AwaitPrevious \<longleftrightarrow> n \<le> i"
  "phase_ok opener socket n i (Handshaking r) \<longleftrightarrow> n = Suc i \<and> r = opener i"
  "phase_ok opener socket n i (HandshakeDone u) \<longleftrightarrow> i < n \<and> (u = None \<or> u = connected socket (opener i))"
  by (simp_all add: phase_ok_def)

lemma queue_okD:
  assumes "queue_ok opener socket ps s" "i < length (tq_tasks s)" "tq_tasks s ! i = (p, ph)"
  shows "phase_ok opener socket (tq_opens s) i ph"
  using assms by (auto simp: queue_ok_def)

text \<open>The task that may open next is the one at place \<open>tq_opens\<close>.\<close>

lemma next_to_open:
  assumes ok: "queue_ok opener socket ps s" and i: "i < length (tq_tasks s)" "tq_tasks s ! i = (p, AwaitPrevious)"
    and prev: "previous_done (tq_tasks s) i"
  shows "i = tq_opens s"
proof (cases i)
  case 0
  with queue_okD [OF ok i] show ?thesis by simp
next
  case (Suc j)
  with prev obtain q u where "tq_tasks s ! j = (q, HandshakeDone u)"
    by (cases "tq_tasks s ! j") (auto simp: previous_done_def split: task_phase.splits)
  with Suc i queue_okD [OF ok _ this] queue_okD [OF ok i] show ?thesis by simp
qed

lemma map_fst_update: "i < length ts \<Longrightarrow> ts ! i = (p, ph) \<Longrightarrow> map fst (ts[i := (p, ph')]) = map fst ts"
  by (metis fst_conv list_update_id map_update nth_map)

text \<open>No task other than \<open>i\<close> is affected when the number of opened upstreams grows from \<open>i\<close> to
  \<open>Suc i\<close>: nobody is in the middle of a handshake then.\<close>

lemma others_keep_phase:
  assumes "phase_ok opener socket i k ph" "k \<noteq> i" "k < i \<Longrightarrow> \<exists>u. ph = HandshakeDone u"
  shows "phase_ok opener socket (Suc i) k ph"
  using assms by (cases ph) auto

lemma earlier_done:
  assumes ok: "queue_ok opener socket ps s" and prev: "previous_done (tq_tasks s) (tq_opens s)"
    and k: "k < tq_opens s"
  shows "\<exists>u. snd (tq_tasks s ! k) = HandshakeDone u"
proof -
  obtain q ph where t: "tq_tasks s ! k = (q, ph)" by fastforce
  from ok k have "k < length (tq_tasks s)" by (simp add: queue_ok_def)
  from queue_okD [OF ok this t] k prev t show ?thesis
    by (cases ph) (auto simp: previous_done_def split: nat.splits task_phase.splits)
qed

lemma step_queue_ok:
  assumes "tunnel_step opener socket s t" "queue_ok opener socket ps s"
  shows "queue_ok opener socket ps t"
  using assms
proof cases
  case (spawn_task p qs)
  with assms(2) show ?thesis by (auto simp: queue_ok_def nth_append)
next
  case (open_upstream i p)
  then have i: "i = tq_opens s" using next_to_open [OF assms(2)] by blast
  have "phase_ok opener socket (Suc i) k (snd ((tq_tasks s)[i := (p, Handshaking (opener i))] ! k))"
    if "k < length (tq_tasks s)" for k
  proof (cases "k = i")
    case False
    with that assms(2) i earlier_done [OF assms(2)] open_upstream(4) show ?thesis
      by (auto simp: queue_ok_def intro!: others_keep_phase)
  qed (use open_upstream in simp)
  with assms(2) open_upstream i show ?thesis by (auto simp: queue_ok_def map_fst_update)
next
  case (handshake_ends i p r)
  with assms(2) queue_okD [OF assms(2) handshake_ends(2,3)] show ?thesis
    by (auto simp: queue_ok_def map_fst_update nth_list_update)
next
  case (handshake_times_out i p r)
  with assms(2) queue_okD [OF assms(2) handshake_times_out(2,3)] show ?thesis
    by (auto simp: queue_ok_def map_fst_update nth_list_update)
qed

lemma run_queue_ok:
  assumes "tunnel_run opener socket (tunnel_start ps) s"
  shows "queue_ok opener socket ps s"
  using assms
proof (induction rule: rtranclp_induct)
  case base
  show ?case by (simp add: queue_ok_def tunnel_start_def)
qed (rule step_queue_ok)

section \<open>Progress\<close>

text \<open>What is left to do; every step makes it smaller.\<close>

primrec phase_left :: "task_phase \<Rightarrow> nat" where
  "phase_left AwaitPrevious = 2"
| "phase_left (Handshaking r) = 1"
| "phase_left (HandshakeDone u) = 0"

definition work_left :: "'p tunnel_queue \<Rightarrow> nat" where
  "work_left s = 3 * length (tq_pending s) + sum_list (map (phase_left \<circ> snd) (tq_tasks s))"

lemma sum_list_update_less:
  "i < length ts \<Longrightarrow> f x < (f (ts ! i) :: nat) \<Longrightarrow> sum_list (map f (ts[i := x])) < sum_list (map f ts)"
proof (induction ts arbitrary: i)
  case (Cons t ts)
  then show ?case by (cases i) auto
qed simp

lemma step_decreases: "tunnel_step opener socket s t \<Longrightarrow> work_left t < work_left s"
  by (erule tunnel_stepE) (auto simp: work_left_def intro!: sum_list_update_less)

text \<open>A listener that is not finished can always go on.\<close>

lemma step_possible:
  assumes ok: "queue_ok opener socket ps s" and left: "work_left s \<noteq> 0"
  shows "\<exists>t. tunnel_step opener socket s t"
proof (cases "tq_pending s")
  case (Cons p qs)
  from tunnel_step.spawn_task [OF this] show ?thesis by blast
next
  case Nil
  define P where "P i \<longleftrightarrow> i < length (tq_tasks s) \<and> phase_left (snd (tq_tasks s ! i)) \<noteq> 0" for i
  from left Nil obtain x where "x \<in> set (tq_tasks s)" "phase_left (snd x) \<noteq> 0" by (auto simp: work_left_def)
  then have "\<exists>i. P i" unfolding P_def by (metis in_set_conv_nth)
  then obtain i where "P i" and least: "\<And>j. j < i \<Longrightarrow> \<not> P j" by (metis exists_least_iff)
  then have i: "i < length (tq_tasks s)" and nz: "phase_left (snd (tq_tasks s ! i)) \<noteq> 0" by (auto simp: P_def)
  obtain p ph where t: "tq_tasks s ! i = (p, ph)" by fastforce
  show ?thesis
  proof (cases ph)
    case AwaitPrevious
    have "previous_done (tq_tasks s) i"
    proof (cases i)
      case (Suc j)
      with least [of j] i have "phase_left (snd (tq_tasks s ! j)) = 0" by (simp add: P_def)
      with Suc show ?thesis by (cases "snd (tq_tasks s ! j)") (auto simp: previous_done_def)
    qed (simp add: previous_done_def)
    with i t AwaitPrevious tunnel_step.open_upstream show ?thesis by metis
  next
    case (Handshaking r)
    with i t tunnel_step.handshake_ends show ?thesis by metis
  qed (use nz t in simp)
qed

lemma run_to_end: "queue_ok opener socket ps s \<Longrightarrow>
  \<exists>t. tunnel_run opener socket s t \<and> work_left t = 0 \<and> queue_ok opener socket ps t"
proof (induction s rule: measure_induct_rule [of work_left])
  case (less s)
  show ?case
  proof (cases "work_left s = 0")
    case False
    with step_possible [OF less.prems] obtain t where t: "tunnel_step opener socket s t" by blast
    with less.IH [OF step_decreases step_queue_ok [OF _ less.prems]] show ?thesis
      by (meson converse_rtranclp_into_rtranclp)
  qed (use less.prems in blast)
qed

lemma work_left_0: "work_left s = 0 \<longleftrightarrow> tq_pending s = [] \<and> (\<forall>(p, ph) \<in> set (tq_tasks s). \<exists>u. ph = HandshakeDone u)"
proof -
  have "phase_left ph = 0 \<longleftrightarrow> (\<exists>u. ph = HandshakeDone u)" for ph by (cases ph) simp_all
  then show ?thesis by (auto simp: work_left_def)
qed

lemma handshaking_last:
  "queue_ok opener socket ps s \<Longrightarrow> i < length (tq_tasks s) \<Longrightarrow> snd (tq_tasks s ! i) = Handshaking r \<Longrightarrow> Suc i = tq_opens s"
  using queue_okD [of opener socket ps s i "fst (tq_tasks s ! i)" "Handshaking r"] by (metis phase_ok_simps(2) prod.collapse)

lemma connected_at:
  "queue_ok opener socket ps s \<Longrightarrow> i < length (tq_tasks s) \<Longrightarrow> snd (tq_tasks s ! i) = HandshakeDone (Some u)
     \<Longrightarrow> connected socket (opener i) = Some u"
  using queue_okD [of opener socket ps s i "fst (tq_tasks s ! i)" "HandshakeDone (Some u)"]
  by (metis option.distinct(1) phase_ok_simps(3) prod.collapse)

text \<open>What a connected upstream has been through: it answered both steps with OKAY, was sent the
  socket name and nothing else, and everything after the two answers is for the client.\<close>

lemma read_status_Inr: "read_status u = (Inr st, u') \<Longrightarrow> rx u = st @ rx u' \<and> tx u' = tx u"
  by (auto simp: read_status_def read_exact_Inr_iff)

lemma write_service_Inr: "write_service b u = (Inr x, u') \<Longrightarrow> rx u' = rx u \<and> tx u' = tx u @ packet b"
  by (auto simp: write_service_def write_packet_def packet_def encode_hex4_def then_a_result flush_def dest!: write_all_Inr)

lemma tunnel_handshake_Inr:
  assumes "tunnel_handshake socket u = (Inr x, u')"
  shows "rx u = ''OKAYOKAY'' @ rx u' \<and> tx u' = tx u @ packet socket"
proof -
  from assms obtain u1 u2 where "read_status u = (Inr ''OKAY'', u1)" "write_service socket u1 = (Inr (), u2)"
      "read_status u2 = (Inr ''OKAY'', u')"
    by (auto simp: tunnel_handshake_def bind_a_cong_result then_a_result split: if_splits)
  from this(1,3) [THEN read_status_Inr] this(2) [THEN write_service_Inr] show ?thesis by simp
qed

lemma connected_Some:
  assumes "connected socket r = Some u"
  shows "\<exists>u0. r = Inr u0 \<and> rx u0 = ''OKAYOKAY'' @ rx u \<and> tx u = tx u0 @ packet socket"
proof -
  from assms obtain u0 where r: "r = Inr u0" by (cases r) (simp_all add: connected_def)
  obtain x u' where h: "tunnel_handshake socket u0 = (x, u')" by fastforce
  from assms r h have "u' = u" and "\<exists>y. x = Inr y" by (cases x; simp add: connected_def)+
  with h have "\<exists>y. tunnel_handshake socket u0 = (Inr y, u)" by blast
  with r tunnel_handshake_Inr show ?thesis by blast
qed

section \<open>Properties\<close>

text \<open>C13: Tunnel connections keep their order. In every interleaving of the tasks of a scrcpy listener, the connections that are
  let through are taken in the order of the accept loop, at most one handshake is under way, and the
  \<open>i\<close>-th of them is only ever joined to the \<open>i\<close>-th upstream that was opened, which has answered both
  steps of the handshake and was sent the socket name; a failed or timed out handshake does not move the others up.
  No run goes on for ever, and from wherever a run is it can be completed: nobody waits for ever.\<close>

theorem tunnel_in_order:
  assumes run: "tunnel_run opener socket (tunnel_start (accept_loop uid_of owner False es)) s"
  shows "map fst (tq_tasks s) @ tq_pending s = accept_loop uid_of owner False es
    \<and> (\<forall>i j r r'. i < length (tq_tasks s) \<longrightarrow> snd (tq_tasks s ! i) = Handshaking r \<longrightarrow>
         j < length (tq_tasks s) \<longrightarrow> snd (tq_tasks s ! j) = Handshaking r' \<longrightarrow> i = j)
    \<and> (\<forall>i u. i < length (tq_tasks s) \<longrightarrow> snd (tq_tasks s ! i) = HandshakeDone (Some u) \<longrightarrow>
         (\<exists>u0. opener i = Inr u0 \<and> rx u0 = ''OKAYOKAY'' @ rx u \<and> tx u = tx u0 @ packet socket))
    \<and> (\<forall>t. tunnel_step opener socket s t \<longrightarrow> work_left t < work_left s)
    \<and> (\<exists>t. tunnel_run opener socket s t \<and> tq_pending t = []
         \<and> (\<forall>(p, ph) \<in> set (tq_tasks t). \<exists>u. ph = HandshakeDone u))"
proof -
  from run_queue_ok [OF run] have ok: "queue_ok opener socket (accept_loop uid_of owner False es) s" .
  have up: "\<exists>u0. opener i = Inr u0 \<and> rx u0 = ''OKAYOKAY'' @ rx u \<and> tx u = tx u0 @ packet socket"
    if "i < length (tq_tasks s)" "snd (tq_tasks s ! i) = HandshakeDone (Some u)" for i u
    by (rule connected_Some [OF connected_at [OF ok that]])
  show ?thesis
  proof (intro conjI allI impI)
    show "map fst (tq_tasks s) @ tq_pending s = accept_loop uid_of owner False es"
      using ok by (simp add: queue_ok_def)
    show "\<exists>t. tunnel_run opener socket s t \<and> tq_pending t = [] \<and> (\<forall>(p, ph) \<in> set (tq_tasks t). \<exists>u. ph = HandshakeDone u)"
      using run_to_end [OF ok] by (simp only: work_left_0) blast
    fix i j r r'
    assume "i < length (tq_tasks s)" "snd (tq_tasks s ! i) = Handshaking r"
      "j < length (tq_tasks s)" "snd (tq_tasks s ! j) = Handshaking r'"
    then have "Suc i = tq_opens s" "Suc j = tq_opens s" by (blast intro: handshaking_last [OF ok])+
    then show "i = j" by simp
  qed (use up step_decreases in blast)+
qed


text \<open>An upstream that answers at once and then sends its number, as the server of the unit test in
  src/tunnel.rs does; a listener with two connections, the first one connected.\<close>

definition numbered_upstream :: "nat \<Rightarrow> io_error + conn" where
  "numbered_upstream n = Inr (open_conn (''OKAYOKAY'' @ [char_of (Suc n)]))"

lemma connected_numbered:
  "connected socket (numbered_upstream n) = Some u \<Longrightarrow> rx u = [char_of (Suc n)]"
  using connected_Some [of socket "numbered_upstream n" u] by (auto simp: numbered_upstream_def open_conn_def)

text \<open>The unit test, for every schedule: whichever handshake is slow, the first connection reads 1 and the
  second 2.\<close>

lemma scrcpy_sockets_in_order:
  assumes "tunnel_run numbered_upstream socket (tunnel_start ps) s" "i < length (tq_tasks s)"
    "snd (tq_tasks s ! i) = HandshakeDone (Some u)"
  shows "rx u = [char_of (Suc i)]"
  using connected_at [OF run_queue_ok [OF assms(1)] assms(2,3)] by (rule connected_numbered)

lemma connected_demo:
  "connected ''s'' (numbered_upstream 0) = Some ((open_conn [char_of (Suc 0)])\<lparr>tx := packet ''s''\<rparr>)"
  by (simp add: connected_def numbered_upstream_def tunnel_handshake_def open_conn_def act_simps read_status_def
      read_exact_def write_service_def write_packet_def write_all_def flush_def packet_def encode_hex4_def)

lemma demo_tunnel_run:
  "tunnel_run numbered_upstream ''s'' (tunnel_start [7, 7 :: nat])
     \<lparr>tq_pending = [], tq_tasks = [(7, HandshakeDone (connected ''s'' (numbered_upstream 0))), (7, AwaitPrevious)], tq_opens = 1\<rparr>"
proof -
  let ?S = "tunnel_step numbered_upstream ''s''"
  let ?s = "\<lambda>q ts n. \<lparr>tq_pending = q, tq_tasks = ts, tq_opens = n\<rparr> :: nat tunnel_queue"
  have 1: "?S (tunnel_start [7, 7]) (?s [7] [(7, AwaitPrevious)] 0)"
    using tunnel_step.spawn_task [of "tunnel_start [7, 7 :: nat]"] by (simp add: tunnel_start_def)
  have 2: "?S (?s [7] [(7, AwaitPrevious)] 0) (?s [] [(7, AwaitPrevious), (7, AwaitPrevious)] 0)"
    using tunnel_step.spawn_task [of "?s [7] [(7, AwaitPrevious)] 0"] by simp
  have 3: "?S (?s [] [(7, AwaitPrevious), (7, AwaitPrevious)] 0)
      (?s [] [(7, Handshaking (numbered_upstream 0)), (7, AwaitPrevious)] 1)"
    using tunnel_step.open_upstream [of 0 "?s [] [(7, AwaitPrevious), (7, AwaitPrevious)] 0"]
    by (simp add: previous_done_def)
  have 4: "?S (?s [] [(7, Handshaking (numbered_upstream 0)), (7, AwaitPrevious)] 1)
      (?s [] [(7, HandshakeDone (connected ''s'' (numbered_upstream 0))), (7, AwaitPrevious)] 1)"
    using tunnel_step.handshake_ends [of 0 "?s [] [(7, Handshaking (numbered_upstream 0)), (7, AwaitPrevious)] 1"]
    by simp
  from 1 2 3 4 show ?thesis by (meson converse_rtranclp_into_rtranclp rtranclp.rtrancl_refl)
qed

theorem tunnel_in_order_witness:
  "\<exists>u0 u. numbered_upstream 0 = Inr u0 \<and> connected ''s'' (numbered_upstream 0) = Some u
     \<and> rx u0 = ''OKAYOKAY'' @ rx u \<and> tx u = tx u0 @ packet ''s''"
proof -
  have "tunnel_run numbered_upstream ''s''
      (tunnel_start (accept_loop (\<lambda>p. Some 7) (Some 7) False [Connection (7 :: nat), Connection 7]))
      \<lparr>tq_pending = [], tq_tasks = [(7, HandshakeDone (connected ''s'' (numbered_upstream 0))), (7, AwaitPrevious)], tq_opens = 1\<rparr>"
    using demo_tunnel_run by (simp add: peer_allowed_def)
  note up = tunnel_in_order [OF this, THEN conjunct2, THEN conjunct2, THEN conjunct1, rule_format, of 0,
      unfolded connected_demo]
  then show ?thesis unfolding connected_demo by simp
qed

end
