(* ===== verification/Publishing.thy ===== *)
theory Publishing
  imports Backend
begin

text \<open>
  The publications of concurrent watchers, src/backend.rs, step by step. A watcher stores its list under
  the lock of the shared table, \<^verbatim>\<open>publish_shared\<close> takes the lock again and copies the lists of all backends,
  and writes the registry after it has released the lock (\<^verbatim>\<open>drop(guard)\<close>). The watchers run on several
  threads, so the steps of different watchers interleave; the operation \<open>store_publish\<close> of Backend is
  the run of one watcher that nobody interrupts.

  What the registry shows is always a list each backend did report; but a copy can be written after a newer
  one, and then it stays.
\<close>

section \<open>Definitions\<close>

text \<open>What the watcher of a backend does next: wait for a list, copy the table, write its copy.\<close>

datatype pub_phase = Watching | Stored | Collected "(BackendConfig \<times> string) list"

record pubs =
  pb_table :: "string \<rightharpoonup> BackendConfig \<times> string"
  pb_registry :: DeviceRegistry
  pb_phase :: "string \<Rightarrow> pub_phase"

text \<open>The part of \<^verbatim>\<open>publish_shared\<close> under the lock.\<close>

definition collect_lists ::
  "BackendConfig list \<Rightarrow> (string \<rightharpoonup> BackendConfig \<times> string) \<Rightarrow> (BackendConfig \<times> string) list option" where
  "collect_lists order table =
     (if \<not> (\<forall>b \<in> set order. table (bc_name b) \<noteq> None) then None
      else Some (map (\<lambda>b. the (table (bc_name b))) order))"

text \<open>\<open>reported b body\<close>: backend \<open>b\<close> may report \<open>body\<close>.\<close>

inductive pub_step :: "BackendConfig list \<Rightarrow> (BackendConfig \<Rightarrow> string \<Rightarrow> bool) \<Rightarrow> pubs \<Rightarrow> pubs \<Rightarrow> bool"
  for order :: "BackendConfig list" and reported :: "BackendConfig \<Rightarrow> string \<Rightarrow> bool" where
  insert_list: "b \<in> set order \<Longrightarrow> pb_phase s (bc_name b) = Watching \<Longrightarrow> reported b body \<Longrightarrow>
     pub_step order reported s
       (s\<lparr>pb_table := (pb_table s)(bc_name b \<mapsto> (b, body)), pb_phase := (pb_phase s)(bc_name b := Stored)\<rparr>)"
| copy_lists: "pb_phase s n = Stored \<Longrightarrow> collect_lists order (pb_table s) = Some ls \<Longrightarrow>
     pub_step order reported s (s\<lparr>pb_phase := (pb_phase s)(n := Collected ls)\<rparr>)"
| not_seeded: "pb_phase s n = Stored \<Longrightarrow> collect_lists order (pb_table s) = None \<Longrightarrow>
     pub_step order reported s (s\<lparr>pb_phase := (pb_phase s)(n := Watching)\<rparr>)"
| write_registry: "pb_phase s n = Collected ls \<Longrightarrow>
     pub_step order reported s
       (s\<lparr>pb_registry := update_from_backend_lists ls (pb_registry s), pb_phase := (pb_phase s)(n := Watching)\<rparr>)"

inductive_cases pub_stepE: "pub_step order reported s t"

abbreviation pub_run ::
  "BackendConfig list \<Rightarrow> (BackendConfig \<Rightarrow> string \<Rightarrow> bool) \<Rightarrow> pubs \<Rightarrow> pubs \<Rightarrow> bool" where
  "pub_run order reported \<equiv> (pub_step order reported)\<^sup>*\<^sup>*"

text \<open>No publication under way, and the registry shows the table.\<close>

definition all_watching :: "pubs \<Rightarrow> bool" where
  "all_watching s \<longleftrightarrow> (\<forall>n. pb_phase s n = Watching)"

definition up_to_date :: "BackendConfig list \<Rightarrow> pubs \<Rightarrow> bool" where
  "up_to_date order s \<longleftrightarrow>
     dr_inner (pb_registry s) = merge_device_lists (map (\<lambda>b. the (pb_table s (bc_name b))) order)"

section \<open>One watcher alone\<close>

text \<open>The view of a poller session as this state.\<close>

definition pubs_of :: "bsess \<Rightarrow> pubs" where
  "pubs_of s = \<lparr>pb_table = b_shared s, pb_registry = b_registry s, pb_phase = \<lambda>_. Watching\<rparr>"

lemma pubs_of_store_publish:
  "pubs_of (snd (store_publish order b body s)) =
     (let table = (b_shared s)(bc_name b \<mapsto> (b, body)) in
      \<lparr>pb_table = table,
       pb_registry = (case collect_lists order table of
          None \<Rightarrow> b_registry s | Some ls \<Rightarrow> update_from_backend_lists ls (b_registry s)),
       pb_phase = \<lambda>_. Watching\<rparr>)"
  unfolding store_publish_eq Let_def pubs_of_def collect_lists_def by (auto simp del: fun_upd_apply)

text \<open>\<open>store_publish\<close> is a run of the steps.\<close>

lemma store_publish_run:
  assumes "b \<in> set order" "reported b body"
  shows "pub_run order reported (pubs_of s) (pubs_of (snd (store_publish order b body s)))"
proof -
  let ?tab = "(b_shared s)(bc_name b \<mapsto> (b, body))"
  let ?p = "\<lambda>ph. \<lparr>pb_table = ?tab, pb_registry = b_registry s, pb_phase = (\<lambda>_. Watching)(bc_name b := ph)\<rparr>"
  have 1: "pub_step order reported (pubs_of s) (?p Stored)"
    using pub_step.insert_list [of b order "pubs_of s" reported body] assms by (simp add: pubs_of_def)
  show ?thesis
  proof (cases "collect_lists order ?tab")
    case None
    then have "pub_step order reported (?p Stored) (pubs_of (snd (store_publish order b body s)))"
      using pub_step.not_seeded [of "?p Stored" "bc_name b" order reported]
      by (simp add: pubs_of_store_publish fun_upd_idem)
    with 1 show ?thesis by (meson converse_rtranclp_into_rtranclp rtranclp.rtrancl_refl)
  next
    case (Some ls)
    then have 2: "pub_step order reported (?p Stored) (?p (Collected ls))"
      using pub_step.copy_lists [of "?p Stored" "bc_name b" order ls reported] by simp
    have "pub_step order reported (?p (Collected ls)) (pubs_of (snd (store_publish order b body s)))"
      using pub_step.write_registry [of "?p (Collected ls)" "bc_name b" ls order reported] Some
      by (simp add: pubs_of_store_publish fun_upd_idem)
    with 1 2 show ?thesis by (meson converse_rtranclp_into_rtranclp rtranclp.rtrancl_refl)
  qed
qed

section \<open>What is always true\<close>

text \<open>Lists that give every backend something it reported.\<close>

definition honest :: "BackendConfig list \<Rightarrow> (BackendConfig \<Rightarrow> string \<Rightarrow> bool) \<Rightarrow> (BackendConfig \<times> string) list \<Rightarrow> bool" where
  "honest order reported ls \<longleftrightarrow> (\<exists>f. (\<forall>b \<in> set order. reported b (f b)) \<and> ls = map (\<lambda>b. (b, f b)) order)"

definition honest_table :: "BackendConfig list \<Rightarrow> (BackendConfig \<Rightarrow> string \<Rightarrow> bool) \<Rightarrow> (string \<rightharpoonup> BackendConfig \<times> string) \<Rightarrow> bool" where
  "honest_table order reported table \<longleftrightarrow>
     (\<forall>b \<in> set order. \<exists>body. table (bc_name b) = Some (b, body) \<and> reported b body)"

definition pubs_ok :: "BackendConfig list \<Rightarrow> (BackendConfig \<Rightarrow> string \<Rightarrow> bool) \<Rightarrow> pubs \<Rightarrow> bool" where
  "pubs_ok order reported s \<longleftrightarrow> honest_table order reported (pb_table s)
     \<and> (\<forall>n ls. pb_phase s n = Collected ls \<longrightarrow> honest order reported ls)
     \<and> (\<exists>ls. honest order reported ls \<and> dr_inner (pb_registry s) = merge_device_lists ls)"

lemma honest_collected:
  assumes "honest_table order reported table"
  shows "\<exists>ls. collect_lists order table = Some ls \<and> honest order reported ls"
proof -
  from assms obtain f where f: "\<And>b. b \<in> set order \<Longrightarrow> table (bc_name b) = Some (b, f b) \<and> reported b (f b)"
    unfolding honest_table_def by metis
  then have "collect_lists order table = Some (map (\<lambda>b. (b, f b)) order)"
    by (simp add: collect_lists_def cong: map_cong)
  with f show ?thesis by (auto simp: honest_def)
qed

lemma honest_insert:
  assumes "honest_table order reported table" "distinct (map bc_name order)" "b \<in> set order" "reported b body"
  shows "honest_table order reported (table(bc_name b \<mapsto> (b, body)))"
  using assms by (auto simp: honest_table_def distinct_map inj_on_def)

lemma step_pubs_ok:
  assumes "pub_step order reported s t" "pubs_ok order reported s" "distinct (map bc_name order)"
  shows "pubs_ok order reported t"
  using assms
proof cases
  case (insert_list b body)
  from assms(2) honest_insert [of order reported "pb_table s" b body] assms(3) insert_list(2,4)
  have "honest_table order reported (pb_table t)" by (simp add: pubs_ok_def insert_list(1) del: fun_upd_apply)
  with assms(2) show ?thesis by (auto simp: pubs_ok_def insert_list(1))
next
  case (copy_lists n ls)
  with assms(2) honest_collected [of order reported "pb_table s"] show ?thesis by (auto simp: pubs_ok_def)
next
  case (not_seeded n)
  with assms(2) honest_collected [of order reported "pb_table s"] show ?thesis by (auto simp: pubs_ok_def)
next
  case (write_registry n ls)
  with assms(2) show ?thesis by (auto simp: pubs_ok_def update_from_backend_lists_def Let_def)
qed

lemma run_pubs_ok:
  assumes "pub_run order reported s t" "pubs_ok order reported s" "distinct (map bc_name order)"
  shows "pubs_ok order reported t"
  using assms by (induction rule: rtranclp_induct) (auto intro: step_pubs_ok)

section \<open>A lost update\<close>

lemma fun_upd_watching: "all_watching s \<Longrightarrow> (pb_phase s)(n := Watching) = pb_phase s"
  by (auto simp: all_watching_def)

text \<open>Two watchers whose publications overlap: the first one copies the table, the second one stores,
  copies and writes, and then the first one writes its copy.\<close>

lemma overlapping_publications:
  assumes quiet: "all_watching s" and names: "bc_name a \<noteq> bc_name b" and order: "a \<in> set order" "b \<in> set order"
    and reported: "reported a x" "reported b y"
    and seeded: "honest_table order reported (pb_table s)" and distinct: "distinct (map bc_name order)"
  defines "tab1 \<equiv> (pb_table s)(bc_name a \<mapsto> (a, x))"
  shows "\<exists>t. pub_run order reported s t \<and> all_watching t \<and> pb_table t = tab1(bc_name b \<mapsto> (b, y))
    \<and> dr_inner (pb_registry t) = merge_device_lists (map (\<lambda>c. the (tab1 (bc_name c))) order)"
proof -
  let ?S = "pub_step order reported" and ?tab2 = "tab1(bc_name b \<mapsto> (b, y))"
  let ?l1 = "map (\<lambda>c. the (tab1 (bc_name c))) order" and ?l2 = "map (\<lambda>c. the (?tab2 (bc_name c))) order"
  let ?q = "\<lambda>tab reg pa pb. \<lparr>pb_table = tab, pb_registry = reg,
      pb_phase = ((\<lambda>_. Watching)(bc_name a := pa))(bc_name b := pb)\<rparr> :: pubs"
  have w: "pb_phase s = (\<lambda>_. Watching)" using quiet by (auto simp: all_watching_def)
  have h1: "honest_table order reported tab1" and h2: "honest_table order reported ?tab2"
    unfolding tab1_def using honest_insert [OF _ distinct] seeded order reported by blast+
  have c: "collect_lists order tab = Some (map (\<lambda>c. the (tab (bc_name c))) order)" if "honest_table order reported tab" for tab
    using honest_collected [OF that] by (auto simp: collect_lists_def split: if_splits)
  let ?r2 = "update_from_backend_lists ?l2 (pb_registry s)"
  have 1: "?S s (?q tab1 (pb_registry s) Stored Watching)"
    using pub_step.insert_list [OF order(1), of s reported x] reported names w
    by (cases s) (simp add: tab1_def fun_upd_twist fun_upd_idem)
  have 2: "?S (?q tab1 (pb_registry s) Stored Watching) (?q tab1 (pb_registry s) (Collected ?l1) Watching)"
    using pub_step.copy_lists [of "?q tab1 (pb_registry s) Stored Watching" "bc_name a" order ?l1 reported] names c [OF h1]
    by (simp add: fun_upd_twist)
  have 3: "?S (?q tab1 (pb_registry s) (Collected ?l1) Watching) (?q ?tab2 (pb_registry s) (Collected ?l1) Stored)"
    using pub_step.insert_list [OF order(2), of "?q tab1 (pb_registry s) (Collected ?l1) Watching" reported y] reported
    by simp
  have 4: "?S (?q ?tab2 (pb_registry s) (Collected ?l1) Stored) (?q ?tab2 (pb_registry s) (Collected ?l1) (Collected ?l2))"
    using pub_step.copy_lists [of "?q ?tab2 (pb_registry s) (Collected ?l1) Stored" "bc_name b" order ?l2 reported] c [OF h2]
    by simp
  have 5: "?S (?q ?tab2 (pb_registry s) (Collected ?l1) (Collected ?l2)) (?q ?tab2 ?r2 (Collected ?l1) Watching)"
    using pub_step.write_registry [of "?q ?tab2 (pb_registry s) (Collected ?l1) (Collected ?l2)" "bc_name b" ?l2 order reported]
    by simp
  have 6: "?S (?q ?tab2 ?r2 (Collected ?l1) Watching) (?q ?tab2 (update_from_backend_lists ?l1 ?r2) Watching Watching)"
    using pub_step.write_registry [of "?q ?tab2 ?r2 (Collected ?l1) Watching" "bc_name a" ?l1 order reported] names
    by (simp add: fun_upd_twist)
  from 1 2 3 4 5 6 have "pub_run order reported s (?q ?tab2 (update_from_backend_lists ?l1 ?r2) Watching Watching)"
    by (meson converse_rtranclp_into_rtranclp rtranclp.rtrancl_refl)
  then show ?thesis
    by (intro exI [of _ "?q ?tab2 (update_from_backend_lists ?l1 ?r2) Watching Watching"])
      (simp add: all_watching_def update_from_backend_lists_def Let_def)
qed

text \<open>Between publications nothing is written.\<close>

lemma quiet_step: "all_watching s \<Longrightarrow> pub_step order reported s t \<Longrightarrow> pb_registry t = pb_registry s"
  by (erule pub_stepE) (auto simp: all_watching_def)

section \<open>Properties\<close>

lemma published_ok:
  assumes "published order s" "\<forall>b \<in> set order. \<forall>body. b_shared s (bc_name b) = Some (b, body) \<longrightarrow> reported b body"
  shows "pubs_ok order reported (pubs_of s)" "honest_table order reported (pb_table (pubs_of s))"
proof -
  show h: "honest_table order reported (pb_table (pubs_of s))"
    using assms by (fastforce simp: published_def table_ok_def honest_table_def pubs_of_def)
  from honest_collected [OF this] have "\<exists>ls. honest order reported ls \<and> ls = map (\<lambda>b. the (b_shared s (bc_name b))) order"
    by (auto simp: collect_lists_def pubs_of_def split: if_splits)
  with h assms(1) show "pubs_ok order reported (pubs_of s)" by (auto simp: pubs_ok_def published_def pubs_of_def)
qed

text \<open>C40: The registry shows reported lists only. Once the shared table is seeded and published, in every
  interleaving of the steps of the watchers the registry is the merge, in configuration order, of one list per
  backend, each of which that backend has reported: an update of one backend never drops the devices of
  another, and nothing is shown that no backend reported.\<close>

theorem registry_reported:
  assumes "published order s" "\<forall>b \<in> set order. \<forall>body. b_shared s (bc_name b) = Some (b, body) \<longrightarrow> reported b body"
    and "distinct (map bc_name order)" "pub_run order reported (pubs_of s) t"
  shows "\<exists>f. (\<forall>b \<in> set order. reported b (f b))
    \<and> dr_inner (pb_registry t) = merge_device_lists (map (\<lambda>b. (b, f b)) order)"
proof -
  from run_pubs_ok [OF assms(4) published_ok(1) [OF assms(1,2)] assms(3)]
  obtain ls where "honest order reported ls" "dr_inner (pb_registry t) = merge_device_lists ls" by (auto simp: pubs_ok_def)
  then show ?thesis by (auto simp: honest_def)
qed

abbreviation demo_order :: "BackendConfig list" where
  "demo_order \<equiv> [demo_backend ''a'', demo_backend ''b'']"

lemma demo_distinct: "distinct (map bc_name demo_order)"
  by (simp add: demo_backend_def)

theorem registry_reported_witness:
  "\<exists>f. (\<forall>b \<in> set demo_order. f b \<in> {[], ''S device''})
    \<and> dr_inner (pb_registry (pubs_of (snd (store_publish demo_order (demo_backend ''b'') ''S device'' demo_bsess))))
      = merge_device_lists (map (\<lambda>b. (b, f b)) demo_order)"
proof (rule registry_reported [OF demo_published _ demo_distinct])
  show "\<forall>b \<in> set demo_order. \<forall>body. b_shared demo_bsess (bc_name b) = Some (b, body) \<longrightarrow> body \<in> {[], ''S device''}"
    by (auto simp: demo_bsess_def demo_backend_def)
  show "pub_run demo_order (\<lambda>_ body. body \<in> {[], ''S device''}) (pubs_of demo_bsess)
      (pubs_of (snd (store_publish demo_order (demo_backend ''b'') ''S device'' demo_bsess)))"
    by (rule store_publish_run) simp_all
qed

text \<open>C28: A lost update. For any two backends and any lists they report, there is an interleaving of their two
  publications after which both watchers are back waiting, the table holds both new lists, and the registry still
  shows the previous list of the second backend; no step changes that before some backend reports again and its
  watcher has copied the table anew.\<close>

theorem publication_lost:
  assumes "published order s" "\<forall>c \<in> set order. \<forall>body. b_shared s (bc_name c) = Some (c, body) \<longrightarrow> reported c body"
    and "distinct (map bc_name order)" "a \<in> set order" "b \<in> set order" "a \<noteq> b" "reported a x" "reported b y"
  shows "\<exists>t. pub_run order reported (pubs_of s) t \<and> all_watching t
    \<and> pb_table t = (b_shared s)(bc_name a \<mapsto> (a, x), bc_name b \<mapsto> (b, y))
    \<and> dr_inner (pb_registry t)
        = merge_device_lists (map (\<lambda>c. the (((b_shared s)(bc_name a \<mapsto> (a, x))) (bc_name c))) order)
    \<and> (\<forall>u. pub_step order reported t u \<longrightarrow> pb_registry u = pb_registry t)"
proof -
  from assms(3-6) have ne: "bc_name a \<noteq> bc_name b" by (auto simp: distinct_map inj_on_def)
  have q: "all_watching (pubs_of s)" and t: "pb_table (pubs_of s) = b_shared s"
    by (simp_all add: all_watching_def pubs_of_def)
  from overlapping_publications [OF q ne assms(4,5,7,8) published_ok(2) [OF assms(1,2)] assms(3)] quiet_step
  show ?thesis unfolding t by blast
qed

text \<open>Backend b reports that its device S is gone; the hub goes on listing it.\<close>

theorem publication_lost_witness:
  "\<exists>t. all_watching t \<and> pb_table t ''b'' = Some (demo_backend ''b'', [])
     \<and> dr_inner (pb_registry t) = merge_device_lists [(demo_backend ''a'', []), (demo_backend ''b'', ''S device'')]"
proof -
  let ?s = "snd (store_publish demo_order (demo_backend ''b'') ''S device'' demo_bsess)"
  have "table_ok demo_order (b_shared demo_bsess)" using demo_published by (simp add: published_def)
  from store_publish_published [OF this demo_distinct, of "demo_backend ''b''" "''S device''"]
  have p: "published demo_order ?s" and sh: "b_shared ?s = (b_shared demo_bsess)(''b'' \<mapsto> (demo_backend ''b'', ''S device''))"
    by (simp_all add: demo_backend_def)
  have r: "\<forall>c \<in> set demo_order. \<forall>body. b_shared ?s (bc_name c) = Some (c, body) \<longrightarrow> body \<in> {[], ''S device''}"
    unfolding sh by (auto simp: demo_bsess_def demo_backend_def)
  have "demo_backend ''a'' \<noteq> demo_backend ''b''" by (simp add: demo_backend_def)
  from publication_lost [OF p r demo_distinct _ _ this, of "[]" "[]"]
  show ?thesis unfolding sh by (auto simp: demo_bsess_def demo_backend_def)
qed

end
