(* ===== verification/Testing.thy ===== *)
theory Testing
  imports Net_Addr
begin

text \<open>
  Vocabulary for the unit tests of the crate, which the theories \<open>Unit_Tests\<close>, \<open>Config_Tests\<close> and
  \<open>Route_Tests\<close> translate one by one and evaluate on the model. A test is a truth value: the conjunction
  of its assertions. A fixture that calls \<^verbatim>\<open>unwrap\<close> returns a sum, and a test in which an \<^verbatim>\<open>unwrap\<close>,
  an \<^verbatim>\<open>unwrap_err\<close> or an index would panic is false.
\<close>

definition unwrapped :: "'e + 'a \<Rightarrow> ('a \<Rightarrow> bool) \<Rightarrow> bool" where
  "unwrapped r asserts = (case r of Inl _ \<Rightarrow> False | Inr x \<Rightarrow> asserts x)"

definition unwrapped_err :: "'e + 'a \<Rightarrow> ('e \<Rightarrow> bool) \<Rightarrow> bool" where
  "unwrapped_err r asserts = (case r of Inl e \<Rightarrow> asserts e | Inr _ \<Rightarrow> False)"

definition unwrapped_some :: "'a option \<Rightarrow> ('a \<Rightarrow> bool) \<Rightarrow> bool" where
  "unwrapped_some m asserts = (case m of None \<Rightarrow> False | Some x \<Rightarrow> asserts x)"

definition at_index :: "'a list \<Rightarrow> nat \<Rightarrow> ('a \<Rightarrow> bool) \<Rightarrow> bool" where
  "at_index xs i asserts \<longleftrightarrow> i < length xs \<and> asserts (xs ! i)"

text \<open>\<^verbatim>\<open>str::contains\<close>.\<close>

fun contains :: "string \<Rightarrow> string \<Rightarrow> bool" where
  "contains [] needle \<longleftrightarrow> needle = []"
| "contains (c # cs) needle \<longleftrightarrow> starts_with needle (c # cs) \<or> contains cs needle"

lemma unwrapped_simps [simp]:
  "unwrapped (Inr x) f = f x" "\<not> unwrapped (Inl e) f"
  "unwrapped_err (Inl e) g = g e" "\<not> unwrapped_err (Inr x) g"
  "unwrapped_some (Some x) f = f x" "\<not> unwrapped_some None f"
  by (simp_all add: unwrapped_def unwrapped_err_def unwrapped_some_def)

lemma at_index_simps [simp]:
  "\<not> at_index [] i f" "at_index (x # xs) 0 f = f x" "at_index (x # xs) (Suc i) f = at_index xs i f"
  by (simp_all add: at_index_def)

lemma at_index_numeral [simp]: "at_index (x # xs) (numeral k) f = at_index xs (pred_numeral k) f"
  by (simp add: numeral_eq_Suc)

lemma contains_self: "contains (needle @ b) needle"
  by (cases needle) (cases b; simp add: starts_with_def)+

lemma contains_append: "contains (a @ needle @ b) needle"
  by (induction a) (simp_all add: contains_self)

text \<open>Printing and parsing the address literals of the tests.\<close>

lemma digit_chars:
  "digit_char 0 = CHR ''0''" "digit_char (Suc 0) = CHR ''1''" "digit_char 2 = CHR ''2''" "digit_char 3 = CHR ''3''"
  "digit_char 4 = CHR ''4''" "digit_char 5 = CHR ''5''" "digit_char 6 = CHR ''6''" "digit_char 7 = CHR ''7''"
  "digit_char 8 = CHR ''8''" "digit_char 9 = CHR ''9''"
  by code_simp+

lemmas printed = to_radix.simps digit_chars

lemma literals [simp]:
  "parse_addr ''127.0.0.1:5037'' = Inr (V4 (127, 0, 0, 1) 5037)"
  "parse_addr ''127.0.0.1:5039'' = Inr (V4 (127, 0, 0, 1) 5039)"
  "parse_addr ''127.0.0.1:0'' = Inr (V4 (127, 0, 0, 1) 0)"
  "parse_addr ''10.0.0.1:5038'' = Inr (V4 (10, 0, 0, 1) 5038)"
  "parse_addr ''10.0.0.2:5038'' = Inr (V4 (10, 0, 0, 2) 5038)"
  "parse_addr ''1.1.1.1:5038'' = Inr (V4 (1, 1, 1, 1) 5038)"
  "parse_addr ''2.2.2.2:5038'' = Inr (V4 (2, 2, 2, 2) 5038)"
  "parse_addr ''1.1.1.1:1'' = Inr (V4 (1, 1, 1, 1) 1)"
  "parse_addr ''1.2.3.4:5038'' = Inr (V4 (1, 2, 3, 4) 5038)"
  "parse_addr ''192.168.1.1:5037'' = Inr (V4 (192, 168, 1, 1) 5037)"
  "parse_addr ''192.168.1.5:5038'' = Inr (V4 (192, 168, 1, 5) 5038)"
  "parse_addr ''192.168.1.10:5038'' = Inr (V4 (192, 168, 1, 10) 5038)"
  using parse_addr_V4 [of "(127, 0, 0, 1)" 5037] parse_addr_V4 [of "(127, 0, 0, 1)" 5039]
    parse_addr_V4 [of "(127, 0, 0, 1)" 0] parse_addr_V4 [of "(10, 0, 0, 1)" 5038]
    parse_addr_V4 [of "(10, 0, 0, 2)" 5038] parse_addr_V4 [of "(1, 1, 1, 1)" 5038]
    parse_addr_V4 [of "(2, 2, 2, 2)" 5038] parse_addr_V4 [of "(1, 1, 1, 1)" 1]
    parse_addr_V4 [of "(1, 2, 3, 4)" 5038] parse_addr_V4 [of "(192, 168, 1, 1)" 5037]
    parse_addr_V4 [of "(192, 168, 1, 5)" 5038] parse_addr_V4 [of "(192, 168, 1, 10)" 5038]
  by (simp_all add: printed)

text \<open>The one IPv6 literal.\<close>

lemma digit_values:
  "to_digit 10 (CHR ''['') = None" "to_digit 16 (CHR ''['') = None" "to_digit 16 (CHR '':'') = None"
  "to_digit 16 (CHR '']'') = None" "to_digit 10 (CHR '':'') = None" "to_digit 10 (CHR '']'') = None"
  "to_digit 16 (CHR ''1'') = Some (Suc 0)" "to_digit 10 (CHR ''1'') = Some (Suc 0)" "to_digit 10 (CHR ''5'') = Some 5"
  "to_digit 10 (CHR ''0'') = Some 0" "to_digit 10 (CHR ''3'') = Some 3" "to_digit 10 (CHR ''7'') = Some 7"
  by code_simp+

lemma groups_empty: "read_groups 8 8 0 ''::1]:5037'' = ([], False, ''::1]:5037'')"
  by (simp add: read_groups.simps(2) [of 7, simplified] digit_values read_ipv4_addr_def read_octet_def
      read_separator_def read_number_def)

lemma groups_one: "read_groups 7 7 0 ''1]:5037'' = ([1], False, '']:5037'')"
  by (simp add: read_groups.simps(2) [of 6, simplified] read_groups.simps(2) [of 5, simplified] digit_values
      read_ipv4_addr_def read_octet_def read_separator_def read_number_def read_given_char_def digits_value_def)

lemma zeros: "replicate 6 0 = [0, 0, 0, 0, 0, 0 :: u16]" "replicate 7 0 = [0, 0, 0, 0, 0, 0, 0 :: u16]"
  by (simp_all add: numeral_eq_Suc)

lemma literal_v6 [simp]: "parse_addr ''[::1]:5037'' = Inr (V6 [0, 0, 0, 0, 0, 0, 0, 1] 0 5037)"
  by (simp add: parse_addr_def read_socket_addr_v4_def read_ipv4_addr_def read_octet_def read_separator_def
      read_number_def digit_values read_socket_addr_v6_def read_ipv6_addr_def read_given_char_def groups_empty
      groups_one read_scope_id_def read_port_def digits_value_def zeros)

end
