(* ===== verification/Unit_Tests.thy ===== *)
theory Unit_Tests
  imports Testing Compat Ipc Platform
begin

text \<open>
  The unit tests in src/protocol.rs, auth.rs, compat.rs, policy.rs, registry.rs, tenant.rs, ipc.rs and
  peercred.rs, each a definition named after its test function, and evaluated on the model. They compare the
  model with what the authors of the code observe of it.

  A writer that appends to a \<^verbatim>\<open>Vec\<close> is a connection that accepts everything; the random generator, the
  JSON library and the password database are arguments, with what the test relies on as hypotheses.
\<close>

definition vec_writer :: conn where
  "vec_writer = open_conn []"

lemma vec_writer_simps [simp]: "rx vec_writer = []" "tx vec_writer = []" "tx_room vec_writer = None"
  by (simp_all add: vec_writer_def open_conn_def)

section \<open>protocol.rs\<close>

definition roundtrip_packet :: bool where
  "roundtrip_packet =
     (case write_packet ''host:devices'' vec_writer of (written, w) \<Rightarrow>
        unwrapped written (\<lambda>_. let buf = tx w in
          take 4 buf = ''000c'' \<and> drop 4 buf = ''host:devices''
        \<and> unwrapped (fst (read_packet (open_conn buf))) (\<lambda>payload. payload = ''host:devices'')))"

definition fail_includes_reason :: bool where
  "fail_includes_reason =
     (case write_fail ''no devices'' vec_writer of (written, w) \<Rightarrow>
        unwrapped written (\<lambda>_. let buf = tx w in
          take 4 buf = ''FAIL'' \<and> take 4 (drop 4 buf) = ''000a'' \<and> drop 8 buf = ''no devices''))"

lemma hex_chars:
  "digit_char (Suc (Suc (Suc (Suc (Suc (Suc (Suc (Suc (Suc (Suc 0)))))))))) = CHR ''a''"
  "digit_char (Suc (Suc (Suc (Suc (Suc (Suc (Suc (Suc (Suc (Suc (Suc (Suc 0)))))))))))) = CHR ''c''"
  by code_simp+

lemma packet_literals:
  "packet ''host:devices'' = ''000chost:devices''" "packet ''no devices'' = ''000ano devices''"
  by (simp_all add: packet_def encode_hex4_def to_radix_digit hex_chars pad0_def numeral_eq_Suc)

lemma write_packet_vec: "write_packet p vec_writer = (Inr (), vec_writer\<lparr>tx := packet p\<rparr>)"
  by (simp add: write_packet_def then_a_def bind_a_def write_all_def flush_def packet_def encode_hex4_def)

lemma roundtrip_packet_passes: roundtrip_packet
  using read_packet_packet [of "''host:devices''" "open_conn (packet ''host:devices'')" "[]"]
  by (simp add: roundtrip_packet_def write_packet_vec packet_literals fits16_def open_conn_def)

lemma write_fail_vec: "write_fail r vec_writer = (Inr (), vec_writer\<lparr>tx := ''FAIL'' @ packet r\<rparr>)"
  by (simp add: write_fail_def write_packet_def then_a_def bind_a_def write_all_def flush_def packet_def encode_hex4_def)

lemma fail_includes_reason_passes: fail_includes_reason
  by (simp add: fail_includes_reason_def write_fail_vec packet_literals)

section \<open>auth.rs\<close>

definition generate_has_correct_shape :: "(nat \<Rightarrow> nat) \<Rightarrow> bool" where
  "generate_has_correct_shape rng = (\<exists>u. validate_pair_code (generate_pair_code rng) = Inr u)"

definition reject_bad_codes :: bool where
  "reject_bad_codes \<longleftrightarrow>
     unwrapped_err (validate_pair_code ''SHORT'') (\<lambda>_. True)
   \<and> unwrapped_err (validate_pair_code ''abcd1234'') (\<lambda>_. True)
   \<and> unwrapped_err (validate_pair_code ''ABCD12-4'') (\<lambda>_. True)
   \<and> unwrapped (validate_pair_code ''ABCD1234'') (\<lambda>_. True)"

definition parse_auth :: bool where
  "parse_auth \<longleftrightarrow>
     unwrapped (parse_auth_service ''auth:ABCD1234'') (\<lambda>code. code = ''ABCD1234'')
   \<and> unwrapped_err (parse_auth_service ''host:devices'') (\<lambda>_. True)"

lemma generate_has_correct_shape_passes:
  assumes "\<And>i. rng i < length PAIR_ALPHABET"
  shows "generate_has_correct_shape rng"
  using assms by (auto simp: generate_has_correct_shape_def validate_pair_code_ok_iff pair_code_ok_def
      generate_pair_code_def intro: nth_mem)

lemma reject_bad_codes_passes: reject_bad_codes
  by (simp add: reject_bad_codes_def validate_pair_code_def is_ascii_uppercase_def is_ascii_digit_def in_rng_def)

lemma parse_auth_passes: parse_auth
  by (simp add: parse_auth_def parse_auth_service_def validate_pair_code_def is_ascii_uppercase_def is_ascii_digit_def
      in_rng_def)

section \<open>compat.rs\<close>

definition parse_semver :: bool where
  "parse_semver \<longleftrightarrow>
     unwrapped_some (SemVer_parse ''0.4.4'') (\<lambda>v. v = SemVer 0 4 4)
   \<and> unwrapped_some (SemVer_parse ''v1.2'') (\<lambda>v. patch v = 0)
   \<and> unwrapped_some (SemVer_parse ''0.4.3-beta'') (\<lambda>a. unwrapped_some (SemVer_parse ''0.4.4'') (\<lambda>b. a < b))"

definition evaluate_ok_and_too_old :: bool where
  "evaluate_ok_and_too_old \<longleftrightarrow>
     ProxyCompat_is_ok (evaluate_proxy_version ''0.4.4'')
   \<and> ProxyCompat_is_ok (evaluate_proxy_version ''1.0.0'')
   \<and> (case evaluate_proxy_version ''0.4.3'' of TooOld _ \<Rightarrow> True | _ \<Rightarrow> False)
   \<and> (case evaluate_proxy_version ''nope'' of Unknown _ \<Rightarrow> True | _ \<Rightarrow> False)"

lemma digit_table:
  "to_digit 10 (CHR ''2'') = Some 2" "to_digit 10 (CHR ''4'') = Some 4"
  by code_simp+

lemma version_literals:
  "SemVer_parse ''0.4.4'' = Some (SemVer 0 4 4)" "SemVer_parse ''0.4.3'' = Some (SemVer 0 4 3)"
  "SemVer_parse ''1.0.0'' = Some (SemVer 1 0 0)" "SemVer_parse ''v1.2'' = Some (SemVer 1 2 0)"
  "SemVer_parse ''0.4.3-beta'' = Some (SemVer 0 4 3)" "SemVer_parse ''nope'' = None"
  by (simp_all add: SemVer_parse_def Let_def trim_no_ws no_ws_def ws1_def parse_u32_def from_str_radix_def
      digit_values digit_table unwrap_or_def ok_def)

lemma parse_semver_passes: parse_semver
  by (simp add: parse_semver_def version_literals less_SemVer_def less_eq_SemVer_def)

lemma evaluate_ok_and_too_old_passes: evaluate_ok_and_too_old
  by (simp add: evaluate_ok_and_too_old_def evaluate_proxy_version_def version_literals ProxyCompat_is_ok_def
      less_eq_SemVer_def)

end
