(* ===== verification/Registry_Tests.thy ===== *)
theory Registry_Tests
  imports Testing Ipc Platform
begin

text \<open>
  The unit tests in src/policy.rs, registry.rs, tenant.rs, ipc.rs and peercred.rs, as in \<open>Unit_Tests\<close>. The
  tenant tests run in a debug build, where the \<^verbatim>\<open>debug_assert!\<close> of \<open>update_agent_devices\<close> is one more
  assertion. The JSON library and the password database are arguments, with what a test relies on as
  hypotheses.
\<close>

section \<open>policy.rs\<close>

definition default_enabled :: bool where
  "default_enabled \<longleftrightarrow> is_enabled DevicePolicyTable_default ''ANY''"

definition disable_and_enable :: bool where
  "disable_and_enable \<longleftrightarrow>
     (let t1 = set_enabled ''A1'' False DevicePolicyTable_default;
          t2 = set_enabled ''A1'' True t1
      in \<not> is_enabled t1 ''A1'' \<and> is_enabled t2 ''A1'' \<and> to_disabled_entries t2 = [])"

definition filter_body_drops_disabled :: bool where
  "filter_body_drops_disabled \<longleftrightarrow>
     (let body = ''A1'' @ [TAB] @ ''device'' @ [LF] @ ''A2'' @ [TAB] @ ''offline'' @ [LF]
                 @ ''A3'' @ [TAB] @ ''device usb:1'' @ [LF]
      in filter_devices_body body (\<lambda>s. s \<noteq> ''A2'')
         = ''A1'' @ [TAB] @ ''device'' @ [LF] @ ''A3'' @ [TAB] @ ''device usb:1'' @ [LF])"

definition transport_serial_parse :: bool where
  "transport_serial_parse \<longleftrightarrow>
     transport_serial ''host:transport:ABC'' = Some ''ABC''
   \<and> transport_serial ''host:tport:serial:X'' = Some ''X''
   \<and> transport_serial ''host:transport-any'' = None
   \<and> transport_serial ''host:transport:any'' = None"

lemma default_enabled_passes: default_enabled
  by (simp add: default_enabled_def is_enabled_def DevicePolicyTable_default_def)

lemma disable_and_enable_passes: disable_and_enable
  by (simp add: disable_and_enable_def is_enabled_def set_enabled_def DevicePolicyTable_default_def hm_insert_def
      hm_remove_def to_disabled_entries_def)

lemma filter_body_drops_disabled_passes: filter_body_drops_disabled
  unfolding filter_body_drops_disabled_def Let_def by code_simp

lemma transport_serial_parse_passes: transport_serial_parse
  by (simp add: transport_serial_parse_def transport_serial_def)

section \<open>registry.rs\<close>

definition test_backend :: "string \<Rightarrow> string \<Rightarrow> string + BackendConfig" where
  "test_backend name addr =
     bind_r (parse_addr addr) (\<lambda>a.
       Inr \<lparr>bc_name = name, bc_addr = a, bc_pair_code = None, bc_enabled = True\<rparr>)"

definition merge_unique_serials :: bool where
  "merge_unique_serials \<longleftrightarrow>
     unwrapped (test_backend ''a'' ''1.1.1.1:5038'') (\<lambda>a.
     unwrapped (test_backend ''b'' ''2.2.2.2:5038'') (\<lambda>b.
       let snap = merge_device_lists
             [(a, ''ABC'' @ [TAB] @ ''device'' @ [LF]), (b, ''DEF'' @ [TAB] @ ''device usb:1'' @ [LF])]
       in length (devices snap) = 2
        \<and> at_index (devices snap) 0 (\<lambda>d. public_serial d = ''ABC'')
        \<and> at_index (devices snap) 1 (\<lambda>d. public_serial d = ''DEF'')
        \<and> at_index (devices snap) 1 (\<lambda>d. extras d = ''usb:1'')))"

definition merge_rewrites_conflicts :: bool where
  "merge_rewrites_conflicts \<longleftrightarrow>
     unwrapped (test_backend ''office'' ''1.1.1.1:5038'') (\<lambda>a.
     unwrapped (test_backend ''lab'' ''2.2.2.2:5038'') (\<lambda>b.
       let snap = merge_device_lists
             [(a, ''SAME'' @ [TAB] @ ''device'' @ [LF]), (b, ''SAME'' @ [TAB] @ ''offline'' @ [LF])]
       in at_index (devices snap) 0 (\<lambda>d. public_serial d = ''office:SAME'')
        \<and> at_index (devices snap) 1 (\<lambda>d. public_serial d = ''lab:SAME'')
        \<and> at_index (devices snap) 0 (\<lambda>d. upstream_serial d = ''SAME'')))"

definition format_short_and_long :: bool where
  "format_short_and_long \<longleftrightarrow>
     unwrapped (parse_addr ''1.1.1.1:1'') (\<lambda>addr.
       let snap = \<lparr>devices = [\<lparr>public_serial = ''X'', upstream_serial = ''X'', dev_state = ''device'',
             extras = ''product:foo'', backend_name = ''a'', backend_addr = addr, pair_code = None,
             route_id = None\<rparr>]\<rparr>
       in format_devices False snap = ''X'' @ [TAB] @ ''device'' @ [LF]
        \<and> format_devices True snap = ''X'' @ [TAB] @ ''device product:foo'' @ [LF])"

lemma parsed_bodies:
  "parse_body (b, ''ABC'' @ [TAB] @ ''device'' @ [LF]) = [(b, ''ABC'', ''device'', [])]"
  "parse_body (b, ''DEF'' @ [TAB] @ ''device usb:1'' @ [LF]) = [(b, ''DEF'', ''device'', ''usb:1'')]"
  "parse_body (b, ''SAME'' @ [TAB] @ ''device'' @ [LF]) = [(b, ''SAME'', ''device'', [])]"
  "parse_body (b, ''SAME'' @ [TAB] @ ''offline'' @ [LF]) = [(b, ''SAME'', ''offline'', [])]"
  by code_simp+

lemma merge_unique_serials_passes: merge_unique_serials
  by (simp add: merge_unique_serials_def test_backend_def merge_device_lists_def parse_lists_def
      parsed_bodies [simplified] serial_count_def public_name_def mk_entry_def Let_def)

lemma merge_rewrites_conflicts_passes: merge_rewrites_conflicts
  by (simp add: merge_rewrites_conflicts_def test_backend_def merge_device_lists_def parse_lists_def
      parsed_bodies [simplified] serial_count_def public_name_def mk_entry_def Let_def)

lemma format_short_and_long_passes: format_short_and_long
  by (simp add: format_short_and_long_def format_devices_def format_device_def)

section \<open>tenant.rs\<close>

definition shared_device :: "string \<Rightarrow> string + DeviceEntry" where
  "shared_device serial =
     bind_r (parse_addr ''127.0.0.1:5039'') (\<lambda>addr.
       Inr \<lparr>public_serial = serial, upstream_serial = serial, dev_state = ''device'', extras = [],
            backend_name = ''local'', backend_addr = addr, pair_code = None, route_id = None\<rparr>)"

definition private_device :: "string \<Rightarrow> string \<Rightarrow> string + DeviceEntry" where
  "private_device serial backend =
     bind_r (parse_addr ''127.0.0.1:0'') (\<lambda>addr.
       Inr \<lparr>public_serial = serial, upstream_serial = serial, dev_state = ''device'', extras = [],
            backend_name = backend, backend_addr = addr, pair_code = None,
            route_id = Some (''route-'' @ serial)\<rparr>)"

definition shared_visible_to_all :: bool where
  "shared_visible_to_all \<longleftrightarrow>
     unwrapped (shared_device ''USB1'') (\<lambda>usb.
       let reg = update_shared \<lparr>devices = [usb]\<rparr> TenantRegistry_new;
           alice = snapshot_for 1000 reg; bob = snapshot_for 1001 reg
       in length (devices alice) = 1 \<and> length (devices bob) = 1
        \<and> at_index (devices alice) 0 (\<lambda>d. public_serial d = ''USB1''))"

definition private_only_visible_to_owner :: bool where
  "private_only_visible_to_owner \<longleftrightarrow>
     unwrapped (shared_device ''USB1'') (\<lambda>usb.
     unwrapped (private_device ''ALICE_DEV'' ''office'') (\<lambda>dev.
       let reg = update_agent_devices 1000 \<lparr>devices = [dev]\<rparr> (update_shared \<lparr>devices = [usb]\<rparr> TenantRegistry_new);
           alice = snapshot_for 1000 reg; bob = snapshot_for 1001 reg
       in agent_devices_ok \<lparr>devices = [dev]\<rparr>
        \<and> length (devices alice) = 2 \<and> find_device alice ''ALICE_DEV'' \<noteq> None
        \<and> length (devices bob) = 1 \<and> find_device bob ''ALICE_DEV'' = None))"

definition agent_disconnect_removes_private :: bool where
  "agent_disconnect_removes_private \<longleftrightarrow>
     unwrapped (private_device ''PRIV1'' ''office'') (\<lambda>dev.
       let reg = update_agent_devices 1000 \<lparr>devices = [dev]\<rparr> TenantRegistry_new
       in agent_devices_ok \<lparr>devices = [dev]\<rparr>
        \<and> length (devices (snapshot_for 1000 reg)) = 1
        \<and> length (devices (snapshot_for 1000 (remove_agent 1000 reg))) = 0)"

definition users_isolated :: bool where
  "users_isolated \<longleftrightarrow>
     unwrapped (private_device ''A1'' ''alice-office'') (\<lambda>a.
     unwrapped (private_device ''B1'' ''bob-lab'') (\<lambda>b.
       let reg = update_agent_devices 1001 \<lparr>devices = [b]\<rparr> (update_agent_devices 1000 \<lparr>devices = [a]\<rparr> TenantRegistry_new);
           alice = snapshot_for 1000 reg; bob = snapshot_for 1001 reg
       in agent_devices_ok \<lparr>devices = [a]\<rparr> \<and> agent_devices_ok \<lparr>devices = [b]\<rparr>
        \<and> find_device alice ''A1'' \<noteq> None \<and> find_device alice ''B1'' = None
        \<and> find_device bob ''B1'' \<noteq> None \<and> find_device bob ''A1'' = None))"

lemmas tenant_fixtures = shared_device_def private_device_def TenantRegistry_new_def empty_snapshot_def
  update_shared_def update_agent_devices_def remove_agent_def notify_if_def snapshot_for_def agent_devices_ok_def
  find_device_def

lemma shared_visible_to_all_passes: shared_visible_to_all
  by (simp add: shared_visible_to_all_def tenant_fixtures Let_def)

lemma private_only_visible_to_owner_passes: private_only_visible_to_owner
  by (simp add: private_only_visible_to_owner_def tenant_fixtures Let_def)

lemma agent_disconnect_removes_private_passes: agent_disconnect_removes_private
  by (simp add: agent_disconnect_removes_private_def tenant_fixtures Let_def)

lemma users_isolated_passes: users_isolated
  by (simp add: users_isolated_def tenant_fixtures Let_def)

section \<open>ipc.rs\<close>

definition roundtrip_register_and_stream :: "json \<Rightarrow> bool" where
  "roundtrip_register_and_stream js \<longleftrightarrow>
     (case write_message js (MRegisterAgent
             \<lparr>ra_version = PROTOCOL_VERSION, ra_capabilities = [''devices''], ra_instance_token = ''tok''\<rparr>)
             (open_conn []) of (r1, w1) \<Rightarrow>
      unwrapped r1 (\<lambda>_.
     (case write_message js (MStreamData 7 ''hello'') w1 of (r2, w2) \<Rightarrow>
      unwrapped r2 (\<lambda>_.
     (case read_message js (open_conn (tx w2)) of (m1, c1) \<Rightarrow>
      unwrapped m1 (\<lambda>m1.
        (case m1 of
           MRegisterAgent r \<Rightarrow> ra_version r = PROTOCOL_VERSION \<and> ra_instance_token r = ''tok''
         | _ \<Rightarrow> False)
      \<and> unwrapped (fst (read_message js c1)) (\<lambda>m2.
          case m2 of
            MStreamData stream_id data \<Rightarrow> stream_id = 7 \<and> data = ''hello''
          | _ \<Rightarrow> False)))))))"

definition sanitized_has_no_pair_code_field_in_json :: "(SanitizedDevice \<Rightarrow> string + string) \<Rightarrow> bool" where
  "sanitized_has_no_pair_code_field_in_json to_string \<longleftrightarrow>
     unwrapped (to_string
       \<lparr>sd_public_serial = ''A'', sd_upstream_serial = ''A'', sd_state = ''device'', sd_extras = [],
        sd_backend_name = ''office'', sd_route_id = ''r1''\<rparr>) (\<lambda>json.
       \<not> contains json ''pair'' \<and> contains json ''route_id'')"

lemma roundtrip_register_and_stream_passes:
  assumes js: "json_ok js"
    and enc: "j_register js \<lparr>ra_version = PROTOCOL_VERSION, ra_capabilities = [''devices''], ra_instance_token = ''tok''\<rparr> = Inr b"
    and b: "length b < MAX_FRAME"
  shows "roundtrip_register_and_stream js"
proof -
  let ?r = "MRegisterAgent \<lparr>ra_version = PROTOCOL_VERSION, ra_capabilities = [''devices''], ra_instance_token = ''tok''\<rparr>"
  let ?d = "MStreamData 7 ''hello''"
  let ?f = "ipc_frame js ?r @ ipc_frame js ?d"
  have r: "encode_message js ?r = Inr (MtRegisterAgent, b)"
    by (simp add: encode_message_def to_json_def enc)
  have d: "encode_message js ?d = Inr (MtStreamData, be32 7 @ ''hello'')"
    by (simp add: encode_message_def)
  have fits: "fits_ipc js ?r" "fits_ipc js ?d"
    using fits_ipc_json [OF js r] fits_ipc_json [OF js d] b by (simp_all add: be32_def MAX_FRAME_def)
  have w: "write_message js ?r (open_conn []) = (Inr (), (open_conn [])\<lparr>tx := ipc_frame js ?r\<rparr>)"
      "write_message js ?d ((open_conn [])\<lparr>tx := ipc_frame js ?r\<rparr>) = (Inr (), (open_conn [])\<lparr>tx := ?f\<rparr>)"
    using write_message_tx [OF _ r, of "open_conn []"]
      write_message_tx [OF _ d, of "(open_conn [])\<lparr>tx := ipc_frame js ?r\<rparr>"] by (simp_all add: open_conn_def)
  have "read_message js (open_conn ?f) = (Inr ?r, open_conn (ipc_frame js ?d))"
      "read_message js (open_conn (ipc_frame js ?d)) = (Inr ?d, open_conn [])"
    using read_message_frame [OF fits(1), of "open_conn ?f"]
      read_message_frame [OF fits(2), of "open_conn (ipc_frame js ?d)" "[]"] by (simp_all add: open_conn_def)
  then show ?thesis by (simp add: roundtrip_register_and_stream_def w)
qed

text \<open>A derived serializer prints the fields of the structure under their names, in order.\<close>

lemma sanitized_has_no_pair_code_field_in_json_passes:
  assumes "to_string \<lparr>sd_public_serial = ''A'', sd_upstream_serial = ''A'', sd_state = ''device'', sd_extras = [],
        sd_backend_name = ''office'', sd_route_id = ''r1''\<rparr>
    = Inr (''{'' @ join '','' (map (\<lambda>(k, v). debug_str k @ '':'' @ debug_str v)
        [(''public_serial'', ''A''), (''upstream_serial'', ''A''), (''state'', ''device''), (''extras'', []),
         (''backend_name'', ''office''), (''route_id'', ''r1'')]) @ ''}'')"
  shows "sanitized_has_no_pair_code_field_in_json to_string"
proof -
  have "\<not> contains t ''pair'' \<and> contains t ''route_id''"
    if "t = ''{'' @ join '','' (map (\<lambda>(k, v). debug_str k @ '':'' @ debug_str v)
        [(''public_serial'', ''A''), (''upstream_serial'', ''A''), (''state'', ''device''), (''extras'', []),
         (''backend_name'', ''office''), (''route_id'', ''r1'')]) @ ''}''" for t
    unfolding that by code_simp
  with assms show ?thesis by (simp add: sanitized_has_no_pair_code_field_in_json_def)
qed

section \<open>peercred.rs\<close>

definition loopback_detection :: bool where
  "loopback_detection \<longleftrightarrow>
     unwrapped (parse_addr ''127.0.0.1:5037'') (\<lambda>a. is_loopback a)
   \<and> unwrapped (parse_addr ''[::1]:5037'') (\<lambda>a. is_loopback a)
   \<and> unwrapped (parse_addr ''192.168.1.1:5037'') (\<lambda>a. \<not> is_loopback a)"

definition username_for_current_uid :: "(Uid \<Rightarrow> bytes option) \<Rightarrow> Uid \<Rightarrow> bool" where
  "username_for_current_uid getpwuid getuid \<longleftrightarrow>
     (let name = username_for_uid getpwuid getuid in name \<noteq> [] \<and> \<not> starts_with ''uid='' name)"

lemma loopback_detection_passes: loopback_detection
  by (simp add: loopback_detection_def v6_is_loopback_def)

text \<open>The test assumes that the user running it has an ordinary entry in the password database.\<close>

lemma username_for_current_uid_passes:
  assumes "getpwuid uid = Some name" "from_utf8 name = Some name" "name \<noteq> []" "\<not> starts_with ''uid='' name"
  shows "username_for_current_uid getpwuid uid"
  using assms by (simp add: username_for_current_uid_def username_for_uid_def)

end
