(* ===== verification/Config_Tests.thy ===== *)
theory Config_Tests
  imports Testing Agent
begin

text \<open>
  The unit tests in src/config.rs and src/proxy_config.rs. The \<^verbatim>\<open>toml\<close> crate is an argument: a
  test that parses a literal document is evaluated with the fields of that document, and a test that prints
  and parses again with a crate whose parser reads back what its serializer printed.
\<close>

section \<open>Documents\<close>

text \<open>A document as its lines; \<open>dq\<close> is a quoted string.\<close>

definition document :: "string list \<Rightarrow> string" where
  "document ls = concat (map (\<lambda>l. l @ [LF]) ls)"

definition dq :: "string \<Rightarrow> string" where
  "dq s = [CHR 0x22] @ s @ [CHR 0x22]"

text \<open>The empty document, to which the parsed ones are updates.\<close>

definition no_fields :: RawToml where
  "no_fields = \<lparr>rt_listen = None, rt_poll_interval_ms = None, rt_adb_version = None, rt_include_local = None,
     rt_local_adb_port = None, rt_backend = None, rt_device = None\<rparr>"

section \<open>config.rs\<close>

definition backends_toml :: string where
  "backends_toml = document
       [[], ''listen = '' @ dq ''127.0.0.1:5037'',
        ''[[backend]]'', ''name = '' @ dq ''office'', ''addr = '' @ dq ''192.168.1.10:5038'',
        ''pair_code = '' @ dq ''ABCD1234'',
        ''[[backend]]'', ''addr = '' @ dq ''10.0.0.2:5038'']"

definition parse_toml_backends :: "hub_toml \<Rightarrow> bool" where
  "parse_toml_backends toml \<longleftrightarrow>
     unwrapped (HubConfig_from_toml_str toml backends_toml)
     (\<lambda>cfg. length (hc_backends cfg) = 2
       \<and> at_index (hc_backends cfg) 0 (\<lambda>b. bc_name b = ''office'')
       \<and> at_index (hc_backends cfg) 0 (\<lambda>b. bc_pair_code b = Some ''ABCD1234'')
       \<and> at_index (hc_backends cfg) 0 bc_enabled
       \<and> at_index (hc_backends cfg) 1 (\<lambda>b. bc_name b = ''10.0.0.2_5038'')
       \<and> at_index (hc_backends cfg) 1 (\<lambda>b. bc_pair_code b = None)
       \<and> hc_include_local cfg \<and> hc_local_adb_port cfg = 5039)"

definition disabled_toml :: string where
  "disabled_toml = document
       [[], ''[[backend]]'', ''name = '' @ dq ''office'', ''addr = '' @ dq ''192.168.1.10:5038'',
        ''enabled = false'', ''[[device]]'', ''serial = '' @ dq ''office:A1'', ''enabled = false'']"

definition parse_disabled_backend_and_device :: "hub_toml \<Rightarrow> bool" where
  "parse_disabled_backend_and_device toml \<longleftrightarrow>
     unwrapped (HubConfig_from_toml_str toml disabled_toml)
     (\<lambda>cfg. at_index (hc_backends cfg) 0 (\<lambda>b. \<not> bc_enabled b)
       \<and> \<not> is_enabled (hc_devices cfg) ''office:A1'' \<and> is_enabled (hc_devices cfg) ''other''
       \<and> length (enabled_backends cfg) = 0)"

definition local_toml :: string where
  "local_toml = document [[], ''include_local = true'', ''local_adb_port = 5040'']"

definition parse_toml_local_only :: "hub_toml \<Rightarrow> bool" where
  "parse_toml_local_only toml \<longleftrightarrow>
     unwrapped (HubConfig_from_toml_str toml local_toml)
     (\<lambda>cfg. hc_backends cfg = [] \<and> hc_local_adb_port cfg = 5040)"

definition empty_toml :: string where
  "empty_toml = document [''include_local = false'']"

definition reject_empty_without_local :: "hub_toml \<Rightarrow> bool" where
  "reject_empty_without_local toml \<longleftrightarrow>
     unwrapped_err (HubConfig_from_toml_str toml empty_toml)
     (\<lambda>err. contains (ConfigError_display err) ''at least one'')"

definition parse_legacy :: bool where
  "parse_legacy \<longleftrightarrow>
     unwrapped (from_legacy_adbproxy (document [''host=192.168.1.5'', ''port=5038'']))
     (\<lambda>cfg. length (hc_backends cfg) = 1
       \<and> at_index (hc_backends cfg) 0 (\<lambda>b. addr_string (bc_addr b) = ''192.168.1.5:5038'')
       \<and> hc_include_local cfg)"

definition parse_backend_cli :: bool where
  "parse_backend_cli \<longleftrightarrow>
     unwrapped (parse_backend_arg ''lab=1.2.3.4:5038'')
     (\<lambda>b. bc_name b = ''lab'' \<and> addr_string (bc_addr b) = ''1.2.3.4:5038'' \<and> bc_pair_code b = None)"

definition roundtrip_toml_with_pair_code :: "(TomlFile \<Rightarrow> string + string) \<Rightarrow> hub_toml \<Rightarrow> bool" where
  "roundtrip_toml_with_pair_code ser toml \<longleftrightarrow>
     unwrapped (parse_addr ''192.168.1.10:5038'') (\<lambda>addr.
       let cfg = set_device_enabled ''A1'' False
             (upsert_backend
               \<lparr>bc_name = ''office'', bc_addr = addr, bc_pair_code = Some ''ABCD1234'', bc_enabled = True\<rparr>
               (local_only\<lparr>hc_include_local := True\<rparr>))
       in unwrapped (to_toml_string ser cfg) (\<lambda>text.
            contains text ''enabled = false''
          \<and> unwrapped (HubConfig_from_toml_str toml text) (\<lambda>loaded.
              at_index (hc_backends loaded) 0 (\<lambda>b. bc_pair_code b = Some ''ABCD1234'')
            \<and> \<not> is_enabled (hc_devices loaded) ''A1'')))"

definition upsert_updates_by_name :: bool where
  "upsert_updates_by_name \<longleftrightarrow>
     unwrapped (parse_addr ''10.0.0.1:5038'') (\<lambda>addr1.
     unwrapped (parse_addr ''10.0.0.2:5038'') (\<lambda>addr2.
       let cfg = upsert_backend
             \<lparr>bc_name = ''office'', bc_addr = addr2, bc_pair_code = Some ''BBBBBBBB'', bc_enabled = True\<rparr>
            (upsert_backend
             \<lparr>bc_name = ''office'', bc_addr = addr1, bc_pair_code = Some ''AAAAAAAA'', bc_enabled = True\<rparr>
             local_only)
       in length (hc_backends cfg) = 1
        \<and> at_index (hc_backends cfg) 0 (\<lambda>b. addr_string (bc_addr b) = ''10.0.0.2:5038'')
        \<and> at_index (hc_backends cfg) 0 (\<lambda>b. bc_pair_code b = Some ''BBBBBBBB'')))"

lemmas config_eval = HubConfig_from_toml_str_def with_defaults_def no_fields_def from_toml_file_def
  default_listen_def default_include_local_def default_local_adb_port_def default_poll_ms_def default_adb_version_def
  from_entries_def hm_insert_def is_enabled_def DevicePolicyTable_default_def max_def

lemma code_accepted: "validate_pair_code ''ABCD1234'' = Inr ()"
  by (simp add: validate_pair_code_def is_ascii_uppercase_def is_ascii_digit_def in_rng_def)

lemma parse_toml_backends_passes:
  assumes "toml backends_toml = Inr (no_fields\<lparr>rt_listen := Some ''127.0.0.1:5037'',
     rt_backend := Some
       [\<lparr>rb_name = Some ''office'', rb_addr = ''192.168.1.10:5038'', rb_pair_code = Some ''ABCD1234'', rb_enabled = None\<rparr>,
        \<lparr>rb_name = None, rb_addr = ''10.0.0.2:5038'', rb_pair_code = None, rb_enabled = None\<rparr>]\<rparr>)"
  shows "parse_toml_backends toml"
  by (simp add: parse_toml_backends_def assms config_eval code_accepted default_backend_name_def printed)

lemma parse_disabled_backend_and_device_passes:
  assumes "toml disabled_toml = Inr (no_fields\<lparr>rt_backend := Some
       [\<lparr>rb_name = Some ''office'', rb_addr = ''192.168.1.10:5038'', rb_pair_code = None, rb_enabled = Some False\<rparr>],
     rt_device := Some [\<lparr>rd_serial = ''office:A1'', rd_enabled = Some False\<rparr>]\<rparr>)"
  shows "parse_disabled_backend_and_device toml"
  by (simp add: parse_disabled_backend_and_device_def assms config_eval enabled_backends_def)

lemma parse_toml_local_only_passes:
  assumes "toml local_toml = Inr (no_fields\<lparr>rt_include_local := Some True, rt_local_adb_port := Some 5040\<rparr>)"
  shows "parse_toml_local_only toml"
  by (simp add: parse_toml_local_only_def assms config_eval)

lemma reject_empty_without_local_passes:
  assumes "toml empty_toml = Inr (no_fields\<lparr>rt_include_local := Some False\<rparr>)"
  shows "reject_empty_without_local toml"
  by (simp add: reject_empty_without_local_def assms config_eval ConfigError_display_def starts_with_def)

lemma legacy_keys:
  "fold legacy_line (str_lines (document [''host=192.168.1.5'', ''port=5038''])) (None, None) = (Some ''192.168.1.5'', Some ''5038'')"
  by code_simp

lemma parse_legacy_passes: parse_legacy
  by (simp add: parse_legacy_def from_legacy_adbproxy_def legacy_keys local_only_def printed)

lemma parse_backend_cli_passes: parse_backend_cli
  by (simp add: parse_backend_cli_def parse_backend_arg_def printed)

lemma upsert_updates_by_name_passes: upsert_updates_by_name
  by (simp add: upsert_updates_by_name_def upsert_backend_def local_only_def printed Let_def)

text \<open>Printing and parsing again: the serializer prints the structure below, with the word the test
  looks for, and the parser reads back what was printed.\<close>

definition office_file :: TomlFile where
  "office_file = \<lparr>tf_listen = ''127.0.0.1:5037'', tf_poll_interval_ms = 1000, tf_adb_version = 41,
     tf_include_local = True, tf_local_adb_port = 5039,
     tf_backend = [\<lparr>tb_name = Some ''office'', tb_addr = ''192.168.1.10:5038'', tb_pair_code = Some ''ABCD1234'', tb_enabled = True\<rparr>],
     tf_device = [\<lparr>dp_serial = ''A1'', dp_enabled = False\<rparr>]\<rparr>"

lemma roundtrip_toml_with_pair_code_passes:
  assumes ser: "ser office_file = Inr text" and shown: "contains text ''enabled = false''"
    and read: "toml text = Inr raw" "with_defaults raw = office_file"
  shows "roundtrip_toml_with_pair_code ser toml"
proof -
  let ?cfg = "set_device_enabled ''A1'' False (upsert_backend
      \<lparr>bc_name = ''office'', bc_addr = V4 (192, 168, 1, 10) 5038, bc_pair_code = Some ''ABCD1234'', bc_enabled = True\<rparr>
      (local_only\<lparr>hc_include_local := True\<rparr>))"
  have f: "to_toml_file ?cfg = office_file"
    by (simp add: office_file_def to_toml_file_def set_device_enabled_def upsert_backend_def local_only_def
        listen_addr_def printed config_eval set_enabled_def to_disabled_entries_def)
  have loaded: "HubConfig_from_toml_str toml text = from_toml_file office_file"
    by (simp add: HubConfig_from_toml_str_def read)
  have "unwrapped (from_toml_file office_file) (\<lambda>loaded.
      at_index (hc_backends loaded) 0 (\<lambda>b. bc_pair_code b = Some ''ABCD1234'') \<and> \<not> is_enabled (hc_devices loaded) ''A1'')"
    by (simp add: office_file_def config_eval code_accepted)
  then show ?thesis
    by (simp only: roundtrip_toml_with_pair_code_def literals unwrapped_simps Let_def to_toml_string_def f ser
        map_err_simps loaded shown)
qed

section \<open>proxy_config.rs\<close>

definition roundtrip_disabled_only ::
  "(DevicePolicyEntry list \<Rightarrow> string + string) \<Rightarrow> (string \<Rightarrow> string + RawDevice list option) \<Rightarrow> bool" where
  "roundtrip_disabled_only ser toml \<longleftrightarrow>
     (let c0 = ProxyFileConfig_default;
          c1 = ProxyFileConfig_set_device_enabled ''A1'' False c0;
          c2 = ProxyFileConfig_set_device_enabled ''A2'' True c1
      in unwrapped (ProxyFileConfig_to_toml_string ser c2) (\<lambda>text.
           contains text ''A1'' \<and> \<not> contains text ''A2''
         \<and> unwrapped (ProxyFileConfig_from_toml_str toml text) (\<lambda>loaded.
             \<not> is_enabled (pf_devices loaded) ''A1'' \<and> is_enabled (pf_devices loaded) ''A2'')))"

definition missing_enabled_field_means_true :: "(string \<Rightarrow> string + RawDevice list option) \<Rightarrow> bool" where
  "missing_enabled_field_means_true toml \<longleftrightarrow>
     unwrapped (ProxyFileConfig_from_toml_str toml (document [[], ''[[device]]'', ''serial = '' @ dq ''X'']))
     (\<lambda>cfg. is_enabled (pf_devices cfg) ''X'')"

lemma roundtrip_disabled_only_passes:
  assumes "ser [\<lparr>dp_serial = ''A1'', dp_enabled = False\<rparr>]
      = Inr (document [''[[device]]'', ''serial = '' @ dq ''A1'', ''enabled = false''])"
    and "toml (document [''[[device]]'', ''serial = '' @ dq ''A1'', ''enabled = false''])
      = Inr (Some [\<lparr>rd_serial = ''A1'', rd_enabled = Some False\<rparr>])"
  shows "roundtrip_disabled_only ser toml"
proof -
  have "contains (document [''[[device]]'', ''serial = '' @ dq ''A1'', ''enabled = false'']) ''A1''"
    "\<not> contains (document [''[[device]]'', ''serial = '' @ dq ''A1'', ''enabled = false'']) ''A2''"
    by code_simp+
  with assms show ?thesis
    by (simp add: roundtrip_disabled_only_def ProxyFileConfig_default_def ProxyFileConfig_set_device_enabled_def DevicePolicyTable_default_def set_enabled_def
        hm_insert_def hm_remove_def ProxyFileConfig_to_toml_string_def to_disabled_entries_def
        ProxyFileConfig_from_toml_str_def from_entries_def is_enabled_def Let_def)
qed

lemma missing_enabled_field_means_true_passes:
  assumes "toml (document [[], ''[[device]]'', ''serial = '' @ dq ''X'']) = Inr (Some [\<lparr>rd_serial = ''X'', rd_enabled = None\<rparr>])"
  shows "missing_enabled_field_means_true toml"
  using assms by (simp add: missing_enabled_field_means_true_def ProxyFileConfig_from_toml_str_def from_entries_def
      DevicePolicyTable_default_def hm_insert_def is_enabled_def)

end
