(* ===== verification/Route_Tests.thy ===== *)
theory Route_Tests
  imports Testing Session
begin

text \<open>
  The unit tests in src/session.rs (\<^verbatim>\<open>mod route_tests\<close>): how a request is routed and rewritten for given
  devices, evaluated on the model.
\<close>

section \<open>Fixtures\<close>

definition snap_one :: "string + DeviceSnapshot" where
  "snap_one =
     bind_r (parse_addr ''10.0.0.1:5038'') (\<lambda>addr.
       Inr \<lparr>devices = [\<lparr>public_serial = ''office:ABC'', upstream_serial = ''ABC'', dev_state = ''device'', extras = [],
         backend_name = ''office'', backend_addr = addr, pair_code = Some ''ABCD1234'', route_id = None\<rparr>]\<rparr>)"

text \<open>The entries the tests with several devices write out, which differ in these fields only.\<close>

definition test_entry :: "string \<Rightarrow> string \<Rightarrow> string \<Rightarrow> string option \<Rightarrow> string + DeviceEntry" where
  "test_entry serial name addr code =
     bind_r (parse_addr addr) (\<lambda>a.
       Inr \<lparr>public_serial = serial, upstream_serial = serial, dev_state = ''device'', extras = [],
         backend_name = name, backend_addr = a, pair_code = code, route_id = None\<rparr>)"

text \<open>A test of one request: the default backend is 127.0.0.1:5039.\<close>

definition routed ::
  "string \<Rightarrow> string + DeviceSnapshot \<Rightarrow> string option \<Rightarrow> string list
     \<Rightarrow> (SocketAddr \<times> string option \<times> string \<Rightarrow> bool) \<Rightarrow> bool" where
  "routed service snap code order asserts \<longleftrightarrow>
     unwrapped (parse_addr ''127.0.0.1:5039'') (\<lambda>default.
     unwrapped snap (\<lambda>snap.
     unwrapped (route_service service snap default code order) asserts))"

definition not_routed ::
  "string \<Rightarrow> string + DeviceSnapshot \<Rightarrow> string option \<Rightarrow> string list \<Rightarrow> (string \<Rightarrow> bool) \<Rightarrow> bool" where
  "not_routed service snap code order asserts \<longleftrightarrow>
     unwrapped (parse_addr ''127.0.0.1:5039'') (\<lambda>default.
     unwrapped snap (\<lambda>snap.
     unwrapped_err (route_service service snap default code order) asserts))"

definition two_devices :: "string + DeviceEntry \<Rightarrow> string + DeviceEntry \<Rightarrow> string + DeviceSnapshot" where
  "two_devices a b = bind_r a (\<lambda>a. bind_r b (\<lambda>b. Inr \<lparr>devices = [a, b]\<rparr>))"

section \<open>Tests\<close>

definition rewrites_transport_serial :: bool where
  "rewrites_transport_serial \<longleftrightarrow>
     routed ''host:transport:office:ABC'' snap_one None [''office'']
     (\<lambda>(addr, code, svc). addr_string addr = ''10.0.0.1:5038'' \<and> code = Some ''ABCD1234'' \<and> svc = ''host:transport:ABC'')"

definition rewrites_tport_serial :: bool where
  "rewrites_tport_serial \<longleftrightarrow>
     routed ''host:tport:serial:office:ABC'' snap_one None [''office'']
     (\<lambda>(addr, code, svc). addr_string addr = ''10.0.0.1:5038'' \<and> svc = ''host:tport:serial:ABC'')"

definition tport_any_becomes_serial :: bool where
  "tport_any_becomes_serial \<longleftrightarrow>
     routed ''host:tport:any'' snap_one None [''local'', ''office'']
     (\<lambda>(addr, code, svc). addr_string addr = ''10.0.0.1:5038'' \<and> svc = ''host:tport:serial:ABC'')"

definition tport_any_prefers_local_even_if_remotes_exist :: bool where
  "tport_any_prefers_local_even_if_remotes_exist \<longleftrightarrow>
     routed ''host:tport:any'' (two_devices
       (test_entry ''LOCAL1'' ''local'' ''127.0.0.1:5039'' None)
       (test_entry ''REMOTE1'' ''office'' ''10.0.0.1:5038'' (Some ''ABCD1234''))) None [''local'', ''office'']
     (\<lambda>(addr, code, svc). addr_string addr = ''127.0.0.1:5039'' \<and> code = None \<and> svc = ''host:tport:serial:LOCAL1'')"

definition tport_any_falls_back_to_first_remote_with_device :: bool where
  "tport_any_falls_back_to_first_remote_with_device \<longleftrightarrow>
     routed ''host:transport-any'' (two_devices
       (test_entry ''REMOTE1'' ''office'' ''10.0.0.1:5038'' (Some ''CODE1111''))
       (test_entry ''REMOTE2'' ''lab'' ''10.0.0.2:5038'' (Some ''CODE2222''))) None [''local'', ''office'', ''lab'']
     (\<lambda>(addr, code, svc). addr_string addr = ''10.0.0.1:5038'' \<and> code = Some ''CODE1111'' \<and> svc = ''host:transport:REMOTE1'')"

definition tport_any_errors_when_local_has_many :: bool where
  "tport_any_errors_when_local_has_many \<longleftrightarrow>
     not_routed ''host:tport:any'' (two_devices
       (test_entry ''L1'' ''local'' ''127.0.0.1:5039'' None)
       (test_entry ''L2'' ''local'' ''127.0.0.1:5039'' None)) None [''local'']
     (\<lambda>err. contains err ''more than one'')"

definition transport_any_not_parsed_as_serial_any :: bool where
  "transport_any_not_parsed_as_serial_any \<longleftrightarrow>
     routed ''host:transport-any'' snap_one None [''office'']
     (\<lambda>(addr, code, svc). addr_string addr = ''10.0.0.1:5038'' \<and> code = Some ''ABCD1234'' \<and> svc = ''host:transport:ABC'')"

definition transport_usb_and_local_use_preferred :: bool where
  "transport_usb_and_local_use_preferred \<longleftrightarrow>
     routed ''host:transport-usb'' snap_one None [''office''] (\<lambda>(_, _, usb). usb = ''host:transport:ABC'')
   \<and> routed ''host:transport-local'' snap_one None [''office''] (\<lambda>(_, _, loc). loc = ''host:transport:ABC'')"

definition host_usb_request_rewrites_to_host_serial :: bool where
  "host_usb_request_rewrites_to_host_serial \<longleftrightarrow>
     routed ''host-usb:get-state'' snap_one None [''office'']
     (\<lambda>(addr, code, svc). addr_string addr = ''10.0.0.1:5038'' \<and> svc = ''host-serial:ABC:get-state'')"

definition tport_usb_uses_preferred :: bool where
  "tport_usb_uses_preferred \<longleftrightarrow>
     routed ''host:tport:usb'' snap_one None [''office'']
     (\<lambda>(addr, code, svc). svc = ''host:tport:serial:ABC'')"

text \<open>Prefer office (has the only online device) over empty local default.\<close>

definition features_follows_preferred_device_backend :: bool where
  "features_follows_preferred_device_backend \<longleftrightarrow>
     routed ''host:features'' snap_one (Some ''LOCALCODE'') [''local'', ''office'']
     (\<lambda>(addr, code, svc). addr_string addr = ''10.0.0.1:5038'' \<and> code = Some ''ABCD1234'' \<and> svc = ''host:features'')"

definition get_state_rewrites_to_preferred_host_serial :: bool where
  "get_state_rewrites_to_preferred_host_serial \<longleftrightarrow>
     routed ''host:get-state'' snap_one None [''local'', ''office'']
     (\<lambda>(addr, code, svc). addr_string addr = ''10.0.0.1:5038'' \<and> code = Some ''ABCD1234'' \<and> svc = ''host-serial:ABC:get-state'')"

definition get_state_errors_when_no_devices :: bool where
  "get_state_errors_when_no_devices \<longleftrightarrow>
     not_routed ''host:get-state'' (Inr \<lparr>devices = []\<rparr>) None [''local'']
     (\<lambda>err. contains err ''no devices'')"

section \<open>They pass\<close>

lemmas route_fixtures = routed_def not_routed_def snap_one_def test_entry_def two_devices_def

lemmas route_eval = route_service_def rewrite_upstream_service_def lookup_online_def lookup_device_def
  find_device_def pick_preferred_def pick_order_def push_new_def pick_one_on_backend_def starts_with_def ok_def Let_def

lemma rewrites_transport_serial_passes: rewrites_transport_serial
  by (simp add: rewrites_transport_serial_def route_fixtures route_eval printed)

lemma rewrites_tport_serial_passes: rewrites_tport_serial
  by (simp add: rewrites_tport_serial_def route_fixtures route_eval printed)

lemma tport_any_becomes_serial_passes: tport_any_becomes_serial
  by (simp add: tport_any_becomes_serial_def route_fixtures route_eval printed)

lemma tport_any_prefers_local_even_if_remotes_exist_passes: tport_any_prefers_local_even_if_remotes_exist
  by (simp add: tport_any_prefers_local_even_if_remotes_exist_def route_fixtures route_eval printed)

lemma tport_any_falls_back_to_first_remote_with_device_passes: tport_any_falls_back_to_first_remote_with_device
  by (simp add: tport_any_falls_back_to_first_remote_with_device_def route_fixtures route_eval printed)

lemma tport_any_errors_when_local_has_many_passes: tport_any_errors_when_local_has_many
  by (simp add: tport_any_errors_when_local_has_many_def route_fixtures route_eval printed)

lemma transport_any_not_parsed_as_serial_any_passes: transport_any_not_parsed_as_serial_any
  by (simp add: transport_any_not_parsed_as_serial_any_def route_fixtures route_eval printed)

lemma transport_usb_and_local_use_preferred_passes: transport_usb_and_local_use_preferred
  by (simp add: transport_usb_and_local_use_preferred_def route_fixtures route_eval printed)

lemma host_usb_request_rewrites_to_host_serial_passes: host_usb_request_rewrites_to_host_serial
  by (simp add: host_usb_request_rewrites_to_host_serial_def route_fixtures route_eval printed)

lemma tport_usb_uses_preferred_passes: tport_usb_uses_preferred
  by (simp add: tport_usb_uses_preferred_def route_fixtures route_eval printed)

lemma features_follows_preferred_device_backend_passes: features_follows_preferred_device_backend
  by (simp add: features_follows_preferred_device_backend_def route_fixtures route_eval printed)

lemma get_state_rewrites_to_preferred_host_serial_passes: get_state_rewrites_to_preferred_host_serial
  by (simp add: get_state_rewrites_to_preferred_host_serial_def route_fixtures route_eval printed)

lemma get_state_errors_when_no_devices_passes: get_state_errors_when_no_devices
  by (simp add: get_state_errors_when_no_devices_def route_fixtures route_eval printed)

end
