(* ===== verification/Spec2Isabelle.thy ===== *)
theory Spec2Isabelle
  imports Compat Agent_Secrecy Relay Daemon_Streams Watcher Joined Binaries Tunnel_Order Publishing
    Unit_Tests Registry_Tests Config_Tests Route_Tests
begin

text \<open>
  A verification development of adb-proxy and adb-hub: the Rust crate under src/src.

  THE PROGRAM. Three roles exchange adb's smart-socket protocol over TCP. The proxy (lib.rs, main.rs)
  stands in front of a remote adb server, asks every client for a pair code and applies a device policy.
  The hub (hub.rs, session.rs) listens where stock adb expects its server, merges the device lists of a local adb
  server (local.rs) and of paired proxies (backend.rs, registry.rs), and routes every request to the right one,
  setting up tunnels for scrcpy (tunnel.rs). On Linux the hub is split (service.rs): one shared daemon (daemon.rs,
  tenant.rs, peercred.rs) serves all users of a host, and an agent per user (agent.rs) keeps the pair codes, publishes
  a sanitised list and opens the private streams; the two speak the protocol of ipc.rs over a Unix socket. The
  configuration files are config.rs, proxy_config.rs and policy.rs, the commands bin/adb-hub.rs, bin/adb-hubd.rs and
  main.rs.

  HOW IT IS MODELLED. Pure functions are HOL functions. A stateful function is a function of an explicit state
  record into a result and the new state, \<open>('s, 'a) act\<close>; results are sums with the error on the left, so every early
  return and every \<^verbatim>\<open>?\<close> is a branch (Prelude). Strings and byte buffers are both lists of bytes (Rust_Str has what the source
  uses of \<^verbatim>\<open>str\<close>, with white space and UTF-8 validity on bytes; Rust_Num the parsing and printing of numbers). Integers keep
  their width. Hash maps whose order does not matter are functions or association lists. A connection (Rust_Io) is what the peer
  will still send, how its stream ends, what was written and how much more can be: a statement over all connections covers
  every peer, every message and every point of failure. A session (Net) adds the results of its outgoing connection attempts, and a record of the upstream connections
  it hands to the copy function; a session of the daemon also records what it sends to agents and which tasks it spawns; a
  machine (Local) the environment, the programs that can be run and a clock. Concurrency is an explicit sequence of events where the
  order of whole operations matters (agents and poller of the daemon, watchers, agent events, accept loops), a step relation
  where single steps interleave (Relay, Publishing, Tunnel_Order, the hub's loop with the waiters of its notification), and an arbitrary function \<open>others\<close> where a client session of the daemon
  waits and other tasks change the shared state.

  THE THEORIES, in the order they build on each other:
  Prelude, Rust_Str, Rust_Num, Rust_Io, Net_Addr, Fs: the Rust library as far as it is used. Fs fails at an arbitrary call.
  Protocol (protocol.rs): framing, replies; sequences of frames are read back (locale \<open>framed\<close>).
  Auth (auth.rs): pair codes and both sides of the handshake.
  Compat (compat.rs): version parsing, order and the gate.
  Policy, Config, Config_Store (policy.rs, config.rs, proxy_config.rs): tables, validation, edits, atomic save, caches (locale \<open>reloadable\<close>).
  Registry (registry.rs): parsing, merging and naming of devices. Tenant (tenant.rs): shared and private devices (locale
  \<open>tenant_store\<close>). Ipc (ipc.rs): messages between daemon and agent. Peercred, Platform (peercred.rs): the user behind a TCP
  client; the platform check, user names and credentials of a local peer. Unix_Socket: abstract addresses.
  Net, Tunnel (tunnel.rs), Session (session.rs): a client of the hub; \<open>splices\<close> collects the upstream connections a
  computation hands to the copy function, with rules in the locales \<open>session_condition\<close> and \<open>tunnel_user\<close>. Tunnel_Order: the
  tasks of one tunnel listener.
  Proxy, Serve (lib.rs): a client of the proxy; accept loops (locale \<open>server\<close>) and the loop of the proxy.
  Backend, Watcher, Publishing (backend.rs): queries, the version gate, the shared table, its watchers, and their publications step by step.
  Relational, Agent, Agent_Secrecy, Agent_Main (agent.rs): the agent's operations and tasks; runs of two agents related step by step for
  secrecy; a whole run from the platform check to its end.
  Daemon_Agents, Daemon, Daemon_Sessions, Daemon_Streams, Relay, Daemon_Server (daemon.rs): the agents' side, the clients' side, what
  a session can reach (locale \<open>client_guard\<close>), a private stream end to end, its two tasks with mutex and channel, start and accept loop.
  Joined: agent and daemon over one control connection, and the client of the daemon from the kernel's answer on.
  Local (local.rs): the side adb server; both waiting loops are instances of the locale \<open>waiting\<close>.
  Hub (hub.rs): start, loop, and what a hub's clients reach. Commands, Paths (the binaries): commands, the configuration of a run,
  default paths. Service (service.rs): roles of a process and the end of its tasks. Binaries: the three \<^verbatim>\<open>main\<close> functions.
  Testing, Unit_Tests, Registry_Tests, Config_Tests, Route_Tests: the unit tests of the crate, each a definition named after its
  test function, evaluated on the model; all of them pass, so the model agrees with what the authors observe of the code. (The test
  of tunnel.rs, which needs a real listener, is the lemma \<open>scrcpy_sockets_in_order\<close> of Tunnel_Order, for every schedule.)

  WHAT IS SHOWN. Confinement and secrecy: where client data can go and which agent is asked for what (daemon_upstreams, daemon_confined, session_upstreams,
  hub_codes_stay), that users do not influence each other (daemon_isolation), that the daemon cannot learn pair codes
  (agent_hides_codes), that an IPv4 client is served as the owner of its socket
  according to the kernel's first reply (client_served_as_owner), and that the proxy serves nobody
  without the code. Composition: what a user sees on the daemon is the list of the user's agent's last successful round, entry by entry, and can be opened
  (view_follows_agent); what was paired is what the next run serves (paired_then_served). Function: what a private stream carries, which list an agent
  publishes and how a run of it ends, how devices are named and chosen, what a started hub serves, what pairing stores, when a service ends and whom it takes along, that scrcpy's sockets keep their order. Refinement: the two tasks of a stream
  are an ordered pipe. Bounds: of the work a stream does for what arrives, and of waiting loops. Round trips of frames, messages, configurations.
  Errors: refused streams, and several places where the code does not do what it means to, each with a theorem on the model: ghost devices
  of a replaced agent, the deadlock of an agent's read loop, a kill request that goes unheard, lists that stay when a backend is gone or two watchers publish at once, serials that \<^verbatim>\<open>host-serial\<close> cannot name, a
  configuration that locks its owner out, a second hub whose agents register with the first.

  BOUNDS AND FUEL. Loops that read are recursive in what the peer still sends and end by themselves; waiting loops end by the clock.
  Loops that never end are followed for the rounds or events of a list of any length, and statements hold for every list. The channel
  capacity (32) and the read size (64 KiB) are the code's.

  NOT MODELLED, AND WHY. Libraries are arguments: the TOML and JSON codecs, \<^verbatim>\<open>copy_bidirectional\<close>, the kernel's netlink answers (one datagram, laid out as sock_diag documents),
  the random source. System calls (\<^verbatim>\<open>SO_PEERCRED\<close>, \<^verbatim>\<open>getpwuid_r\<close>, sockets) appear by their results. A timeout of a connection is one of its errors. Log output, tracing set-up and the parsing of
  arguments (the clap library) are left out, as are the time a poller or a retry sleeps and the branches for other platforms than Linux except the platform check, its
  messages and the classic hub. How a service, an agent or a proxy ends is an argument of the \<^verbatim>\<open>main\<close> functions, since it depends on
  events; the events and ends are modelled in Service, Agent_Main and Serve.
\<close>

end
